(* ===== verification/Indexer_Prelude.thy ===== *)
theory Indexer_Prelude
  imports Main "HOL-Library.Word" "HOL-Library.Multiset" "HOL-Library.Product_Lexorder"
begin

text \<open>
  Shared vocabulary of the development: the machine types of the Rust sources, the
  \<open>Result\<close> type and the combinators that the \<open>?\<close> operator and the iterator adaptors
  stand for, the checked and saturating integer operations of the standard library, and
  the lemmas about them that carry the component proofs.

  \<^item> \<open>Result<T, E>\<close> is \<open>'e + 'a\<close> with the error on the left; \<open>and_then\<close> is the
    \<open>?\<close> operator, \<open>traverse\<close> is \<open>map(..).collect::<Result<Vec<_>, _>>()\<close>, and
    \<open>try_fold\<close> is a \<open>for\<close> loop whose body may return early with an error.
  \<^item> \<open>u64\<close>, \<open>u32\<close>, \<open>u16\<close>, \<open>u8\<close> are words of that width. \<open>FixedBytes<32>\<close>,
    \<open>[u8; 32]\<close> and \<open>U256\<close> are all the 256-bit word that the 32 bytes spell in big-endian
    order, so \<open>to_be_bytes\<close> and \<open>from_be_bytes\<close> between them are the identity and the
    numeric order is the lexicographic order of the bytes.
  \<^item> \<open>usize\<close> values that only count elements of vectors are \<open>nat\<close>; conversions to a fixed
    width are written out with their range check.
\<close>

type_synonym u8 = "8 word"
type_synonym u16 = "16 word"
type_synonym u32 = "32 word"
type_synonym u64 = "64 word"
type_synonym u128 = "128 word"
type_synonym u256 = "256 word"
type_synonym bytes32 = "256 word"
type_synonym address = "160 word"

named_theorems result_simps \<open>how the result combinators compute and invert\<close>
named_theorems checked_simps \<open>checked operations as arithmetic on natural numbers\<close>

section \<open>Results\<close>

definition and_then :: "'e + 'a \<Rightarrow> ('a \<Rightarrow> 'e + 'b) \<Rightarrow> 'e + 'b" where
  "and_then r f = (case r of Inl e \<Rightarrow> Inl e | Inr x \<Rightarrow> f x)"

definition ok_or :: "'e \<Rightarrow> 'a option \<Rightarrow> 'e + 'a" where
  "ok_or e x = (case x of None \<Rightarrow> Inl e | Some a \<Rightarrow> Inr a)"

definition map_err :: "('e \<Rightarrow> 'f) \<Rightarrow> 'e + 'a \<Rightarrow> 'f + 'a" where
  "map_err f r = (case r of Inl e \<Rightarrow> Inl (f e) | Inr x \<Rightarrow> Inr x)"

definition ensure :: "bool \<Rightarrow> 'e \<Rightarrow> 'e + unit" where
  "ensure b e = (if b then Inr () else Inl e)"

fun traverse :: "('a \<Rightarrow> 'e + 'b) \<Rightarrow> 'a list \<Rightarrow> 'e + 'b list" where
  "traverse f [] = Inr []"
| "traverse f (x # xs) =
     and_then (f x) (\<lambda>y. and_then (traverse f xs) (\<lambda>ys. Inr (y # ys)))"

fun try_fold :: "('s \<Rightarrow> 'a \<Rightarrow> 'e + 's) \<Rightarrow> 's \<Rightarrow> 'a list \<Rightarrow> 'e + 's" where
  "try_fold f s [] = Inr s"
| "try_fold f s (x # xs) = and_then (f s x) (\<lambda>s'. try_fold f s' xs)"

lemma and_then_simps [simp, result_simps]:
  "and_then (Inl e) f = Inl e"
  "and_then (Inr x) f = f x"
  by (simp_all add: and_then_def)

lemma and_then_Inr_iff [result_simps]:
  "and_then r f = Inr y \<longleftrightarrow> (\<exists>x. r = Inr x \<and> f x = Inr y)"
  by (cases r) simp_all

lemma and_then_Inl_iff [result_simps]:
  "and_then r f = Inl e \<longleftrightarrow> r = Inl e \<or> (\<exists>x. r = Inr x \<and> f x = Inl e)"
  by (cases r) simp_all

lemma and_then_cong [fundef_cong]:
  "r = r' \<Longrightarrow> (\<And>x. r' = Inr x \<Longrightarrow> f x = g x) \<Longrightarrow> and_then r f = and_then r' g"
  by (cases r') simp_all

lemma and_then_assoc: "and_then (and_then r f) g = and_then r (\<lambda>x. and_then (f x) g)"
  by (cases r) simp_all

lemma ok_or_simps [simp, result_simps]:
  "ok_or e None = Inl e"
  "ok_or e (Some a) = Inr a"
  by (simp_all add: ok_or_def)

lemma ok_or_iff [result_simps]:
  "ok_or e x = Inr a \<longleftrightarrow> x = Some a"
  "ok_or e x = Inl e' \<longleftrightarrow> x = None \<and> e' = e"
  by (cases x; auto)+

lemma map_err_simps [simp, result_simps]:
  "map_err f (Inl e) = Inl (f e)"
  "map_err f (Inr x) = Inr x"
  by (simp_all add: map_err_def)

lemma map_err_iff [result_simps]:
  "map_err f r = Inr x \<longleftrightarrow> r = Inr x"
  "map_err f r = Inl e' \<longleftrightarrow> (\<exists>e. r = Inl e \<and> e' = f e)"
  by (cases r; auto)+

lemma ensure_iff [result_simps]:
  "ensure b e = Inr u \<longleftrightarrow> b"
  "ensure b e = Inl e' \<longleftrightarrow> \<not> b \<and> e' = e"
  by (auto simp: ensure_def)

lemma ensure_simps [simp]: "ensure True e = Inr ()" "ensure False e = Inl e"
  by (simp_all add: ensure_def)

lemma traverse_Inr_iff:
  "traverse f xs = Inr ys \<longleftrightarrow> list_all2 (\<lambda>x y. f x = Inr y) xs ys"
proof (induction xs arbitrary: ys)
  case Nil
  then show ?case by auto
next
  case (Cons x xs)
  then show ?case
    by (cases ys) (auto simp: result_simps)
qed

lemma traverse_length: "traverse f xs = Inr ys \<Longrightarrow> length ys = length xs"
  by (auto simp: traverse_Inr_iff dest: list_all2_lengthD)

lemma traverse_nth: "traverse f xs = Inr ys \<Longrightarrow> i < length xs \<Longrightarrow> f (xs ! i) = Inr (ys ! i)"
  by (auto simp: traverse_Inr_iff dest: list_all2_nthD)

lemma traverse_map_eq:
  "traverse f xs = Inr ys \<Longrightarrow> (\<And>x y. x \<in> set xs \<Longrightarrow> f x = Inr y \<Longrightarrow> g y = h x) \<Longrightarrow> map g ys = map h xs"
  unfolding traverse_Inr_iff by (induction rule: list_all2_induct) auto

lemma traverse_total: "(\<And>x. x \<in> set xs \<Longrightarrow> f x = Inr (g x)) \<Longrightarrow> traverse f xs = Inr (map g xs)"
  by (induction xs) auto

lemma traverse_ex: "\<forall>x \<in> set xs. \<exists>y. f x = Inr y \<Longrightarrow> \<exists>ys. traverse f xs = Inr ys"
  by (induction xs) auto

lemma traverse_append:
  "traverse f (xs @ ys) =
     and_then (traverse f xs) (\<lambda>as. and_then (traverse f ys) (\<lambda>bs. Inr (as @ bs)))"
proof (induction xs)
  case Nil
  show ?case by (cases "traverse f ys") simp_all
next
  case (Cons x xs)
  show ?case
    by (cases "f x"; cases "traverse f xs"; cases "traverse f ys") (simp_all add: Cons.IH)
qed

lemma try_fold_append:
  "try_fold f s (xs @ ys) = and_then (try_fold f s xs) (\<lambda>s'. try_fold f s' ys)"
  by (induction xs arbitrary: s) (simp_all add: and_then_assoc)

lemma try_fold_cong [fundef_cong]:
  "xs = ys \<Longrightarrow> s = t \<Longrightarrow> (\<And>a x. x \<in> set ys \<Longrightarrow> f a x = g a x) \<Longrightarrow> try_fold f s xs = try_fold g t ys"
proof (induction ys arbitrary: xs s t)
  case (Cons y ys)
  then show ?case by (auto intro!: and_then_cong)
qed simp

text \<open>A loop whose body changes the state even where it then returns early with an error.\<close>

fun run_each :: "('s \<Rightarrow> 'a \<Rightarrow> ('e + unit) \<times> 's) \<Rightarrow> 's \<Rightarrow> 'a list \<Rightarrow> ('e + unit) \<times> 's" where
  "run_each f s [] = (Inr (), s)"
| "run_each f s (x # xs) =
     (case f s x of (Inl e, s') \<Rightarrow> (Inl e, s') | (Inr _, s') \<Rightarrow> run_each f s' xs)"

lemma run_each_invariant:
  assumes "P s" and "\<And>a x. x \<in> set xs \<Longrightarrow> P a \<Longrightarrow> P (snd (f a x))"
  shows "P (snd (run_each f s xs))"
  using assms
proof (induction xs arbitrary: s)
  case (Cons x xs)
  then have "P (snd (f s x))" by simp
  with Cons show ?case by (cases "f s x" rule: prod.exhaust; cases "fst (f s x)") auto
qed simp

text \<open>The loop rule: what every step keeps holds after the loop.\<close>

lemma try_fold_invariant:
  assumes "try_fold f s xs = Inr t" and "P s"
    and "\<And>a x b. x \<in> set xs \<Longrightarrow> P a \<Longrightarrow> f a x = Inr b \<Longrightarrow> P b"
  shows "P t"
  using assms
proof (induction xs arbitrary: s)
  case Nil
  then show ?case by simp
next
  case (Cons x xs)
  then obtain b where b: "f s x = Inr b" "try_fold f b xs = Inr t"
    by (auto simp: result_simps)
  with Cons.prems have "P b" by auto
  with b(2) show ?case using Cons.IH Cons.prems(3) by auto
qed

section \<open>Checked and saturating arithmetic\<close>

definition checked_add :: "'a::len word \<Rightarrow> 'a word \<Rightarrow> 'a word option" where
  "checked_add a b = (if unat a + unat b < 2 ^ LENGTH('a) then Some (a + b) else None)"

definition checked_sub :: "'a::len word \<Rightarrow> 'a word \<Rightarrow> 'a word option" where
  "checked_sub a b = (if unat b \<le> unat a then Some (a - b) else None)"

definition checked_mul :: "'a::len word \<Rightarrow> 'a word \<Rightarrow> 'a word option" where
  "checked_mul a b = (if unat a * unat b < 2 ^ LENGTH('a) then Some (a * b) else None)"

definition saturating_add :: "'a::len word \<Rightarrow> 'a word \<Rightarrow> 'a word" where
  "saturating_add a b = (if unat a + unat b < 2 ^ LENGTH('a) then a + b else - 1)"

definition saturating_sub :: "'a::len word \<Rightarrow> 'a word \<Rightarrow> 'a word" where
  "saturating_sub a b = (if unat b \<le> unat a then a - b else 0)"

definition saturating_mul :: "'a::len word \<Rightarrow> 'a word \<Rightarrow> 'a word" where
  "saturating_mul a b = (if unat a * unat b < 2 ^ LENGTH('a) then a * b else - 1)"

text \<open>\<open>try_from\<close> between unsigned widths, and from a vector's length.\<close>

definition try_from_len :: "nat \<Rightarrow> 'a::len word option" where
  "try_from_len n = (if n < 2 ^ LENGTH('a) then Some (word_of_nat n) else None)"

definition try_from_word :: "'b::len word \<Rightarrow> 'a::len word option" where
  "try_from_word x = try_from_len (unat x)"

lemma unat_less_exp: "unat (a :: 'a::len word) < 2 ^ LENGTH('a)"
  by (rule unsigned_less)

lemma unat_minus_1: "unat (- 1 :: 'a::len word) = 2 ^ LENGTH('a) - 1"
  by (simp add: unsigned_minus_1_eq_mask mask_eq_exp_minus_1)

lemma unat_word_of_nat: "n < 2 ^ LENGTH('a) \<Longrightarrow> unat (word_of_nat n :: 'a::len word) = n"
  by (simp add: unsigned_of_nat take_bit_nat_eq_self)

lemma unat_surj:
  assumes "n < 2 ^ LENGTH('a)"
  obtains x :: "'a::len word" where "unat x = n"
  using unat_word_of_nat [OF assms] that by blast

lemma unat_ucast_up:
  assumes "LENGTH('a) \<le> LENGTH('b)"
  shows "unat (ucast (x :: 'a::len word) :: 'b::len word) = unat x"
proof -
  have "unat x < 2 ^ LENGTH('a)" by (rule unat_less_exp)
  also have "\<dots> \<le> 2 ^ LENGTH('b)" using assms by (simp add: power_increasing)
  finally show ?thesis by (simp add: unsigned_ucast_eq take_bit_nat_eq_self)
qed

lemma unat_eqI: "unat a = unat b \<Longrightarrow> a = b"
  by (simp add: word_unat_eq_iff)

lemma checked_add_Some_iff [checked_simps]:
  "checked_add a b = Some c \<longleftrightarrow> unat c = unat a + unat b"
proof
  assume "unat c = unat a + unat b"
  then have "unat a + unat b < 2 ^ LENGTH('a)" by (metis unat_less_exp)
  with \<open>unat c = unat a + unat b\<close> show "checked_add a b = Some c"
    by (auto simp: checked_add_def unat_word_ariths intro!: unat_eqI)
qed (auto simp: checked_add_def unat_word_ariths split: if_splits)

lemma checked_add_None_iff [checked_simps]:
  "checked_add (a :: 'a::len word) b = None \<longleftrightarrow> 2 ^ LENGTH('a) \<le> unat a + unat b"
  by (auto simp: checked_add_def)

lemma checked_mul_Some_iff [checked_simps]:
  "checked_mul a b = Some c \<longleftrightarrow> unat c = unat a * unat b"
proof
  assume "unat c = unat a * unat b"
  then have "unat a * unat b < 2 ^ LENGTH('a)" by (metis unat_less_exp)
  with \<open>unat c = unat a * unat b\<close> show "checked_mul a b = Some c"
    by (auto simp: checked_mul_def unat_word_ariths intro!: unat_eqI)
qed (auto simp: checked_mul_def unat_word_ariths split: if_splits)

lemma checked_mul_None_iff [checked_simps]:
  "checked_mul (a :: 'a::len word) b = None \<longleftrightarrow> 2 ^ LENGTH('a) \<le> unat a * unat b"
  by (auto simp: checked_mul_def)

lemma unat_sub_le: "unat b \<le> unat a \<Longrightarrow> unat (a - b) = unat a - unat b"
  by (simp add: unat_sub word_le_nat_alt)

lemma checked_sub_Some_iff [checked_simps]:
  "checked_sub a b = Some c \<longleftrightarrow> unat a = unat b + unat c"
  by (auto simp: checked_sub_def unat_sub_le intro!: unat_eqI)

lemma checked_sub_None_iff [checked_simps]:
  "checked_sub a b = None \<longleftrightarrow> unat a < unat b"
  by (auto simp: checked_sub_def)

lemma try_from_len_Some_iff [checked_simps]:
  "try_from_len n = Some w \<longleftrightarrow> unat w = n"
  using unat_less_exp [of w] by (auto simp: try_from_len_def unat_word_of_nat)

text \<open>\<open>x.checked_add(n as u64)\<close> for the length of a vector or an index into one, which always fits.\<close>

definition checked_add_len :: "'a::len word \<Rightarrow> nat \<Rightarrow> 'a word option" where
  "checked_add_len x n = Option.bind (try_from_len n) (checked_add x)"

lemma checked_add_len_iff [checked_simps]:
  "checked_add_len x n = Some y \<longleftrightarrow> unat y = unat x + n"
proof
  assume y: "unat y = unat x + n"
  then have "n < 2 ^ LENGTH('a)" using unat_less_exp [of y] by linarith
  then obtain k :: "'a word" where "unat k = n" by (rule unat_surj)
  with y show "checked_add_len x n = Some y"
    by (auto simp: checked_add_len_def bind_eq_Some_conv checked_add_Some_iff try_from_len_Some_iff)
qed (auto simp: checked_add_len_def bind_eq_Some_conv checked_add_Some_iff try_from_len_Some_iff)

lemma try_from_len_None_iff [checked_simps]:
  "(try_from_len n :: 'a::len word option) = None \<longleftrightarrow> 2 ^ LENGTH('a) \<le> n"
  by (auto simp: try_from_len_def)

lemma try_from_word_Some_iff [checked_simps]:
  "try_from_word x = Some w \<longleftrightarrow> unat w = unat x"
  by (simp add: try_from_word_def checked_simps)

lemma try_from_word_None_iff [checked_simps]:
  "(try_from_word x :: 'a::len word option) = None \<longleftrightarrow> 2 ^ LENGTH('a) \<le> unat x"
  by (simp add: try_from_word_def checked_simps)

lemma unat_saturating_add:
  "unat (saturating_add a b :: 'a::len word) = min (unat a + unat b) (2 ^ LENGTH('a) - 1)"
  by (auto simp: saturating_add_def unat_word_ariths unat_minus_1 min_def)

lemma unat_saturating_sub [simp]: "unat (saturating_sub a b) = unat a - unat b"
  by (auto simp: saturating_sub_def unat_sub_le)

lemma unat_saturating_mul:
  "unat (saturating_mul a b :: 'a::len word) = min (unat a * unat b) (2 ^ LENGTH('a) - 1)"
  by (cases "unat a * unat b < 2 ^ LENGTH('a)")
    (simp_all add: saturating_mul_def unat_word_ariths unat_minus_1)

section \<open>Lists\<close>

text \<open>\<open>slice.get(index)\<close>.\<close>

definition get_at :: "'a list \<Rightarrow> nat \<Rightarrow> 'a option" where
  "get_at xs i = (if i < length xs then Some (xs ! i) else None)"

lemma get_at_iff:
  "get_at xs i = Some x \<longleftrightarrow> i < length xs \<and> xs ! i = x"
  "get_at xs i = None \<longleftrightarrow> length xs \<le> i"
  by (auto simp: get_at_def)

text \<open>A number in decimal, as \<open>format!\<close> prints it.\<close>

fun show_nat :: "nat \<Rightarrow> string" where
  "show_nat n =
     (if n < 10 then [char_of (48 + n)] else show_nat (n div 10) @ [char_of (48 + n mod 10)])"

declare show_nat.simps [simp del]

lemma distinct_sorted_map_unique:
  assumes "mset xs = mset ys" and "sorted (map f xs)" and "sorted (map f ys)"
    and "distinct (map f xs)"
  shows "xs = ys"
proof -
  have "inj_on f (set xs)" using assms(4) by (simp add: distinct_map)
  moreover have "set xs = set ys" using assms(1) by (metis set_mset_mset)
  moreover have "map f xs = map f ys"
    using assms(1-3) by (metis mset_map properties_for_sort sort_key_id_if_sorted sorted_sort_id)
  ultimately show ?thesis by (metis inj_on_map_eq_map Un_absorb)
qed

section \<open>Hash maps\<close>

text \<open>A \<open>HashMap\<close> is the list of its entries; looking up is \<^const>\<open>map_of\<close>, and \<open>hm_update\<close> is the
  entry interface: it changes the entry of a key or adds one.\<close>

fun hm_update :: "'k \<Rightarrow> ('v option \<Rightarrow> 'v) \<Rightarrow> ('k \<times> 'v) list \<Rightarrow> ('k \<times> 'v) list" where
  "hm_update k f [] = [(k, f None)]"
| "hm_update k f ((k', v) # m) =
     (if k' = k then (k', f (Some v)) # m else (k', v) # hm_update k f m)"

lemma map_of_hm_update: "map_of (hm_update k f m) = (map_of m)(k \<mapsto> f (map_of m k))"
  by (induction m) (auto simp: fun_eq_iff)

lemma hm_update_keys:
  "map fst (hm_update k f m) = (if k \<in> fst ` set m then map fst m else map fst m @ [k])"
  by (induction m) (auto, force)

lemma hm_update_distinct: "distinct (map fst m) \<Longrightarrow> distinct (map fst (hm_update k f m))"
  by (auto simp: hm_update_keys)

end
