(* ===== verification/Scrape_Policy.thy ===== *)
theory Scrape_Policy
  imports Indexer_Prelude
begin

text \<open>
  The two policies that steer how the scraper talks to the upstream node:
  \<^item> \<open>PageSizeAdapter\<close> (\<open>scrape/page_size.rs\<close>), which doubles the page after two successes
    in a row and halves it after a failure, between configured bounds;
  \<^item> \<open>RetryPolicy\<close> and \<open>retry_with_backoff\<close> (\<open>scrape/retry.rs\<close>), exponential backoff
    under a budget of attempts.

  A \<open>Duration\<close> is its number of nanoseconds; \<open>Duration::saturating_mul\<close> stops at
  \<open>Duration::MAX\<close>, which is \<open>DURATION_MAX\<close> here. The loop of \<open>retry_with_backoff\<close> is
  \<open>retry_loop\<close>, which terminates because the attempts left decrease; it returns, besides
  the result, the state of the retried operation and the delays slept so far.
\<close>

section \<open>Adaptive page size\<close>

definition UPSTREAM_MAX_PAGE_SIZE :: nat where
  "UPSTREAM_MAX_PAGE_SIZE = 100"

definition GROW_AFTER_SUCCESSES :: nat where
  "GROW_AFTER_SUCCESSES = 2"

definition USIZE_MAX :: nat where
  "USIZE_MAX = 2 ^ 64 - 1"

record page_size_adapter =
  current_size :: nat
  max_size :: nat
  min_size :: nat
  consecutive_successes :: nat
  consecutive_failures :: nat

definition clamp :: "nat \<Rightarrow> nat \<Rightarrow> nat \<Rightarrow> nat" where
  "clamp lo hi x = (if x < lo then lo else if hi < x then hi else x)"

definition page_size_new :: "nat \<Rightarrow> nat \<Rightarrow> nat \<Rightarrow> page_size_adapter" where
  "page_size_new current mx mn =
     (let mx' = clamp 1 UPSTREAM_MAX_PAGE_SIZE mx;
          mn' = clamp 1 mx' mn;
          current' = clamp mn' mx' current
      in \<lparr>current_size = current', max_size = mx', min_size = mn',
          consecutive_successes = 0, consecutive_failures = 0\<rparr>)"

definition on_success :: "page_size_adapter \<Rightarrow> page_size_adapter" where
  "on_success a =
     (let a' = a\<lparr>consecutive_successes := consecutive_successes a + 1,
                 consecutive_failures := 0\<rparr>
      in if consecutive_successes a' < GROW_AFTER_SUCCESSES \<or> current_size a' = max_size a'
         then a'
         else a'\<lparr>current_size := min (min (current_size a' * 2) USIZE_MAX) (max_size a'),
                 consecutive_successes := 0\<rparr>)"

definition on_failure :: "page_size_adapter \<Rightarrow> page_size_adapter" where
  "on_failure a =
     a\<lparr>consecutive_failures := consecutive_failures a + 1,
       consecutive_successes := 0,
       current_size := max (current_size a div 2) (min_size a)\<rparr>"

text \<open>The adapter under a history of page outcomes, \<open>True\<close> for a success.\<close>

definition page_size_run :: "bool list \<Rightarrow> page_size_adapter \<Rightarrow> page_size_adapter" where
  "page_size_run outcomes a = fold (\<lambda>ok. if ok then on_success else on_failure) outcomes a"

definition page_size_wf :: "page_size_adapter \<Rightarrow> bool" where
  "page_size_wf a \<longleftrightarrow>
     1 \<le> min_size a \<and> min_size a \<le> current_size a \<and> current_size a \<le> max_size a
     \<and> max_size a \<le> UPSTREAM_MAX_PAGE_SIZE"

section \<open>Retry with backoff\<close>

type_synonym duration = nat

definition DURATION_MAX :: duration where
  "DURATION_MAX = (2 ^ 64 - 1) * 10 ^ 9 + 999999999"

definition saturating_dbl :: "duration \<Rightarrow> duration" where
  "saturating_dbl d = min (d * 2) DURATION_MAX"

record retry_policy =
  budget :: nat
  base_delay :: duration
  max_delay :: duration

fun backoff_loop :: "duration \<Rightarrow> nat \<Rightarrow> duration \<Rightarrow> duration" where
  "backoff_loop mx 0 delay = min delay mx"
| "backoff_loop mx (Suc n) delay =
     (let delay' = saturating_dbl delay
      in if mx \<le> delay' then mx else backoff_loop mx n delay')"

definition backoff_delay :: "retry_policy \<Rightarrow> nat \<Rightarrow> duration" where
  "backoff_delay p attempt = backoff_loop (max_delay p) attempt (base_delay p)"

datatype 'e retry_error = NoAttemptsConfigured | BudgetExhausted nat 'e

function retry_loop ::
  "retry_policy \<Rightarrow> ('s \<Rightarrow> ('e + 'a) \<times> 's) \<Rightarrow> nat \<Rightarrow> 's \<Rightarrow> duration list
   \<Rightarrow> ('e retry_error + 'a) \<times> 's \<times> duration list" where
  "retry_loop p op done s slept =
     (let attempts = done + 1 in
      case op s of
        (Inr v, s') \<Rightarrow> (Inr v, s', slept)
      | (Inl e, s') \<Rightarrow>
          if budget p \<le> attempts then (Inl (BudgetExhausted attempts e), s', slept)
          else retry_loop p op attempts s' (slept @ [backoff_delay p (attempts - 1)]))"
  by pat_completeness auto
termination
  by (relation "measure (\<lambda>(p, op, done, s, slept). budget p - done)") auto

definition retry_with_backoff ::
  "retry_policy \<Rightarrow> ('s \<Rightarrow> ('e + 'a) \<times> 's) \<Rightarrow> 's
   \<Rightarrow> ('e retry_error + 'a) \<times> 's \<times> duration list" where
  "retry_with_backoff p op s =
     (if budget p = 0 then (Inl NoAttemptsConfigured, s, []) else retry_loop p op 0 s [])"

declare retry_loop.simps [simp del]

section \<open>Facts about the page size\<close>

lemma clamp_bounds: "lo \<le> hi \<Longrightarrow> lo \<le> clamp lo hi x \<and> clamp lo hi x \<le> hi"
  by (auto simp: clamp_def)

lemma page_size_new_wf: "page_size_wf (page_size_new c mx mn)"
  using clamp_bounds [of 1 UPSTREAM_MAX_PAGE_SIZE mx]
    clamp_bounds [of 1 "clamp 1 UPSTREAM_MAX_PAGE_SIZE mx" mn]
    clamp_bounds [of "clamp 1 (clamp 1 UPSTREAM_MAX_PAGE_SIZE mx) mn"
      "clamp 1 UPSTREAM_MAX_PAGE_SIZE mx" c]
  by (auto simp: page_size_wf_def page_size_new_def Let_def UPSTREAM_MAX_PAGE_SIZE_def)

lemma on_success_wf: "page_size_wf a \<Longrightarrow> page_size_wf (on_success a)"
  by (auto simp: page_size_wf_def on_success_def Let_def UPSTREAM_MAX_PAGE_SIZE_def USIZE_MAX_def)

lemma on_failure_wf: "page_size_wf a \<Longrightarrow> page_size_wf (on_failure a)"
  by (auto simp: page_size_wf_def on_failure_def)

lemma bounds_kept [simp]:
  "max_size (on_success a) = max_size a" "min_size (on_success a) = min_size a"
  "max_size (on_failure a) = max_size a" "min_size (on_failure a) = min_size a"
  by (simp_all add: on_success_def on_failure_def Let_def)

lemma page_size_run_Nil [simp]: "page_size_run [] a = a"
  by (simp add: page_size_run_def)

lemma page_size_run_Cons [simp]:
  "page_size_run (ok # oks) a = page_size_run oks (if ok then on_success a else on_failure a)"
  by (simp add: page_size_run_def)

lemma page_size_run_wf:
  "page_size_wf a \<Longrightarrow>
   page_size_wf (page_size_run oks a)
   \<and> max_size (page_size_run oks a) = max_size a
   \<and> min_size (page_size_run oks a) = min_size a"
  by (induction oks arbitrary: a) (simp_all add: on_success_wf on_failure_wf)

lemma failures_shrink:
  "page_size_wf a \<Longrightarrow>
   current_size (page_size_run (replicate n False) a) = max (current_size a div 2 ^ n) (min_size a)"
proof (induction n arbitrary: a)
  case 0
  then show ?case by (simp add: page_size_wf_def)
next
  case (Suc n)
  have "max (current_size a div 2) (min_size a) div 2 ^ n
      = max (current_size a div 2 div 2 ^ n) (min_size a div 2 ^ n)"
    using max_of_mono [of "\<lambda>x. x div 2 ^ n" "current_size a div 2" "min_size a"]
    by (simp add: mono_def div_le_mono)
  then show ?case
    using Suc.IH [OF on_failure_wf [OF Suc.prems]]
    by (simp add: on_failure_def div_mult2_eq max.assoc)
qed

lemma two_successes_double:
  assumes "page_size_wf a"
  shows "current_size (on_success (on_success a)) \<ge> min (2 * current_size a) (max_size a)"
  using assms
  by (auto simp: page_size_wf_def on_success_def Let_def GROW_AFTER_SUCCESSES_def
      UPSTREAM_MAX_PAGE_SIZE_def USIZE_MAX_def)

lemma successes_grow:
  "page_size_wf a \<Longrightarrow>
   current_size (page_size_run (replicate (2 * n) True) a) \<ge> min (2 ^ n * current_size a) (max_size a)"
proof (induction n arbitrary: a)
  case 0
  then show ?case by simp
next
  case (Suc n)
  let ?b = "on_success (on_success a)"
  have wf: "page_size_wf ?b" using Suc.prems by (simp add: on_success_wf)
  have "min (2 ^ n * current_size ?b) (max_size a)
      \<le> current_size (page_size_run (replicate (2 * n) True) ?b)"
    using Suc.IH [OF wf] by simp
  moreover have "min (2 ^ Suc n * current_size a) (max_size a) \<le> min (2 ^ n * current_size ?b) (max_size a)"
  proof (cases "2 * current_size a \<le> max_size a")
    case True
    with two_successes_double [OF Suc.prems] have "2 * current_size a \<le> current_size ?b" by simp
    then have "2 ^ n * (2 * current_size a) \<le> 2 ^ n * current_size ?b" by (rule mult_le_mono2)
    then show ?thesis by (simp add: ac_simps min_le_iff_disj)
  next
    case False
    with two_successes_double [OF Suc.prems] have "max_size a \<le> current_size ?b" by simp
    also have "\<dots> \<le> 2 ^ n * current_size ?b" by simp
    finally show ?thesis by simp
  qed
  ultimately show ?case by simp
qed

section \<open>Facts about the backoff\<close>

lemma backoff_loop_closed:
  "d \<le> DURATION_MAX \<Longrightarrow> mx \<le> DURATION_MAX \<Longrightarrow> backoff_loop mx n d = min (d * 2 ^ n) mx"
proof (induction n arbitrary: d)
  case 0
  then show ?case by simp
next
  case (Suc n)
  show ?case
  proof (cases "mx \<le> saturating_dbl d")
    case True
    then have "mx \<le> d * 2" by (simp add: saturating_dbl_def)
    also have "\<dots> \<le> d * 2 * 2 ^ n" by simp
    finally show ?thesis using True by (simp add: Let_def mult.assoc)
  next
    case False
    then have "saturating_dbl d = d * 2" "d * 2 \<le> DURATION_MAX"
      using Suc.prems by (auto simp: saturating_dbl_def)
    then show ?thesis using Suc False by (simp add: Let_def mult.assoc)
  qed
qed

text \<open>The states and the results of running the operation again and again.\<close>

primrec op_state :: "('s \<Rightarrow> ('e + 'a) \<times> 's) \<Rightarrow> 's \<Rightarrow> nat \<Rightarrow> 's" where
  "op_state op s 0 = s"
| "op_state op s (Suc n) = snd (op (op_state op s n))"

definition op_result :: "('s \<Rightarrow> ('e + 'a) \<times> 's) \<Rightarrow> 's \<Rightarrow> nat \<Rightarrow> 'e + 'a" where
  "op_result op s n = fst (op (op_state op s n))"

lemma retry_loop_step:
  "op s = (Inr v, s') \<Longrightarrow> retry_loop p op n s slept = (Inr v, s', slept)"
  "op s = (Inl e, s') \<Longrightarrow> budget p \<le> Suc n \<Longrightarrow>
     retry_loop p op n s slept = (Inl (BudgetExhausted (Suc n) e), s', slept)"
  "op s = (Inl e, s') \<Longrightarrow> Suc n < budget p \<Longrightarrow>
     retry_loop p op n s slept = retry_loop p op (Suc n) s' (slept @ [backoff_delay p n])"
  by (subst retry_loop.simps, simp)+

lemma retry_loop_failures:
  "(\<And>i. i < k \<Longrightarrow> \<exists>e. op_result op s i = Inl e) \<Longrightarrow> k < budget p \<Longrightarrow>
   retry_loop p op 0 s [] = retry_loop p op k (op_state op s k) (map (backoff_delay p) [0..<k])"
proof (induction k)
  case 0
  then show ?case by simp
next
  case (Suc k)
  from Suc.prems(1) [of k] obtain e s' where "op (op_state op s k) = (Inl e, s')"
    by (cases "op (op_state op s k)") (auto simp: op_result_def)
  with Suc show ?case
    by (simp add: retry_loop_step(3))
qed

lemma retry_with_backoff_success:
  assumes "\<And>i. i < k \<Longrightarrow> \<exists>e. op_result op s i = Inl e" and "op_result op s k = Inr v"
    and "k < budget p"
  shows "retry_with_backoff p op s =
    (Inr v, op_state op s (Suc k), map (backoff_delay p) [0..<k])"
proof -
  from assms(2) obtain s' where "op (op_state op s k) = (Inr v, s')"
    by (cases "op (op_state op s k)") (simp add: op_result_def)
  with retry_loop_failures [OF assms(1,3)] assms(3) show ?thesis
    by (simp add: retry_with_backoff_def retry_loop_step(1))
qed

lemma retry_with_backoff_exhausted:
  assumes "\<And>i. i < k \<Longrightarrow> \<exists>e. op_result op s i = Inl e" and "op_result op s k = Inl e"
    and "budget p = Suc k"
  shows "retry_with_backoff p op s =
    (Inl (BudgetExhausted (budget p) e), op_state op s (Suc k), map (backoff_delay p) [0..<k])"
proof -
  from assms(2) obtain s' where "op (op_state op s k) = (Inl e, s')"
    by (cases "op (op_state op s k)") (simp add: op_result_def)
  with retry_loop_failures [of k op s p, OF assms(1)] assms(3) show ?thesis
    by (simp add: retry_with_backoff_def retry_loop_step(2))
qed

section \<open>Properties\<close>

lemma page_size_run_append [simp]:
  "page_size_run (oks @ oks') a = page_size_run oks' (page_size_run oks a)"
  by (simp add: page_size_run_def)

text \<open>C12: Whatever sizes the adapter is created with and whatever pages succeed or fail, the page
  size stays between the adapter's bounds, which lie in 1..100; and the adapter follows the
  upstream: after seven failures in a row it asks for its smallest page, after fourteen
  successes in a row for its largest.\<close>

theorem page_size_adapts:
  "page_size_wf (page_size_run oks (page_size_new c mx mn))
   \<and> current_size (page_size_run (oks @ replicate 7 False) (page_size_new c mx mn))
       = min_size (page_size_new c mx mn)
   \<and> current_size (page_size_run (oks @ replicate 14 True) (page_size_new c mx mn))
       = max_size (page_size_new c mx mn)"
proof -
  let ?n = "page_size_new c mx mn" and ?a = "page_size_run oks (page_size_new c mx mn)"
  have wf: "page_size_wf ?a" and bounds: "max_size ?a = max_size ?n" "min_size ?a = min_size ?n"
    using page_size_run_wf [OF page_size_new_wf] by blast+
  from wf have range: "1 \<le> current_size ?a" "current_size ?a \<le> 100" "max_size ?a \<le> 100"
    by (auto simp: page_size_wf_def UPSTREAM_MAX_PAGE_SIZE_def)
  have "current_size (page_size_run (replicate 7 False) ?a) = min_size ?n"
    using failures_shrink [OF wf, of 7] range by (simp add: bounds)
  moreover have "current_size (page_size_run (replicate 14 True) ?a) = max_size ?n"
  proof (rule antisym)
    show "current_size (page_size_run (replicate 14 True) ?a) \<le> max_size ?n"
      using page_size_run_wf [OF wf, of "replicate 14 True"] by (simp add: page_size_wf_def bounds)
    show "max_size ?n \<le> current_size (page_size_run (replicate 14 True) ?a)"
      using successes_grow [OF wf, of 7] range by (simp add: bounds)
  qed
  ultimately show ?thesis using wf by (simp del: replicate.simps)
qed

text \<open>C13: \<open>retry_with_backoff\<close> with a non-zero budget runs the operation until its first success
  or until the budget is spent, and never more often: it returns the first success's value, or
  \<open>BudgetExhausted\<close> with the whole budget and the last error, and before retry number
  \<open>i\<close> it has slept exactly the smaller of \<open>base_delay * 2 ^ i\<close> and the maximal delay, even where
  the doubling saturates.\<close>

theorem retry_with_backoff_outcome:
  assumes "budget p \<noteq> 0" and "base_delay p \<le> DURATION_MAX" and "max_delay p \<le> DURATION_MAX"
  shows "(\<exists>k v. k < budget p \<and> (\<forall>i<k. isl (op_result op s i)) \<and> op_result op s k = Inr v
           \<and> retry_with_backoff p op s =
               (Inr v, op_state op s (Suc k),
                map (\<lambda>i. min (base_delay p * 2 ^ i) (max_delay p)) [0..<k]))
       \<or> (\<exists>e. (\<forall>i<budget p. isl (op_result op s i)) \<and> op_result op s (budget p - 1) = Inl e
           \<and> retry_with_backoff p op s =
               (Inl (BudgetExhausted (budget p) e), op_state op s (budget p),
                map (\<lambda>i. min (base_delay p * 2 ^ i) (max_delay p)) [0..<budget p - 1]))"
proof (cases "\<forall>i<budget p. isl (op_result op s i)")
  case True
  obtain k where k: "budget p = Suc k" using assms(1) by (cases "budget p") auto
  with True obtain e where e: "op_result op s k = Inl e" by (auto simp: isl_def)
  have "\<exists>e. op_result op s i = Inl e" if "i < k" for i
    using True k that by (auto simp: isl_def)
  from retry_with_backoff_exhausted [OF this e k] show ?thesis
    using True e k by (auto simp: backoff_delay_def backoff_loop_closed [OF assms(2,3)])
next
  case False
  define k where "k = (LEAST i. \<not> isl (op_result op s i))"
  obtain j where j: "j < budget p" "\<not> isl (op_result op s j)" using False by blast
  then have kb: "k < budget p" "\<not> isl (op_result op s k)"
    unfolding k_def using Least_le [of "\<lambda>i. \<not> isl (op_result op s i)" j]
      LeastI [of "\<lambda>i. \<not> isl (op_result op s i)" j] by simp_all
  have before: "\<forall>i<k. isl (op_result op s i)"
    unfolding k_def using not_less_Least by blast
  from kb(2) obtain v where v: "op_result op s k = Inr v" by (cases "op_result op s k") auto
  have "\<exists>e. op_result op s i = Inl e" if "i < k" for i
    using before that by (auto simp: isl_def)
  from retry_with_backoff_success [OF this v kb(1)] show ?thesis
    using before v kb(1) by (auto simp: backoff_delay_def backoff_loop_closed [OF assms(2,3)])
qed

lemma op_state_counter: "op_state (\<lambda>n. (r n, Suc n)) 0 i = i"
  by (induction i) simp_all

theorem retry_with_backoff_outcome_witness:
  "retry_with_backoff \<lparr>budget = 3, base_delay = 20, max_delay = 30\<rparr>
     (\<lambda>n. (if n < 2 then Inl n else Inr (10 * n), Suc n)) 0 = (Inr 20, 3, [20, 30])"
proof -
  let ?op = "\<lambda>n. (if n < 2 then Inl n else Inr (10 * n), Suc n)"
  have res: "op_result ?op 0 i = (if i < 2 then Inl i else Inr (10 * i))" for i
    by (simp add: op_result_def op_state_counter)
  have upt2: "[0..<2] = [0, 1::nat]" by (simp add: upt_rec)
  show ?thesis
    using retry_with_backoff_outcome [of "\<lparr>budget = 3, base_delay = 20, max_delay = 30\<rparr>" ?op 0]
  proof (elim disjE exE conjE meta_impE)
    fix k v
    assume less: "\<forall>i<k. isl (op_result ?op 0 i)" and ok: "op_result ?op 0 k = Inr v"
      and run: "retry_with_backoff \<lparr>budget = 3, base_delay = 20, max_delay = 30\<rparr> ?op 0 =
        (Inr v, op_state ?op 0 (Suc k),
         map (\<lambda>i. min (base_delay \<lparr>budget = 3, base_delay = 20, max_delay = 30\<rparr> * 2 ^ i)
           (max_delay \<lparr>budget = 3, base_delay = 20, max_delay = 30\<rparr>)) [0..<k])"
    have "k = 2" "v = 20"
      using ok less [rule_format, of 2] by (cases "k < 2"; cases "2 < k"; simp add: res)+
    with run show ?thesis by (simp add: op_state_counter upt2 del: op_state.simps)
  qed (auto simp: res DURATION_MAX_def dest: spec [of _ 2])
qed

end
