(* ===== verification/Chain_Types.thy ===== *)
theory Chain_Types
  imports Indexer_Prelude
begin

text \<open>
  The data of the chain-log pipeline (\<open>chain_logs.rs\<close>): the raw log as the RPC node returns
  it, the decoded Railgun events, the indexed records a batch is made of, the transactions that
  calldata or logs decode to, and the ingestion errors.

  The Solidity structs come from the contract bindings. Those the indexer takes apart
  (\<open>CommitmentPreimage\<close>, \<open>TXConfig\<close>, \<open>Unshield\<close>, \<open>Transaction\<close>) are records of the fields it
  reads; those it only carries through and hands to \<open>abi_encode\<close> (the ciphertexts, the bound
  parameters of a modern transaction) are their ABI encoding. Decoding a raw log, the event
  signature hashes and the hash functions are fields of the parameter records \<open>event_abi\<close> and
  \<open>railgun_lib\<close>: they are the bindings' and not this repository's.

  \<open>Uint::to\<close> panics on a value that does not fit; that outcome is the error \<open>Panicked\<close>.
\<close>

type_synonym bytes = "u8 list"
type_synonym commitment_ciphertext = bytes
type_synonym shield_ciphertext = bytes
type_synonym legacy_commitment_ciphertext = bytes

record token_data =
  tokenType :: u8
  tokenAddress :: address
  tokenSubID :: u256

record commitment_preimage =
  npk :: bytes32
  token :: token_data
  preimage_value :: "120 word"

record legacy_commitment_preimage =
  legacy_npk :: u256
  legacy_token :: token_data
  legacy_value :: "120 word"

record tx_config =
  nullifiersCount :: u32
  commitmentsCount :: u32
  hasUnshield :: bool
  boundParamsHash :: bytes32

record unshield_event =
  unshield_to :: address
  unshield_token :: token_data
  unshield_amount :: u256
  unshield_fee :: u256

record raw_log =
  log_address :: address
  log_block_number :: "u64 option"
  log_block_hash :: "bytes32 option"
  log_transaction_hash :: "bytes32 option"
  log_log_index :: "u64 option"
  log_topics :: "bytes32 list"
  log_data :: bytes

record transact_event =
  transact_treeNumber :: u256
  transact_startPosition :: u256
  transact_hash :: "bytes32 list"
  transact_ciphertext :: "commitment_ciphertext list"

record shield_event =
  shield_treeNumber :: u256
  shield_startPosition :: u256
  shield_preimages :: "commitment_preimage list"
  shield_shieldCiphertext :: "shield_ciphertext list"

record nullifiers_event =
  nullifiers_treeNumber :: u256
  nullifiers_nullifier :: "u256 list"

record nullified_event =
  nullified_treeNumber :: u16
  nullified_nullifier :: "bytes32 list"

record commitment_batch_event =
  batch_treeNumber :: u256
  batch_startPosition :: u256
  batch_hash :: "u256 list"
  batch_ciphertext :: "legacy_commitment_ciphertext list"

record generated_batch_event =
  generated_treeNumber :: u256
  generated_startPosition :: u256
  generated_commitments :: "legacy_commitment_preimage list"
  generated_encryptedRandom :: "(u256 \<times> u256) list"

text \<open>The event bindings: signature hashes and decoders.\<close>

record event_abi =
  sig_Transact :: bytes32
  sig_Shield :: bytes32
  sig_LegacyShield :: bytes32
  sig_Nullifiers :: bytes32
  sig_Nullified :: bytes32
  sig_Action :: bytes32
  sig_Unshield :: bytes32
  sig_CommitmentBatch :: bytes32
  sig_GeneratedCommitmentBatch :: bytes32
  decode_Transact :: "raw_log \<Rightarrow> transact_event option"
  decode_Shield :: "raw_log \<Rightarrow> shield_event option"
  decode_LegacyShield :: "raw_log \<Rightarrow> shield_event option"
  decode_Nullifiers :: "raw_log \<Rightarrow> nullifiers_event option"
  decode_Nullified :: "raw_log \<Rightarrow> nullified_event option"
  decode_Action :: "raw_log \<Rightarrow> tx_config list option"
  decode_Unshield :: "raw_log \<Rightarrow> unshield_event option"
  decode_CommitmentBatch :: "raw_log \<Rightarrow> commitment_batch_event option"
  decode_GeneratedCommitmentBatch :: "raw_log \<Rightarrow> generated_batch_event option"

text \<open>Indexed records.\<close>

record indexed_log_source =
  block_number :: u64
  block_timestamp :: "u64 option"
  block_hash :: bytes32
  transaction_hash :: bytes32
  log_index :: u64

record indexed_transact_commitment =
  tc_tree_number :: u32
  tc_tree_position :: u64
  tc_hash :: bytes32
  tc_ciphertext :: "commitment_ciphertext option"
  tc_source :: indexed_log_source

record indexed_shield_commitment =
  sc_tree_number :: u32
  sc_tree_position :: u64
  sc_preimage :: commitment_preimage
  sc_shield_ciphertext :: shield_ciphertext
  sc_source :: indexed_log_source

record indexed_nullifier =
  nf_tree_number :: u32
  nf_nullifier :: bytes32
  nf_source :: indexed_log_source

record indexed_legacy_encrypted_commitment =
  le_tree_number :: u32
  le_tree_position :: u64
  le_hash :: bytes32
  le_ciphertext :: legacy_commitment_ciphertext
  le_source :: indexed_log_source

record indexed_legacy_generated_commitment =
  lg_tree_number :: u32
  lg_tree_position :: u64
  lg_preimage :: legacy_commitment_preimage
  lg_encrypted_random :: "u256 \<times> u256"
  lg_source :: indexed_log_source

record indexed_action =
  ac_txconfigs :: "tx_config list"
  ac_source :: indexed_log_source

record indexed_unshield =
  us_unshield :: unshield_event
  us_source :: indexed_log_source

record indexed_public_transaction =
  pt_source :: indexed_log_source
  pt_first_log_index :: u64
  pt_last_log_index :: u64
  pt_railgun_transaction_index :: u64
  pt_id :: string
  pt_block_timestamp :: u64
  pt_nullifiers :: "bytes32 list"
  pt_commitments :: "bytes32 list"
  pt_bound_params_hash :: bytes32
  pt_has_unshield :: bool
  pt_unshield_preimage :: "bytes option"
  pt_utxo_tree_in :: u64
  pt_utxo_tree_out :: u64
  pt_utxo_batch_start_position_out :: u64
  pt_railgun_txid :: u256

record indexed_log_batch =
  transact_commitments :: "indexed_transact_commitment list"
  shield_commitments :: "indexed_shield_commitment list"
  nullifiers :: "indexed_nullifier list"
  legacy_encrypted_commitments :: "indexed_legacy_encrypted_commitment list"
  legacy_generated_commitments :: "indexed_legacy_generated_commitment list"
  actions :: "indexed_action list"
  unshields :: "indexed_unshield list"
  public_transactions :: "indexed_public_transaction list"
  unshield_log_derivations :: nat
  unshield_log_divergences :: nat

text \<open>Decoded transactions and the outputs they are matched against.\<close>

datatype railgun_call_kind =
  TransactCall | Relay | Execute | LegacyRelay | LegacyTransact | ActionLogs

record decoded_railgun_transaction =
  dt_call_kind :: railgun_call_kind
  dt_nullifiers :: "bytes32 list"
  dt_commitments :: "bytes32 list"
  dt_bound_params_hash :: bytes32
  dt_has_unshield :: bool
  dt_unshield_preimage :: "bytes option"
  dt_utxo_tree_in :: u64
  dt_railgun_txid :: u256

datatype emitted_output_family = TransactFamily | LegacyEncrypted | LegacyGenerated

record emitted_output_commitment =
  eo_family :: emitted_output_family
  eo_log_index :: u64
  eo_tree_number :: u32
  eo_tree_position :: u64
  eo_hash :: bytes32

record nullifier_group =
  ng_source :: indexed_log_source
  ng_nullifiers :: "bytes32 list"

record output_match =
  output_start :: u64
  om_last_log_index :: u64

record transact_output_summary =
  sm_source :: indexed_log_source
  sm_first_log_index :: u64
  sm_last_log_index :: u64
  sm_output_commitments :: "emitted_output_commitment list"
  sm_nullifier_groups :: "nullifier_group list"

datatype chain_log_ingestion_error =
    Provider string
  | Decode
  | TransactDecode
  | MissingLogMetadata string
  | MissingTransaction bytes32 u64 bytes32 u64 u64
  | MissingTransactionByHash bytes32
  | MissingRailgunCalldata bytes32 u64 bytes32 u64 u64
  | MissingRailgunCalldataByHash bytes32
  | UnmatchedTransactionOutputCommitments bytes32 u64 nat
  | MissingTransactionNullifierGroup bytes32 u64 nat
  | AmbiguousTransactionNullifierGroup bytes32 u64 nat nat
  | UnmatchedEmittedOutputCommitments bytes32 u64 nat nat
  | MissingBlock u64 bytes32
  | MismatchedBlock u64 bytes32 u64 bytes32
  | MissingFullBlockTransactions u64 bytes32
  | InvalidBlockField u64 bytes32 string
  | ActionNullifierCountMismatch bytes32 u64 u64
  | ActionCommitmentCountMismatch bytes32 u64 u64
  | MissingActionUnshield bytes32 u64 u64
  | UnmatchedActionLog bytes32 u64 u64
  | AmbiguousUnshieldCalldata bytes32 u64 nat
  | ContradictingUnshieldCalldata bytes32 u64 string
  | IntegerOverflow string
  | Panicked string

type_synonym 'a ingested = "chain_log_ingestion_error + 'a"

end
