(* ===== verification/Tree_Position.thy ===== *)
theory Tree_Position
  imports Chain_Types
begin

text \<open>
  Positions of commitments in the UTXO Merkle trees (\<open>chain_logs.rs\<close>,
  \<open>normalized_event_position\<close> to \<open>comparable_global_tree_position\<close>). A commitment sits at a
  leaf of a numbered tree; the global position counts leaves across trees. The number of leaves
  of a tree, \<open>TREE_LEAF_COUNT\<close>, comes from another crate and is the argument \<open>L\<close>.

  The locale \<open>leaf_numbering\<close> is the contract of such a numbering, with \<open>to_pos\<close> from global
  positions to tree and leaf and \<open>of_pos\<close> back; it is interpreted here on the functions of
  \<open>chain_logs.rs\<close> and in the theory of the store on its own conversion.
\<close>

definition normalize_tree_position :: "u64 \<Rightarrow> u32 \<Rightarrow> u64 \<Rightarrow> (u32 \<times> u64) ingested" where
  "normalize_tree_position L tree_number tree_position =
     and_then (ok_or (IntegerOverflow ''tree_number'') (try_from_word (tree_position div L)))
       (\<lambda>tree_increment.
     and_then (ok_or (IntegerOverflow ''tree_number'') (checked_add tree_number tree_increment))
       (\<lambda>tree_number'. Inr (tree_number', tree_position mod L)))"

definition normalized_event_position :: "u64 \<Rightarrow> u32 \<Rightarrow> u64 \<Rightarrow> nat \<Rightarrow> (u32 \<times> u64) ingested" where
  "normalized_event_position L tree_number start_position index =
     and_then (ok_or (IntegerOverflow ''event_index'') (try_from_len index))
       (\<lambda>index'.
     and_then (ok_or (IntegerOverflow ''tree_position'') (checked_add start_position index'))
       (\<lambda>position. normalize_tree_position L tree_number position))"

definition normalized_global_position :: "u64 \<Rightarrow> u64 \<Rightarrow> (u32 \<times> u64) ingested" where
  "normalized_global_position L global_position = normalize_tree_position L 0 global_position"

definition global_tree_position :: "u64 \<Rightarrow> u32 \<Rightarrow> u64 \<Rightarrow> u64 ingested" where
  "global_tree_position L tree_number tree_position =
     ok_or (IntegerOverflow ''global_tree_position'')
       (case checked_mul (ucast tree_number) L of
          None \<Rightarrow> None
        | Some tree_start \<Rightarrow> checked_add tree_start tree_position)"

definition comparable_global_tree_position :: "u64 \<Rightarrow> u32 \<Rightarrow> u64 \<Rightarrow> u128" where
  "comparable_global_tree_position L tree_number tree_position =
     ucast tree_number * ucast L + ucast tree_position"

section \<open>The contract of a leaf numbering\<close>

locale leaf_numbering =
  fixes capacity :: nat
    and to_pos :: "u64 \<Rightarrow> 'e + u32 \<times> u64"
    and of_pos :: "u32 \<Rightarrow> u64 \<Rightarrow> 'f + u64"
  assumes to_pos_value: "to_pos g = Inr (t, p) \<Longrightarrow> unat g = unat t * capacity + unat p"
    and to_pos_leaf: "to_pos g = Inr (t, p) \<Longrightarrow> 0 < capacity \<Longrightarrow> unat p < capacity"
    and to_pos_defined: "unat g div capacity < 2 ^ 32 \<Longrightarrow> \<exists>t p. to_pos g = Inr (t, p)"
    and of_pos_value: "of_pos t p = Inr g \<Longrightarrow> unat g = unat t * capacity + unat p"
    and of_pos_defined: "unat t * capacity + unat p < 2 ^ 64 \<Longrightarrow> \<exists>g. of_pos t p = Inr g"
begin

lemma of_pos_to_pos: "to_pos g = Inr (t, p) \<Longrightarrow> of_pos t p = Inr g"
proof -
  assume tp: "to_pos g = Inr (t, p)"
  have "unat t * capacity + unat p < 2 ^ 64"
    using to_pos_value [OF tp] unat_less_exp [of g] by simp
  then obtain g' where "of_pos t p = Inr g'" using of_pos_defined by blast
  with of_pos_value [OF this] to_pos_value [OF tp] show ?thesis
    by (simp add: word_unat_eq_iff)
qed

lemma to_pos_of_pos: "of_pos t p = Inr g \<Longrightarrow> unat p < capacity \<Longrightarrow> to_pos g = Inr (t, p)"
proof -
  assume g: "of_pos t p = Inr g" and p: "unat p < capacity"
  have gv: "unat g = unat t * capacity + unat p" by (rule of_pos_value [OF g])
  with p have "unat g div capacity = unat t" by simp
  then have "unat g div capacity < 2 ^ 32" using unat_less_exp [of t] by simp
  then obtain t' p' where tp: "to_pos g = Inr (t', p')" using to_pos_defined by blast
  have p': "unat p' < capacity" using to_pos_leaf [OF tp] p by simp
  have eq: "unat t' * capacity + unat p' = unat t * capacity + unat p"
    using to_pos_value [OF tp] gv by simp
  then have "(unat t' * capacity + unat p') div capacity = (unat t * capacity + unat p) div capacity"
    by simp
  with p p' have "unat t' = unat t" by simp
  with eq have "t' = t" "p' = p" by (simp_all add: word_unat_eq_iff)
  with tp show ?thesis by simp
qed

lemma of_pos_less_iff:
  assumes "of_pos t p = Inr g" and "of_pos t' p' = Inr g'"
    and "unat p < capacity" and "unat p' < capacity"
  shows "g < g' \<longleftrightarrow> (t, p) < (t', p')"
proof -
  have lt: "a * capacity + b < a' * capacity + b'"
    if "a < a'" "b < capacity" for a a' b b' :: nat
  proof -
    have "a * capacity + b < Suc a * capacity" using that(2) by simp
    also have "\<dots> \<le> a' * capacity" using that(1) by (simp add: Suc_leI del: mult_Suc)
    finally show ?thesis by simp
  qed
  show ?thesis
    using of_pos_value [OF assms(1)] of_pos_value [OF assms(2)] assms(3,4)
      lt [of "unat t" "unat t'" "unat p" "unat p'"] lt [of "unat t'" "unat t" "unat p'" "unat p"]
    by (cases "unat t" "unat t'" rule: linorder_cases)
      (auto simp: word_less_nat_alt word_le_nat_alt less_prod_def word_unat_eq_iff)
qed

end

section \<open>The functions of the ingestion keep the contract\<close>

lemma normalize_tree_position_iff:
  "normalize_tree_position L t p = Inr (t', p') \<longleftrightarrow>
     unat t' = unat t + unat p div unat L \<and> p' = p mod L"
  (is "_ = ?rhs")
proof
  assume ?rhs
  then have "unat p div unat L < 2 ^ LENGTH(32)"
    using unat_less_exp [of t'] by simp
  then obtain inc :: u32 where "unat inc = unat p div unat L" by (rule unat_surj)
  then have "try_from_word (p div L) = Some inc" "checked_add t inc = Some t'"
    using \<open>?rhs\<close> by (simp_all add: checked_simps unat_div)
  then show "normalize_tree_position L t p = Inr (t', p')"
    using \<open>?rhs\<close> by (simp add: normalize_tree_position_def)
qed (auto simp: normalize_tree_position_def result_simps checked_simps unat_div)

lemma normalize_tree_position_error:
  "isl (normalize_tree_position L t p) \<longleftrightarrow> 2 ^ 32 \<le> unat t + unat p div unat L"
proof -
  have "(\<exists>t' p'. normalize_tree_position L t p = Inr (t', p'))
      \<longleftrightarrow> unat t + unat p div unat L < 2 ^ LENGTH(32)"
    unfolding normalize_tree_position_iff
    using unat_less_exp [where ?'a = 32] by (metis unat_surj)
  then show ?thesis by (cases "normalize_tree_position L t p") auto
qed

lemma normalized_event_position_iff:
  "normalized_event_position L t s i = Inr (t', p') \<longleftrightarrow>
     unat s + i < 2 ^ 64 \<and> unat t' = unat t + (unat s + i) div unat L
     \<and> unat p' = (unat s + i) mod unat L"
  (is "_ \<longleftrightarrow> ?rhs")
proof
  assume "normalized_event_position L t s i = Inr (t', p')"
  then obtain p :: u64 where "unat p = unat s + i" "normalize_tree_position L t p = Inr (t', p')"
    by (auto simp: normalized_event_position_def result_simps checked_simps)
  then show ?rhs
    using unat_less_exp [of p] by (simp add: normalize_tree_position_iff unat_mod)
next
  assume rhs: ?rhs
  then have "i < 2 ^ LENGTH(64)" "unat s + i < 2 ^ LENGTH(64)" by simp_all
  then obtain k p :: u64 where kp: "unat k = i" "unat p = unat s + i" by (metis unat_surj)
  then have "try_from_len i = Some k" "checked_add s k = Some p"
    by (simp_all add: checked_simps)
  moreover have "normalize_tree_position L t p = Inr (t', p')"
    using rhs kp by (simp add: normalize_tree_position_iff word_unat_eq_iff unat_mod)
  ultimately show "normalized_event_position L t s i = Inr (t', p')"
    by (simp add: normalized_event_position_def)
qed

lemma normalized_event_position_value:
  "normalized_event_position L t s i = Inr (t', p') \<Longrightarrow>
   unat t' * unat L + unat p' = unat t * unat L + unat s + i"
  by (simp add: normalized_event_position_iff algebra_simps)

lemma normalized_event_position_leaf:
  "normalized_event_position L t s i = Inr (t', p') \<Longrightarrow> L \<noteq> 0 \<Longrightarrow> unat p' < unat L"
  by (simp add: normalized_event_position_iff word_unat_eq_iff)

lemma global_tree_position_iff:
  "global_tree_position L t p = Inr g \<longleftrightarrow> unat g = unat t * unat L + unat p"
proof -
  have "unat (ucast t :: u64) = unat t" by (simp add: unat_ucast_up)
  then show ?thesis
    using unat_less_exp [of g]
    by (auto simp: global_tree_position_def result_simps checked_simps split: option.splits)
qed

interpretation chain_pos: leaf_numbering
  "unat L" "normalized_global_position L" "global_tree_position L" for L :: u64
proof unfold_locales
  fix g :: u64 and t :: u32 and p :: u64
  show "unat g = unat t * unat L + unat p" if "normalized_global_position L g = Inr (t, p)"
    using that by (simp add: normalized_global_position_def normalize_tree_position_iff unat_mod)
  show "unat p < unat L" if "normalized_global_position L g = Inr (t, p)" "0 < unat L"
    using that by (simp add: normalized_global_position_def normalize_tree_position_iff unat_mod)
  show "\<exists>t p. normalized_global_position L g = Inr (t, p)" if "unat g div unat L < 2 ^ 32"
    using that normalize_tree_position_error [of L 0 g]
    by (cases "normalized_global_position L g") (auto simp: normalized_global_position_def)
  show "unat g = unat t * unat L + unat p" if "global_tree_position L t p = Inr g"
    using that by (simp add: global_tree_position_iff)
  show "\<exists>g. global_tree_position L t p = Inr g" if "unat t * unat L + unat p < 2 ^ 64"
    using that unat_surj [of "unat t * unat L + unat p", where ?'a = 64]
    by (auto simp: global_tree_position_iff)
qed

lemma comparable_global_tree_position_value:
  "unat (comparable_global_tree_position L t p) = unat t * unat L + unat p"
proof -
  have t: "unat (ucast t :: u128) = unat t" and L: "unat (ucast L :: u128) = unat L"
    and p: "unat (ucast p :: u128) = unat p"
    by (simp_all add: unat_ucast_up)
  have "unat t * unat L \<le> (2 ^ 32 - 1) * (2 ^ 64 - 1)"
    using unat_less_exp [of t] unat_less_exp [of L] by (intro mult_le_mono) simp_all
  then show ?thesis
    using unat_less_exp [of p]
    by (simp add: comparable_global_tree_position_def unat_word_ariths t L p)
qed

section \<open>Properties\<close>

text \<open>C11: The i-th commitment of an event that starts at leaf \<open>s\<close> of tree \<open>t\<close> is filed under the
  tree and leaf whose global position is \<open>t * L + s + i\<close>, carried over into the following trees,
  with the leaf below the tree's capacity; the only failures are a leaf count beyond 64 bits and a
  tree number beyond 32 bits. Converting the filed position to a global one and back is the
  identity.\<close>

theorem event_position_correct:
  assumes "L \<noteq> 0"
  shows "(\<exists>t' p'. normalized_event_position L t s i = Inr (t', p')
            \<and> unat t' * unat L + unat p' = unat t * unat L + unat s + i
            \<and> unat p' < unat L
            \<and> (case global_tree_position L t' p' of Inl e \<Rightarrow> True
                | Inr g \<Rightarrow> normalized_global_position L g = Inr (t', p')))
       \<longleftrightarrow> unat s + i < 2 ^ 64 \<and> unat t + (unat s + i) div unat L < 2 ^ 32"
  (is "?ok \<longleftrightarrow> ?fits")
proof
  assume ?ok
  then obtain t' p' where "normalized_event_position L t s i = Inr (t', p')" by blast
  then show ?fits
    using unat_less_exp [of t'] by (simp add: normalized_event_position_iff)
next
  assume fits: ?fits
  then have "unat t + (unat s + i) div unat L < 2 ^ LENGTH(32)" by simp
  then obtain t' :: u32 where t': "unat t' = unat t + (unat s + i) div unat L" by (rule unat_surj)
  have L: "0 < unat L" using assms by (simp add: word_unat_eq_iff)
  then have mod: "(unat s + i) mod unat L < unat L" by simp
  also have "\<dots> < 2 ^ LENGTH(64)" by (rule unat_less_exp)
  finally obtain p' :: u64 where p': "unat p' = (unat s + i) mod unat L" by (rule unat_surj)
  have val: "unat t' * unat L + unat p' = unat t * unat L + unat s + i"
    by (simp add: t' p' algebra_simps)
  have "normalized_event_position L t s i = Inr (t', p')"
    using fits t' p' by (simp add: normalized_event_position_iff)
  with val mod p' show ?ok
    using chain_pos.to_pos_of_pos by (auto split: sum.splits)
qed

theorem event_position_correct_witness:
  "\<exists>t' p'. normalized_event_position 65536 7 65530 10 = Inr (t', p')
     \<and> unat t' * 65536 + unat p' = 7 * 65536 + 65540 \<and> unat p' < 65536"
  using event_position_correct [of 65536 7 65530 10] by auto

end
