(* ===== verification/Log_Filters.thy ===== *)
theory Log_Filters
  imports Chain_Types
begin

text \<open>
  Fetching the Railgun logs of a block range (\<open>chain_logs.rs\<close>, \<open>fetch_chain_index_logs\<close>,
  \<open>chain_index_log_filters\<close>, \<open>combined_event_signatures_for_range\<close>,
  \<open>era_event_signatures_for_range\<close>, \<open>sort_logs\<close>). The contract changed its events twice, at
  \<open>v2_start_block\<close> and after \<open>legacy_shield_block\<close>, and emits \<open>Action\<close> and \<open>Unshield\<close> logs
  from \<open>action_start_block\<close>; a range inside one era is fetched with one filter, a range across a
  border with one filter per event family.

  The RPC node is the argument \<open>get_logs\<close>. What the code relies on is \<open>serves\<close>: \<open>eth_getLogs\<close>
  returns the logs of the chain that match the filter.
\<close>

record log_filter =
  flt_from :: u64
  flt_to :: u64
  flt_address :: address
  flt_signatures :: "bytes32 list"

definition ACTION_EVENT_SIGNATURES :: "event_abi \<Rightarrow> bytes32 list" where
  "ACTION_EVENT_SIGNATURES A = [sig_Action A, sig_Unshield A]"

definition era_event_signatures_for_range ::
  "event_abi \<Rightarrow> u64 \<Rightarrow> u64 \<Rightarrow> u64 \<Rightarrow> u64 \<Rightarrow> bytes32 list option" where
  "era_event_signatures_for_range A from_block to_block v2_start_block legacy_shield_block =
     (if 0 < v2_start_block \<and> to_block < v2_start_block then
        Some [sig_CommitmentBatch A, sig_GeneratedCommitmentBatch A, sig_Nullifiers A, sig_Nullified A]
      else if from_block < v2_start_block then None
      else if to_block \<le> legacy_shield_block then
        Some [sig_Transact A, sig_LegacyShield A, sig_Nullifiers A, sig_Nullified A]
      else if legacy_shield_block < from_block then
        Some [sig_Transact A, sig_Shield A, sig_Nullifiers A, sig_Nullified A]
      else None)"

definition combined_event_signatures_for_range ::
  "event_abi \<Rightarrow> u64 \<Rightarrow> u64 \<Rightarrow> u64 \<Rightarrow> u64 \<Rightarrow> u64 option \<Rightarrow> bytes32 list option" where
  "combined_event_signatures_for_range A from_block to_block v2_start_block legacy_shield_block
       action_start_block =
     (case era_event_signatures_for_range A from_block to_block v2_start_block legacy_shield_block of
        None \<Rightarrow> None
      | Some event_signatures \<Rightarrow>
          Some (if (case action_start_block of None \<Rightarrow> False | Some start \<Rightarrow> start \<le> from_block)
                then event_signatures @ ACTION_EVENT_SIGNATURES A
                else event_signatures))"

definition chain_index_log_filters ::
  "event_abi \<Rightarrow> address \<Rightarrow> u64 \<Rightarrow> u64 \<Rightarrow> u64 \<Rightarrow> u64 \<Rightarrow> u64 option \<Rightarrow> log_filter list" where
  "chain_index_log_filters A contract from_block to_block v2_start_block legacy_shield_block
       action_start_block =
     (if to_block < from_block then []
      else
        let filter = (\<lambda>from to event_signatures.
              \<lparr>flt_from = from, flt_to = to, flt_address = contract,
               flt_signatures = event_signatures\<rparr>);
            action_from = (case action_start_block of
                None \<Rightarrow> None
              | Some start \<Rightarrow> if start \<le> to_block then Some (max start from_block) else None)
        in case combined_event_signatures_for_range A from_block to_block v2_start_block
              legacy_shield_block action_start_block of
             Some event_signatures \<Rightarrow>
               [filter from_block to_block event_signatures]
               @ (case action_from of
                    None \<Rightarrow> []
                  | Some af \<Rightarrow>
                      if from_block < af then [filter af to_block (ACTION_EVENT_SIGNATURES A)]
                      else [])
           | None \<Rightarrow>
               (if from_block \<le> v2_start_block then
                  [filter from_block (min to_block v2_start_block)
                     [sig_CommitmentBatch A, sig_GeneratedCommitmentBatch A]]
                else [])
               @ (if v2_start_block \<le> to_block then
                    let v2_start = max from_block v2_start_block
                    in [filter v2_start to_block [sig_Transact A]]
                       @ (if v2_start \<le> legacy_shield_block then
                            [filter v2_start (min to_block legacy_shield_block) [sig_LegacyShield A]]
                          else [])
                       @ (if legacy_shield_block < to_block then
                            [filter (max v2_start (saturating_add legacy_shield_block 1)) to_block
                               [sig_Shield A]]
                          else [])
                  else [])
               @ [filter from_block to_block [sig_Nullifiers A, sig_Nullified A]]
               @ (case action_from of
                    None \<Rightarrow> []
                  | Some af \<Rightarrow> [filter af to_block (ACTION_EVENT_SIGNATURES A)]))"

definition log_key :: "raw_log \<Rightarrow> u64 \<times> u64" where
  "log_key log =
     ((case log_block_number log of None \<Rightarrow> 0 | Some b \<Rightarrow> b),
      (case log_log_index log of None \<Rightarrow> 0 | Some i \<Rightarrow> i))"

definition sort_logs :: "raw_log list \<Rightarrow> raw_log list" where
  "sort_logs logs = sort_key log_key logs"

definition fetch_chain_index_logs ::
  "event_abi \<Rightarrow> (log_filter \<Rightarrow> raw_log list ingested) \<Rightarrow> address \<Rightarrow> u64 \<Rightarrow> u64 \<Rightarrow> u64 \<Rightarrow> u64
   \<Rightarrow> u64 option \<Rightarrow> raw_log list ingested" where
  "fetch_chain_index_logs A get_logs contract from_block to_block v2_start_block
       legacy_shield_block action_start_block =
     and_then
       (try_fold (\<lambda>logs flt. and_then (get_logs flt) (\<lambda>found. Inr (logs @ found))) []
          (chain_index_log_filters A contract from_block to_block v2_start_block
             legacy_shield_block action_start_block))
       (\<lambda>logs. Inr (sort_logs logs))"

section \<open>What the filters are for\<close>

text \<open>The logs the indexer wants from a range, by event and block; a legacy batch in the block
  \<open>v2_start_block\<close> itself is wanted only by ranges that are fetched family by family.\<close>

definition log_requested ::
  "event_abi \<Rightarrow> u64 \<Rightarrow> u64 \<Rightarrow> u64 \<Rightarrow> u64 \<Rightarrow> u64 option \<Rightarrow> u64 \<Rightarrow> bytes32 \<Rightarrow> bool" where
  "log_requested A from_block to_block v2 legacy action b sig \<longleftrightarrow>
     from_block \<le> b \<and> b \<le> to_block
     \<and> (sig \<in> {sig_Nullifiers A, sig_Nullified A}
        \<or> sig \<in> {sig_CommitmentBatch A, sig_GeneratedCommitmentBatch A}
            \<and> (b < v2 \<or> b = v2 \<and> (from_block < v2 \<or> from_block \<le> legacy \<and> legacy < to_block))
        \<or> sig = sig_Transact A \<and> v2 \<le> b
        \<or> sig = sig_LegacyShield A \<and> v2 \<le> b \<and> b \<le> legacy
        \<or> sig = sig_Shield A \<and> v2 \<le> b \<and> legacy < b
        \<or> sig \<in> {sig_Action A, sig_Unshield A}
            \<and> (case action of None \<Rightarrow> False | Some start \<Rightarrow> start \<le> b))"

definition filter_covers :: "u64 \<Rightarrow> bytes32 \<Rightarrow> log_filter \<Rightarrow> bool" where
  "filter_covers b sig flt \<longleftrightarrow> flt_from flt \<le> b \<and> b \<le> flt_to flt \<and> sig \<in> set (flt_signatures flt)"

definition filter_matches :: "log_filter \<Rightarrow> raw_log \<Rightarrow> bool" where
  "filter_matches flt log \<longleftrightarrow>
     log_address log = flt_address flt
     \<and> (case (log_block_number log, log_topics log) of
          (Some b, sig # _) \<Rightarrow> filter_covers b sig flt
        | _ \<Rightarrow> False)"

definition event_signatures :: "event_abi \<Rightarrow> bytes32 list" where
  "event_signatures A =
     [sig_Transact A, sig_Shield A, sig_LegacyShield A, sig_Nullifiers A, sig_Nullified A,
      sig_Action A, sig_Unshield A, sig_CommitmentBatch A, sig_GeneratedCommitmentBatch A]"

text \<open>\<open>eth_getLogs\<close>: the logs of the chain that match the filter, in the chain's order.\<close>

definition serves :: "(log_filter \<Rightarrow> raw_log list ingested) \<Rightarrow> raw_log list \<Rightarrow> bool" where
  "serves get_logs chain \<longleftrightarrow> (\<forall>flt. get_logs flt = Inr (filter (filter_matches flt) chain))"

definition requested_log ::
  "event_abi \<Rightarrow> address \<Rightarrow> u64 \<Rightarrow> u64 \<Rightarrow> u64 \<Rightarrow> u64 \<Rightarrow> u64 option \<Rightarrow> raw_log \<Rightarrow> bool" where
  "requested_log A contract from_block to_block v2 legacy action log \<longleftrightarrow>
     log_address log = contract
     \<and> (case (log_block_number log, log_topics log) of
          (Some b, sig # _) \<Rightarrow> log_requested A from_block to_block v2 legacy action b sig
        | _ \<Rightarrow> False)"

lemma saturating_succ_le_iff:
  "(a :: 64 word) < c \<Longrightarrow> saturating_add a 1 \<le> b \<longleftrightarrow> a < b"
  using unat_less_exp [of c]
  by (auto simp: word_le_nat_alt word_less_nat_alt unat_saturating_add)

definition covering :: "u64 \<Rightarrow> bytes32 \<Rightarrow> log_filter list \<Rightarrow> nat" where
  "covering b sig flts = length (filter (filter_covers b sig) flts)"

lemma covering_simps [simp]:
  "covering b sig [] = 0"
  "covering b sig (flt # flts) = of_bool (filter_covers b sig flt) + covering b sig flts"
  "covering b sig (flts @ flts') = covering b sig flts + covering b sig flts'"
  by (simp_all add: covering_def)

lemma covering_if: "covering b sig (if P then flts else []) = (if P then covering b sig flts else 0)"
  by simp

lemma filter_covers_make [simp]:
  "filter_covers b sig \<lparr>flt_from = f, flt_to = t, flt_address = c, flt_signatures = sigs\<rparr>
   \<longleftrightarrow> f \<le> b \<and> b \<le> t \<and> sig \<in> set sigs"
  by (simp add: filter_covers_def)

definition action_covered :: "u64 option \<Rightarrow> u64 \<Rightarrow> bool" where
  "action_covered action b \<longleftrightarrow> (case action of None \<Rightarrow> False | Some start \<Rightarrow> start \<le> b)"

lemma covering_combined:
  assumes "\<not> to_block < from_block"
    and "era_event_signatures_for_range A from_block to_block v2 legacy = Some sigs"
    and "sig \<notin> set sigs \<or> sig \<notin> set (ACTION_EVENT_SIGNATURES A)"
  shows "covering b sig (chain_index_log_filters A c from_block to_block v2 legacy action)
       = of_bool (from_block \<le> b \<and> b \<le> to_block
           \<and> (sig \<in> set sigs \<or> sig \<in> set (ACTION_EVENT_SIGNATURES A) \<and> action_covered action b))"
proof (cases action)
  case None
  then show ?thesis
    using assms by (simp add: chain_index_log_filters_def combined_event_signatures_for_range_def
        action_covered_def)
next
  case (Some start)
  then show ?thesis
    using assms
    by (cases "start \<le> from_block"; cases "start \<le> to_block")
      (auto simp: chain_index_log_filters_def combined_event_signatures_for_range_def
        action_covered_def max_def)
qed

lemma covering_fine:
  assumes "\<not> to_block < from_block"
    and "era_event_signatures_for_range A from_block to_block v2 legacy = None"
  shows "covering b sig (chain_index_log_filters A c from_block to_block v2 legacy action)
       = of_bool (from_block \<le> b \<and> b \<le> to_block \<and> b \<le> v2
           \<and> sig \<in> {sig_CommitmentBatch A, sig_GeneratedCommitmentBatch A})
       + of_bool (from_block \<le> b \<and> b \<le> to_block \<and> v2 \<le> b \<and> sig = sig_Transact A)
       + of_bool (from_block \<le> b \<and> b \<le> to_block \<and> v2 \<le> b \<and> b \<le> legacy \<and> sig = sig_LegacyShield A)
       + of_bool (from_block \<le> b \<and> b \<le> to_block \<and> v2 \<le> b \<and> legacy < b \<and> sig = sig_Shield A)
       + of_bool (from_block \<le> b \<and> b \<le> to_block \<and> sig \<in> {sig_Nullifiers A, sig_Nullified A})
       + of_bool (from_block \<le> b \<and> b \<le> to_block \<and> action_covered action b
           \<and> sig \<in> set (ACTION_EVENT_SIGNATURES A))"
proof -
  let ?F = "\<lambda>f t sigs. \<lparr>flt_from = f, flt_to = t, flt_address = c, flt_signatures = sigs\<rparr>"
  define legacy_part where "legacy_part = (if from_block \<le> v2
      then [?F from_block (min to_block v2) [sig_CommitmentBatch A, sig_GeneratedCommitmentBatch A]]
      else [])"
  define shield_part where "shield_part = (if max from_block v2 \<le> legacy
      then [?F (max from_block v2) (min to_block legacy) [sig_LegacyShield A]] else [])"
  define modern_part where "modern_part = (if legacy < to_block
      then [?F (max (max from_block v2) (saturating_add legacy 1)) to_block [sig_Shield A]] else [])"
  define action_part where "action_part = (case (case action of None \<Rightarrow> None
        | Some start \<Rightarrow> if start \<le> to_block then Some (max start from_block) else None) of
      None \<Rightarrow> [] | Some af \<Rightarrow> [?F af to_block (ACTION_EVENT_SIGNATURES A)])"
  have filters: "chain_index_log_filters A c from_block to_block v2 legacy action =
      legacy_part
      @ (if v2 \<le> to_block
         then [?F (max from_block v2) to_block [sig_Transact A]] @ shield_part @ modern_part else [])
      @ [?F from_block to_block [sig_Nullifiers A, sig_Nullified A]] @ action_part"
    unfolding chain_index_log_filters_def combined_event_signatures_for_range_def assms(2) Let_def
      legacy_part_def shield_part_def modern_part_def action_part_def
    by (simp only: assms(1) if_False option.case)
  have parts:
    "covering b sig legacy_part = of_bool (from_block \<le> b \<and> b \<le> to_block \<and> b \<le> v2
       \<and> sig \<in> {sig_CommitmentBatch A, sig_GeneratedCommitmentBatch A})"
    "covering b sig shield_part = of_bool (from_block \<le> b \<and> b \<le> to_block \<and> v2 \<le> b \<and> b \<le> legacy
       \<and> sig = sig_LegacyShield A)"
    "covering b sig modern_part = of_bool (from_block \<le> b \<and> b \<le> to_block \<and> v2 \<le> b \<and> legacy < b
       \<and> sig = sig_Shield A)"
    "covering b sig action_part = of_bool (from_block \<le> b \<and> b \<le> to_block \<and> action_covered action b
       \<and> sig \<in> set (ACTION_EVENT_SIGNATURES A))"
    using saturating_succ_le_iff [of legacy to_block b]
    by (auto simp: legacy_part_def shield_part_def modern_part_def action_part_def
        action_covered_def split: option.splits)
  show ?thesis
  proof (cases "v2 \<le> to_block")
    case True
    then show ?thesis by (simp add: filters parts)
  next
    case False
    then have "\<not> (b \<le> to_block \<and> v2 \<le> b)" by auto
    with False show ?thesis by (simp add: filters parts) blast
  qed
qed

lemma era_None_iff:
  "era_event_signatures_for_range A from_block to_block v2 legacy = None
   \<longleftrightarrow> \<not> (0 < v2 \<and> to_block < v2) \<and> (from_block < v2 \<or> from_block \<le> legacy \<and> legacy < to_block)"
  by (auto simp: era_event_signatures_for_range_def)

text \<open>The events fall into six families that are requested together.\<close>

datatype event_family = Nullifier_F | Batch_F | Transact_F | Legacy_Shield_F | Shield_F | Action_F

fun family_signatures :: "event_abi \<Rightarrow> event_family \<Rightarrow> bytes32 set" where
  "family_signatures A Nullifier_F = {sig_Nullifiers A, sig_Nullified A}"
| "family_signatures A Batch_F = {sig_CommitmentBatch A, sig_GeneratedCommitmentBatch A}"
| "family_signatures A Transact_F = {sig_Transact A}"
| "family_signatures A Legacy_Shield_F = {sig_LegacyShield A}"
| "family_signatures A Shield_F = {sig_Shield A}"
| "family_signatures A Action_F = {sig_Action A, sig_Unshield A}"

lemma family_disjoint:
  "distinct (event_signatures A) \<Longrightarrow> sig \<in> family_signatures A F \<Longrightarrow> sig \<in> family_signatures A G \<Longrightarrow> F = G"
  by (cases F; cases G; auto simp: event_signatures_def)

lemma ex_family:
  "(\<exists>F. P F) \<longleftrightarrow> P Nullifier_F \<or> P Batch_F \<or> P Transact_F \<or> P Legacy_Shield_F
    \<or> P Shield_F \<or> P Action_F"
  by (metis event_family.exhaust)

lemma log_requested_family:
  "log_requested A from_block to_block v2 legacy action b sig \<longleftrightarrow>
     from_block \<le> b \<and> b \<le> to_block
     \<and> (\<exists>F. sig \<in> family_signatures A F
         \<and> (case F of Nullifier_F \<Rightarrow> True
            | Batch_F \<Rightarrow> b < v2 \<or> b = v2 \<and> (from_block < v2 \<or> from_block \<le> legacy \<and> legacy < to_block)
            | Transact_F \<Rightarrow> v2 \<le> b
            | Legacy_Shield_F \<Rightarrow> v2 \<le> b \<and> b \<le> legacy
            | Shield_F \<Rightarrow> v2 \<le> b \<and> legacy < b
            | Action_F \<Rightarrow> action_covered action b))"
  unfolding ex_family log_requested_def action_covered_def by simp

lemma filters_cover_once:
  assumes "distinct (event_signatures A)"
  shows "covering b sig (chain_index_log_filters A c from_block to_block v2 legacy action)
         = of_bool (log_requested A from_block to_block v2 legacy action b sig)"
proof (cases "to_block < from_block")
  case True
  then show ?thesis
    by (auto simp: chain_index_log_filters_def log_requested_def)
next
  case False
  have excl: "sig \<in> family_signatures A F \<Longrightarrow> (\<exists>G. sig \<in> family_signatures A G \<and> P G) \<longleftrightarrow> P F" for P F
    using family_disjoint [OF assms] by blast
  have other: "sig \<in> family_signatures A F \<Longrightarrow> G \<noteq> F \<Longrightarrow> sig \<notin> family_signatures A G" for F G
    using family_disjoint [OF assms] by blast
  show ?thesis
  proof (cases "era_event_signatures_for_range A from_block to_block v2 legacy")
    case None
    then have fine: "from_block < v2 \<or> from_block \<le> legacy \<and> legacy < to_block"
      by (simp add: era_None_iff)
    have cov: "covering b sig (chain_index_log_filters A c from_block to_block v2 legacy action)
       = of_bool (from_block \<le> b \<and> b \<le> to_block \<and> b \<le> v2 \<and> sig \<in> family_signatures A Batch_F)
       + of_bool (from_block \<le> b \<and> b \<le> to_block \<and> v2 \<le> b \<and> sig \<in> family_signatures A Transact_F)
       + of_bool (from_block \<le> b \<and> b \<le> to_block \<and> v2 \<le> b \<and> b \<le> legacy
           \<and> sig \<in> family_signatures A Legacy_Shield_F)
       + of_bool (from_block \<le> b \<and> b \<le> to_block \<and> v2 \<le> b \<and> legacy < b
           \<and> sig \<in> family_signatures A Shield_F)
       + of_bool (from_block \<le> b \<and> b \<le> to_block \<and> sig \<in> family_signatures A Nullifier_F)
       + of_bool (from_block \<le> b \<and> b \<le> to_block \<and> action_covered action b
           \<and> sig \<in> family_signatures A Action_F)"
      unfolding covering_fine [OF False None] by (simp add: ACTION_EVENT_SIGNATURES_def)
    show ?thesis
    proof (cases "\<exists>F. sig \<in> family_signatures A F")
      case True
      then obtain F where F: "sig \<in> family_signatures A F" by blast
      show ?thesis
        unfolding cov log_requested_family excl [OF F] using F other [OF F] fine
        by (cases F) (auto simp del: family_signatures.simps)
    next
      case none: False
      then show ?thesis unfolding cov log_requested_family by (simp del: family_signatures.simps)
    qed
  next
    case (Some sigs)
    have sigs: "sig \<in> set sigs \<longleftrightarrow> (\<exists>F. sig \<in> family_signatures A F \<and>
        (if 0 < v2 \<and> to_block < v2 then F = Batch_F \<or> F = Nullifier_F
         else if to_block \<le> legacy then F = Transact_F \<or> F = Legacy_Shield_F \<or> F = Nullifier_F
         else F = Transact_F \<or> F = Shield_F \<or> F = Nullifier_F))"
      and border: "0 < v2 \<and> to_block < v2 \<or> v2 \<le> from_block \<and> (to_block \<le> legacy \<or> legacy < from_block)"
      unfolding ex_family using Some
      by (auto simp: era_event_signatures_for_range_def split: if_splits)
    have act: "sig \<in> set (ACTION_EVENT_SIGNATURES A) \<longleftrightarrow> sig \<in> family_signatures A Action_F"
      by (simp add: ACTION_EVENT_SIGNATURES_def)
    have disj: "sig \<notin> set sigs \<or> sig \<notin> set (ACTION_EVENT_SIGNATURES A)"
      unfolding sigs act using other [of Action_F] by (auto simp del: family_signatures.simps)
    show ?thesis
    proof (cases "\<exists>F. sig \<in> family_signatures A F")
      case True
      then obtain F where F: "sig \<in> family_signatures A F" by blast
      show ?thesis
        unfolding covering_combined [OF False Some disj] log_requested_family sigs act excl [OF F]
        using F other [OF F, of Action_F] border
        by (cases F) (auto simp del: family_signatures.simps)
    next
      case none: False
      then show ?thesis
        unfolding covering_combined [OF False Some disj] log_requested_family sigs act
        by (simp del: family_signatures.simps)
    qed
  qed
qed

section \<open>Fetching\<close>

lemma mset_concat_filter:
  assumes "\<And>x. x \<in> set xs \<Longrightarrow> length (filter (\<lambda>f. P f x) fs) = of_bool (Q x)"
  shows "mset (concat (map (\<lambda>f. filter (P f) xs) fs)) = mset (filter Q xs)"
  using assms
proof (induction xs)
  case Nil
  show ?case by (induction fs) auto
next
  case (Cons x xs)
  have "mset (concat (map (\<lambda>f. filter (P f) (x # xs)) fs))
      = replicate_mset (length (filter (\<lambda>f. P f x) fs)) x
        + mset (concat (map (\<lambda>f. filter (P f) xs) fs))"
    by (induction fs) auto
  then show ?case using Cons by auto
qed

lemma filters_address:
  "flt \<in> set (chain_index_log_filters A c from_block to_block v2 legacy action) \<Longrightarrow> flt_address flt = c"
  by (auto simp: chain_index_log_filters_def Let_def split: if_splits option.splits)

lemma matching_filters:
  assumes "distinct (event_signatures A)"
  shows "length (filter (\<lambda>flt. filter_matches flt log)
           (chain_index_log_filters A c from_block to_block v2 legacy action))
       = of_bool (requested_log A c from_block to_block v2 legacy action log)"
proof (cases "log_address log = c \<and> log_block_number log \<noteq> None \<and> log_topics log \<noteq> []")
  case True
  then obtain b sig rest where log: "log_block_number log = Some b" "log_topics log = sig # rest"
    by (auto simp: neq_Nil_conv)
  let ?flts = "chain_index_log_filters A c from_block to_block v2 legacy action"
  have "filter (\<lambda>flt. filter_matches flt log) ?flts = filter (filter_covers b sig) ?flts"
    using True log by (intro filter_cong) (auto simp: filter_matches_def filters_address)
  then show ?thesis
    using filters_cover_once [OF assms] True log
    by (simp add: requested_log_def covering_def)
next
  case False
  then have "\<not> filter_matches flt log"
    if "flt \<in> set (chain_index_log_filters A c from_block to_block v2 legacy action)" for flt
    using filters_address [OF that] by (auto simp: filter_matches_def split: option.splits list.splits)
  then have "filter (\<lambda>flt. filter_matches flt log)
      (chain_index_log_filters A c from_block to_block v2 legacy action) = []"
    by (simp add: filter_empty_conv)
  moreover have "\<not> requested_log A c from_block to_block v2 legacy action log"
    using False by (auto simp: requested_log_def split: option.splits list.splits)
  ultimately show ?thesis by simp
qed

lemma try_fold_collect:
  "(\<And>f. f \<in> set fs \<Longrightarrow> get f = Inr (g f)) \<Longrightarrow>
   try_fold (\<lambda>acc f. and_then (get f) (\<lambda>found. Inr (acc @ found))) acc fs
     = Inr (acc @ concat (map g fs))"
  by (induction fs arbitrary: acc) auto

lemma sort_logs_unique:
  assumes "mset xs = mset ys" and "distinct (map log_key xs)" and "sorted (map log_key ys)"
  shows "sort_logs xs = ys"
proof (rule distinct_sorted_map_unique)
  show "mset (sort_logs xs) = mset ys" using assms(1) by (simp add: sort_logs_def)
  show "sorted (map log_key (sort_logs xs))" by (simp add: sort_logs_def)
  show "sorted (map log_key ys)" by fact
  have "mset (map log_key (sort_logs xs)) = mset (map log_key xs)" by (simp add: sort_logs_def)
  then show "distinct (map log_key (sort_logs xs))"
    using assms(2) by (metis mset_eq_imp_distinct_iff)
qed

lemma sort_logs_sorted [simp]: "sorted (map log_key (sort_logs xs))"
  by (simp add: sort_logs_def)

lemma mset_sort_logs [simp]: "mset (sort_logs xs) = mset xs"
  by (simp add: sort_logs_def)

lemma set_sort_logs [simp]: "set (sort_logs xs) = set xs"
  by (simp add: sort_logs_def)

lemma fetch_exact:
  assumes "distinct (event_signatures A)" and "serves get_logs chain" and "distinct (map log_key chain)"
  shows "fetch_chain_index_logs A get_logs c from_block to_block v2 legacy action
       = Inr (sort_logs (filter (requested_log A c from_block to_block v2 legacy action) chain))"
proof -
  let ?flts = "chain_index_log_filters A c from_block to_block v2 legacy action"
  let ?R = "requested_log A c from_block to_block v2 legacy action"
  let ?all = "concat (map (\<lambda>flt. filter (filter_matches flt) chain) ?flts)"
  have fetch: "fetch_chain_index_logs A get_logs c from_block to_block v2 legacy action
      = Inr (sort_logs ?all)"
    unfolding fetch_chain_index_logs_def
    using assms(2) by (subst try_fold_collect) (auto simp: serves_def)
  have mset: "mset ?all = mset (filter ?R chain)"
    by (rule mset_concat_filter) (rule matching_filters [OF assms(1)])
  have "mset (map log_key ?all) = mset (map log_key (filter ?R chain))"
    using mset by (simp add: mset_map)
  then have "distinct (map log_key ?all)"
    using assms(3) by (metis distinct_map_filter mset_eq_imp_distinct_iff)
  then have "sort_logs ?all = sort_logs (filter ?R chain)"
    using mset by (intro sort_logs_unique) auto
  with fetch show ?thesis by simp
qed

text \<open>A legacy batch log in the block of the upgrade, the one kind of log on which the two ways of
  fetching differ.\<close>

definition legacy_batch_at :: "event_abi \<Rightarrow> u64 \<Rightarrow> raw_log \<Rightarrow> bool" where
  "legacy_batch_at A v2 log \<longleftrightarrow>
     log_block_number log = Some v2
     \<and> (case log_topics log of [] \<Rightarrow> False
        | sig # _ \<Rightarrow> sig \<in> {sig_CommitmentBatch A, sig_GeneratedCommitmentBatch A})"

lemma requested_block:
  "requested_log A c from_block to_block v2 legacy action log \<Longrightarrow>
   from_block \<le> fst (log_key log) \<and> fst (log_key log) \<le> to_block"
  by (auto simp: requested_log_def log_requested_def log_key_def split: option.splits list.splits)

lemma succ_le_iff: "(mid :: 64 word) < to \<Longrightarrow> mid + 1 \<le> b \<longleftrightarrow> mid < b"
  using saturating_succ_le_iff [of mid to b] unat_less_exp [of to]
  by (simp add: saturating_add_def word_less_nat_alt)

lemma requested_split:
  assumes "distinct (event_signatures A)" and "from_block \<le> mid" and "mid < to_block"
    and "\<not> legacy_batch_at A v2 log"
  shows "requested_log A c from_block to_block v2 legacy action log \<longleftrightarrow>
     requested_log A c from_block mid v2 legacy action log
     \<or> requested_log A c (mid + 1) to_block v2 legacy action log"
proof (cases "log_block_number log")
  case None
  then show ?thesis by (simp add: requested_log_def)
next
  case (Some b)
  show ?thesis
  proof (cases "log_topics log")
    case Nil
    then show ?thesis using Some by (simp add: requested_log_def)
  next
    case (Cons sig rest)
    have border: "\<not> (b = v2 \<and> sig \<in> family_signatures A Batch_F)"
      using assms(4) Some Cons by (auto simp: legacy_batch_at_def)
    have range: "from_block \<le> b \<and> b \<le> to_block \<longleftrightarrow>
        from_block \<le> b \<and> b \<le> mid \<or> mid < b \<and> b \<le> to_block"
      using assms(2,3) by auto
    have batch: "sig \<in> family_signatures A Batch_F \<and> (b < v2 \<or> b = v2 \<and> X) \<longleftrightarrow>
        sig \<in> family_signatures A Batch_F \<and> b < v2" for X
      using border by auto
    show ?thesis
      using Some Cons unfolding requested_log_def
      by (simp add: log_requested_family ex_family succ_le_iff [OF assms(3)] batch
          del: family_signatures.simps) (use range in blast)
  qed
qed

lemma requested_not_both:
  assumes "mid < to_block"
  shows "\<not> (requested_log A c from_block mid v2 legacy action log
     \<and> requested_log A c (mid + 1) to_block v2 legacy action log)"
  using requested_block [of A c from_block mid v2 legacy action log]
    requested_block [of A c "mid + 1" to_block v2 legacy action log]
  by (auto simp: succ_le_iff [OF assms])

lemma mset_filter_disjoint:
  "(\<And>x. x \<in> set xs \<Longrightarrow> \<not> (P x \<and> Q x)) \<Longrightarrow>
   mset (filter (\<lambda>x. P x \<or> Q x) xs) = mset (filter P xs) + mset (filter Q xs)"
  by (induction xs) auto

text \<open>A small chain with its bindings, for the instances below: event number \<open>i\<close> of
  \<open>event_signatures\<close> has signature \<open>i\<close>.\<close>

definition sample_abi :: event_abi where
  "sample_abi = \<lparr>sig_Transact = 0, sig_Shield = 1, sig_LegacyShield = 2, sig_Nullifiers = 3,
     sig_Nullified = 4, sig_Action = 5, sig_Unshield = 6, sig_CommitmentBatch = 7,
     sig_GeneratedCommitmentBatch = 8, decode_Transact = \<lambda>_. None, decode_Shield = \<lambda>_. None,
     decode_LegacyShield = \<lambda>_. None, decode_Nullifiers = \<lambda>_. None, decode_Nullified = \<lambda>_. None,
     decode_Action = \<lambda>_. None, decode_Unshield = \<lambda>_. None, decode_CommitmentBatch = \<lambda>_. None,
     decode_GeneratedCommitmentBatch = \<lambda>_. None\<rparr>"

definition sample_log :: "u64 \<Rightarrow> u64 \<Rightarrow> bytes32 \<Rightarrow> raw_log" where
  "sample_log b i sig = \<lparr>log_address = 77, log_block_number = Some b, log_block_hash = Some (ucast b),
     log_transaction_hash = Some 1, log_log_index = Some i, log_topics = [sig], log_data = []\<rparr>"

definition sample_chain :: "raw_log list" where
  "sample_chain = [sample_log 4 0 7, sample_log 4 1 3, sample_log 6 0 7, sample_log 8 0 0,
     sample_log 8 3 2, sample_log 11 2 1, sample_log 11 0 4, sample_log 11 1 5]"

definition sample_get_logs :: "log_filter \<Rightarrow> raw_log list ingested" where
  "sample_get_logs flt = Inr (filter (filter_matches flt) sample_chain)"

lemma sample_chain_ok:
  "distinct (event_signatures sample_abi)" "serves sample_get_logs sample_chain"
  "distinct (map log_key sample_chain)" "filter (legacy_batch_at sample_abi 7) sample_chain = []"
  by (simp_all add: event_signatures_def sample_abi_def serves_def sample_get_logs_def
      sample_chain_def sample_log_def log_key_def legacy_batch_at_def)

section \<open>Properties\<close>



text \<open>C2: The result of fetching does not depend on how the chain is cut into ranges, which is what
  lets the indexer shrink and grow its batches freely: fetching a range returns what fetching its
  two halves returns, in order, for every cut, provided no legacy batch log sits in the block of the
  upgrade itself.\<close>

theorem fetch_chain_index_logs_split:
  assumes "distinct (event_signatures A)" and "serves get_logs chain"
    and "distinct (map log_key chain)"
    and "filter (legacy_batch_at A v2) chain = []"
    and "from_block \<le> mid" and "mid < to_block"
  shows "fetch_chain_index_logs A get_logs c from_block to_block v2 legacy action =
     and_then (fetch_chain_index_logs A get_logs c from_block mid v2 legacy action) (\<lambda>xs.
     and_then (fetch_chain_index_logs A get_logs c (mid + 1) to_block v2 legacy action) (\<lambda>ys.
       Inr (xs @ ys)))"
proof -
  let ?R = "\<lambda>f t. requested_log A c f t v2 legacy action"
  have split: "filter (?R from_block to_block) chain
      = filter (\<lambda>log. ?R from_block mid log \<or> ?R (mid + 1) to_block log) chain"
    using assms(4) by (intro filter_cong)
      (auto simp: filter_empty_conv requested_split [OF assms(1,5,6)])
  have "sort_logs (filter (?R from_block to_block) chain)
      = sort_logs (filter (?R from_block mid) chain) @ sort_logs (filter (?R (mid + 1) to_block) chain)"
  proof (rule sort_logs_unique)
    show "mset (filter (?R from_block to_block) chain)
      = mset (sort_logs (filter (?R from_block mid) chain)
          @ sort_logs (filter (?R (mid + 1) to_block) chain))"
      unfolding split using requested_not_both [OF assms(6)]
      by (subst mset_filter_disjoint) auto
    show "distinct (map log_key (filter (?R from_block to_block) chain))"
      using assms(3) by (rule distinct_map_filter)
    have "log_key x \<le> log_key y" if "?R from_block mid x" "?R (mid + 1) to_block y" for x y
      using requested_block [OF that(1)] requested_block [OF that(2)]
      by (cases "log_key x"; cases "log_key y") (auto simp: succ_le_iff [OF assms(6)])
    then show "sorted (map log_key (sort_logs (filter (?R from_block mid) chain)
        @ sort_logs (filter (?R (mid + 1) to_block) chain)))"
      by (auto simp: sorted_append)
  qed
  then show ?thesis by (simp add: fetch_exact [OF assms(1-3)])
qed

theorem fetch_chain_index_logs_split_witness:
  "fetch_chain_index_logs sample_abi sample_get_logs 77 4 11 7 9 (Some 10) =
     and_then (fetch_chain_index_logs sample_abi sample_get_logs 77 4 8 7 9 (Some 10)) (\<lambda>xs.
     and_then (fetch_chain_index_logs sample_abi sample_get_logs 77 9 11 7 9 (Some 10)) (\<lambda>ys.
       Inr (xs @ ys)))"
  using fetch_chain_index_logs_split [OF sample_chain_ok, of 4 8 11 77 9 "Some 10"] by simp



end
