(* ===== verification/Log_Ingest.thy ===== *)
theory Log_Ingest
  imports Tree_Position Log_Filters
begin

text \<open>
  Turning raw logs into the records of a batch (\<open>chain_logs.rs\<close>, \<open>ingest_chain_logs\<close>,
  \<open>ingest_shield_commitments\<close>, \<open>source_from_log\<close>). \<open>ingest_log\<close> is the body of the loop over
  the logs, one branch per event signature in the order of the code; the loops over an event's
  items are \<open>try_fold\<close> over the enumerated items.
\<close>

definition uint_to :: "u256 \<Rightarrow> 'a::len word ingested" where
  "uint_to x = ok_or (Panicked ''Uint::to'') (try_from_word x)"

definition source_from_log :: "raw_log \<Rightarrow> indexed_log_source ingested" where
  "source_from_log log =
     and_then (ok_or (MissingLogMetadata ''block_number'') (log_block_number log)) (\<lambda>bn.
     and_then (ok_or (MissingLogMetadata ''block_hash'') (log_block_hash log)) (\<lambda>bh.
     and_then (ok_or (MissingLogMetadata ''transaction_hash'') (log_transaction_hash log)) (\<lambda>th.
     and_then (ok_or (MissingLogMetadata ''log_index'') (log_log_index log)) (\<lambda>li.
       Inr \<lparr>block_number = bn, block_timestamp = None, block_hash = bh, transaction_hash = th,
            log_index = li\<rparr>))))"

definition empty_batch :: indexed_log_batch where
  "empty_batch = \<lparr>transact_commitments = [], shield_commitments = [], nullifiers = [],
     legacy_encrypted_commitments = [], legacy_generated_commitments = [], actions = [],
     unshields = [], public_transactions = [], unshield_log_derivations = 0,
     unshield_log_divergences = 0\<rparr>"

definition ingest_transact ::
  "u64 \<Rightarrow> u32 \<Rightarrow> u64 \<Rightarrow> transact_event \<Rightarrow> indexed_log_source \<Rightarrow> indexed_log_batch
   \<Rightarrow> indexed_log_batch ingested" where
  "ingest_transact L tree_number start_position event source batch =
     try_fold (\<lambda>batch (index, hash).
       and_then (normalized_event_position L tree_number start_position index) (\<lambda>(tree, position).
         Inr (batch\<lparr>transact_commitments := transact_commitments batch @
           [\<lparr>tc_tree_number = tree, tc_tree_position = position, tc_hash = hash,
             tc_ciphertext = get_at (transact_ciphertext event) index, tc_source = source\<rparr>]\<rparr>)))
       batch (enumerate 0 (transact_hash event))"

definition ingest_shield_commitments ::
  "u64 \<Rightarrow> indexed_log_batch \<Rightarrow> u32 \<Rightarrow> u64 \<Rightarrow> commitment_preimage list \<Rightarrow> shield_ciphertext list
   \<Rightarrow> indexed_log_source \<Rightarrow> indexed_log_batch ingested" where
  "ingest_shield_commitments L batch tree_number start_position commitments ciphertexts source =
     try_fold (\<lambda>batch (index, preimage).
       case get_at ciphertexts index of
         None \<Rightarrow> Inr batch
       | Some ciphertext \<Rightarrow>
           and_then (normalized_event_position L tree_number start_position index) (\<lambda>(tree, position).
             Inr (batch\<lparr>shield_commitments := shield_commitments batch @
               [\<lparr>sc_tree_number = tree, sc_tree_position = position, sc_preimage = preimage,
                 sc_shield_ciphertext = ciphertext, sc_source = source\<rparr>]\<rparr>)))
       batch (enumerate 0 commitments)"

definition ingest_shield ::
  "u64 \<Rightarrow> shield_event option \<Rightarrow> raw_log \<Rightarrow> indexed_log_batch \<Rightarrow> indexed_log_batch ingested" where
  "ingest_shield L decoded log batch =
     and_then (ok_or Decode decoded) (\<lambda>event.
     and_then (source_from_log log) (\<lambda>source.
     and_then (uint_to (shield_treeNumber event)) (\<lambda>tree_number.
     and_then (uint_to (shield_startPosition event)) (\<lambda>start_position.
       ingest_shield_commitments L batch tree_number start_position (shield_preimages event)
         (shield_shieldCiphertext event) source))))"

definition push_nullifiers ::
  "u32 \<Rightarrow> bytes32 list \<Rightarrow> indexed_log_source \<Rightarrow> indexed_log_batch \<Rightarrow> indexed_log_batch" where
  "push_nullifiers tree_number nfs source batch =
     batch\<lparr>nullifiers := nullifiers batch @
       map (\<lambda>nf. \<lparr>nf_tree_number = tree_number, nf_nullifier = nf, nf_source = source\<rparr>) nfs\<rparr>"

definition ingest_commitment_batch ::
  "u64 \<Rightarrow> u32 \<Rightarrow> u64 \<Rightarrow> commitment_batch_event \<Rightarrow> indexed_log_source \<Rightarrow> indexed_log_batch
   \<Rightarrow> indexed_log_batch ingested" where
  "ingest_commitment_batch L tree_number start_position event source batch =
     try_fold (\<lambda>batch (index, ciphertext).
       case get_at (batch_hash event) index of
         None \<Rightarrow> Inr batch
       | Some hash \<Rightarrow>
           and_then (normalized_event_position L tree_number start_position index) (\<lambda>(tree, position).
             Inr (batch\<lparr>legacy_encrypted_commitments := legacy_encrypted_commitments batch @
               [\<lparr>le_tree_number = tree, le_tree_position = position, le_hash = hash,
                 le_ciphertext = ciphertext, le_source = source\<rparr>]\<rparr>)))
       batch (enumerate 0 (batch_ciphertext event))"

definition ingest_generated_batch ::
  "u64 \<Rightarrow> u32 \<Rightarrow> u64 \<Rightarrow> generated_batch_event \<Rightarrow> indexed_log_source \<Rightarrow> indexed_log_batch
   \<Rightarrow> indexed_log_batch ingested" where
  "ingest_generated_batch L tree_number start_position event source batch =
     try_fold (\<lambda>batch (index, preimage).
       case get_at (generated_encryptedRandom event) index of
         None \<Rightarrow> Inr batch
       | Some encrypted_random \<Rightarrow>
           and_then (normalized_event_position L tree_number start_position index) (\<lambda>(tree, position).
             Inr (batch\<lparr>legacy_generated_commitments := legacy_generated_commitments batch @
               [\<lparr>lg_tree_number = tree, lg_tree_position = position, lg_preimage = preimage,
                 lg_encrypted_random = encrypted_random, lg_source = source\<rparr>]\<rparr>)))
       batch (enumerate 0 (generated_commitments event))"

definition topic0 :: "raw_log \<Rightarrow> bytes32" where
  "topic0 log = (case log_topics log of [] \<Rightarrow> 0 | t # _ \<Rightarrow> t)"

definition ingest_log ::
  "event_abi \<Rightarrow> u64 \<Rightarrow> indexed_log_batch \<Rightarrow> raw_log \<Rightarrow> indexed_log_batch ingested" where
  "ingest_log A L batch log =
     (if topic0 log = sig_Transact A then
        and_then (ok_or Decode (decode_Transact A log)) (\<lambda>event.
        and_then (uint_to (transact_treeNumber event)) (\<lambda>tree_number.
        and_then (uint_to (transact_startPosition event)) (\<lambda>start_position.
        and_then (source_from_log log) (\<lambda>source.
          ingest_transact L tree_number start_position event source batch))))
      else if topic0 log = sig_Shield A then ingest_shield L (decode_Shield A log) log batch
      else if topic0 log = sig_LegacyShield A then ingest_shield L (decode_LegacyShield A log) log batch
      else if topic0 log = sig_Nullifiers A then
        and_then (ok_or Decode (decode_Nullifiers A log)) (\<lambda>event.
        and_then (uint_to (nullifiers_treeNumber event)) (\<lambda>tree_number.
        and_then (source_from_log log) (\<lambda>source.
          Inr (push_nullifiers tree_number (nullifiers_nullifier event) source batch))))
      else if topic0 log = sig_Nullified A then
        and_then (ok_or Decode (decode_Nullified A log)) (\<lambda>event.
        and_then (source_from_log log) (\<lambda>source.
          Inr (push_nullifiers (ucast (nullified_treeNumber event)) (nullified_nullifier event)
            source batch)))
      else if topic0 log = sig_Action A then
        and_then (ok_or Decode (decode_Action A log)) (\<lambda>txconfigs.
        and_then (source_from_log log) (\<lambda>source.
          Inr (batch\<lparr>actions := actions batch @ [\<lparr>ac_txconfigs = txconfigs, ac_source = source\<rparr>]\<rparr>)))
      else if topic0 log = sig_Unshield A then
        and_then (ok_or Decode (decode_Unshield A log)) (\<lambda>unshield.
        and_then (source_from_log log) (\<lambda>source.
          Inr (batch\<lparr>unshields := unshields batch @
            [\<lparr>us_unshield = unshield, us_source = source\<rparr>]\<rparr>)))
      else if topic0 log = sig_CommitmentBatch A then
        and_then (ok_or Decode (decode_CommitmentBatch A log)) (\<lambda>event.
        and_then (uint_to (batch_treeNumber event)) (\<lambda>tree_number.
        and_then (uint_to (batch_startPosition event)) (\<lambda>start_position.
        and_then (source_from_log log) (\<lambda>source.
          ingest_commitment_batch L tree_number start_position event source batch))))
      else if topic0 log = sig_GeneratedCommitmentBatch A then
        and_then (ok_or Decode (decode_GeneratedCommitmentBatch A log)) (\<lambda>event.
        and_then (uint_to (generated_treeNumber event)) (\<lambda>tree_number.
        and_then (uint_to (generated_startPosition event)) (\<lambda>start_position.
        and_then (source_from_log log) (\<lambda>source.
          ingest_generated_batch L tree_number start_position event source batch))))
      else Inr batch)"

definition ingest_chain_logs :: "event_abi \<Rightarrow> u64 \<Rightarrow> raw_log list \<Rightarrow> indexed_log_batch ingested" where
  "ingest_chain_logs A L logs = try_fold (ingest_log A L) empty_batch logs"

section \<open>Batches accumulate\<close>

definition batch_append :: "indexed_log_batch \<Rightarrow> indexed_log_batch \<Rightarrow> indexed_log_batch" where
  "batch_append a b =
     \<lparr>transact_commitments = transact_commitments a @ transact_commitments b,
      shield_commitments = shield_commitments a @ shield_commitments b,
      nullifiers = nullifiers a @ nullifiers b,
      legacy_encrypted_commitments = legacy_encrypted_commitments a @ legacy_encrypted_commitments b,
      legacy_generated_commitments = legacy_generated_commitments a @ legacy_generated_commitments b,
      actions = actions a @ actions b,
      unshields = unshields a @ unshields b,
      public_transactions = public_transactions a @ public_transactions b,
      unshield_log_derivations = unshield_log_derivations a + unshield_log_derivations b,
      unshield_log_divergences = unshield_log_divergences a + unshield_log_divergences b\<rparr>"

text \<open>The contract of a loop body that only adds to what it accumulates: what it adds depends on
  the item alone. Loops with such a body can be cut anywhere.\<close>

locale accumulating =
  fixes append :: "'b \<Rightarrow> 'b \<Rightarrow> 'b" and unit :: 'b and step :: "'b \<Rightarrow> 'a \<Rightarrow> 'e + 'b"
  assumes append_assoc: "append (append a b) c = append a (append b c)"
    and append_unit: "append unit a = a" "append a unit = a"
    and step_local: "step b x = and_then (step unit x) (\<lambda>d. Inr (append b d))"
begin

lemma fold_local: "try_fold step b xs = and_then (try_fold step unit xs) (\<lambda>d. Inr (append b d))"
proof (induction xs arbitrary: b)
  case Nil
  show ?case by (simp add: append_unit)
next
  case (Cons x xs)
  show ?case
  proof (cases "step unit x")
    case (Inl e)
    then show ?thesis by (simp add: step_local [of b])
  next
    case (Inr d)
    have "try_fold step (append b d) xs = and_then (try_fold step d xs) (\<lambda>r. Inr (append b r))"
      unfolding Cons.IH [of "append b d"] Cons.IH [of d]
      by (cases "try_fold step unit xs") (simp_all add: append_assoc)
    with Inr show ?thesis by (simp add: step_local [of b])
  qed
qed

lemma fold_append:
  "try_fold step unit (xs @ ys) =
     and_then (try_fold step unit xs) (\<lambda>a.
     and_then (try_fold step unit ys) (\<lambda>b. Inr (append a b)))"
  unfolding try_fold_append
  by (cases "try_fold step unit xs") (simp, simp, rule fold_local)

end

lemma batch_append_assoc: "batch_append (batch_append a b) c = batch_append a (batch_append b c)"
  by (simp add: batch_append_def)

lemma batch_append_empty: "batch_append empty_batch a = a" "batch_append a empty_batch = a"
  by (simp_all add: batch_append_def empty_batch_def)

lemmas batch_monoid = batch_append_assoc batch_append_empty

interpretation transact_items: accumulating batch_append empty_batch
  "\<lambda>batch (index, hash).
     and_then (normalized_event_position L tree_number start_position index) (\<lambda>(tree, position).
       Inr (batch\<lparr>transact_commitments := transact_commitments batch @
         [\<lparr>tc_tree_number = tree, tc_tree_position = position, tc_hash = hash,
           tc_ciphertext = get_at (transact_ciphertext event) index, tc_source = source\<rparr>]\<rparr>))"
  for L tree_number start_position event source
  by unfold_locales
    (auto simp: batch_monoid and_then_assoc batch_append_def empty_batch_def split: prod.splits
      intro!: and_then_cong)

interpretation shield_items: accumulating batch_append empty_batch
  "\<lambda>batch (index, preimage).
     case get_at ciphertexts index of
       None \<Rightarrow> Inr batch
     | Some ciphertext \<Rightarrow>
         and_then (normalized_event_position L tree_number start_position index) (\<lambda>(tree, position).
           Inr (batch\<lparr>shield_commitments := shield_commitments batch @
             [\<lparr>sc_tree_number = tree, sc_tree_position = position, sc_preimage = preimage,
               sc_shield_ciphertext = ciphertext, sc_source = source\<rparr>]\<rparr>))"
  for L tree_number start_position ciphertexts source
  by unfold_locales
    (auto simp: batch_monoid and_then_assoc batch_append_def empty_batch_def
      split: prod.splits option.splits intro!: and_then_cong)

interpretation batch_items: accumulating batch_append empty_batch
  "\<lambda>batch (index, ciphertext).
     case get_at (batch_hash event) index of
       None \<Rightarrow> Inr batch
     | Some hash \<Rightarrow>
         and_then (normalized_event_position L tree_number start_position index) (\<lambda>(tree, position).
           Inr (batch\<lparr>legacy_encrypted_commitments := legacy_encrypted_commitments batch @
             [\<lparr>le_tree_number = tree, le_tree_position = position, le_hash = hash,
               le_ciphertext = ciphertext, le_source = source\<rparr>]\<rparr>))"
  for L tree_number start_position event source
  by unfold_locales
    (auto simp: batch_monoid and_then_assoc batch_append_def empty_batch_def
      split: prod.splits option.splits intro!: and_then_cong)

interpretation generated_items: accumulating batch_append empty_batch
  "\<lambda>batch (index, preimage).
     case get_at (generated_encryptedRandom event) index of
       None \<Rightarrow> Inr batch
     | Some encrypted_random \<Rightarrow>
         and_then (normalized_event_position L tree_number start_position index) (\<lambda>(tree, position).
           Inr (batch\<lparr>legacy_generated_commitments := legacy_generated_commitments batch @
             [\<lparr>lg_tree_number = tree, lg_tree_position = position, lg_preimage = preimage,
               lg_encrypted_random = encrypted_random, lg_source = source\<rparr>]\<rparr>))"
  for L tree_number start_position event source
  by unfold_locales
    (auto simp: batch_monoid and_then_assoc batch_append_def empty_batch_def
      split: prod.splits option.splits intro!: and_then_cong)

lemma and_then_local:
  "(\<And>x. F x b = and_then (F x e) G) \<Longrightarrow> and_then r (\<lambda>x. F x b) = and_then (and_then r (\<lambda>x. F x e)) G"
  by (cases r) simp_all

lemma ingest_shield_local:
  "ingest_shield L d log b = and_then (ingest_shield L d log empty_batch) (\<lambda>a. Inr (batch_append b a))"
  unfolding ingest_shield_def ingest_shield_commitments_def
  by (intro and_then_local shield_items.fold_local)

lemma push_local:
  "push_nullifiers t nfs src b = batch_append b (push_nullifiers t nfs src empty_batch)"
  "b\<lparr>actions := actions b @ as\<rparr> = batch_append b (empty_batch\<lparr>actions := actions empty_batch @ as\<rparr>)"
  "b\<lparr>unshields := unshields b @ us\<rparr>
     = batch_append b (empty_batch\<lparr>unshields := unshields empty_batch @ us\<rparr>)"
  by (simp_all add: push_nullifiers_def batch_append_def empty_batch_def)

lemma Inr_local: "f = batch_append b g \<Longrightarrow> Inr f = and_then (Inr g) (\<lambda>a. Inr (batch_append b a))"
  by simp

lemma ingest_log_local:
  "ingest_log A L b log = and_then (ingest_log A L empty_batch log) (\<lambda>a. Inr (batch_append b a))"
proof -
  have if_local: "and_then (if P then r else r') G = (if P then and_then r G else and_then r' G)"
    for P and r r' :: "indexed_log_batch ingested" and G :: "indexed_log_batch \<Rightarrow> indexed_log_batch ingested"
    by simp
  show ?thesis
    unfolding ingest_log_def if_local ingest_transact_def ingest_commitment_batch_def
      ingest_generated_batch_def
    by (intro if_cong refl and_then_local transact_items.fold_local batch_items.fold_local
        generated_items.fold_local ingest_shield_local Inr_local push_local
        batch_append_empty(2) [symmetric])
qed

interpretation log_loop: accumulating batch_append empty_batch "ingest_log A L" for A L
  by unfold_locales (simp_all add: batch_monoid, rule ingest_log_local)

section \<open>What a batch holds\<close>

text \<open>The records as facts about the chain: global leaf position, content and source.\<close>

definition transact_view ::
  "u64 \<Rightarrow> indexed_transact_commitment
   \<Rightarrow> nat \<times> bytes32 \<times> commitment_ciphertext option \<times> indexed_log_source" where
  "transact_view L r = (unat (tc_tree_number r) * unat L + unat (tc_tree_position r), tc_hash r,
     tc_ciphertext r, tc_source r)"

definition shield_view ::
  "u64 \<Rightarrow> indexed_shield_commitment
   \<Rightarrow> nat \<times> commitment_preimage \<times> shield_ciphertext \<times> indexed_log_source" where
  "shield_view L r = (unat (sc_tree_number r) * unat L + unat (sc_tree_position r), sc_preimage r,
     sc_shield_ciphertext r, sc_source r)"

lemma enumerate_snoc: "enumerate 0 (xs @ [x]) = enumerate 0 xs @ [(length xs, x)]"
  by (simp add: enumerate_append_eq)

lemma transact_rows:
  "ingest_transact L t s e src empty_batch = Inr b \<Longrightarrow>
   map (transact_view L) (transact_commitments b) =
     map (\<lambda>i. (unat t * unat L + unat s + i, transact_hash e ! i, get_at (transact_ciphertext e) i, src))
       [0..<length (transact_hash e)]
   \<and> shield_commitments b = [] \<and> nullifiers b = []"
proof -
  define hs where "hs = transact_hash e"
  assume "ingest_transact L t s e src empty_batch = Inr b"
  then show ?thesis
    unfolding ingest_transact_def hs_def [symmetric]
  proof (induction hs arbitrary: b rule: rev_induct)
    case Nil
    then show ?case by (auto simp: empty_batch_def)
  next
    case (snoc h hs)
    then show ?case
      by (auto simp: enumerate_snoc try_fold_append result_simps transact_view_def nth_append
          split: prod.splits dest!: normalized_event_position_value)
  qed
qed

lemma shield_rows:
  "ingest_shield_commitments L empty_batch t s ps cs src = Inr b \<Longrightarrow>
   map (shield_view L) (shield_commitments b) =
     map (\<lambda>i. (unat t * unat L + unat s + i, ps ! i, cs ! i, src)) [0..<min (length ps) (length cs)]
   \<and> transact_commitments b = [] \<and> nullifiers b = []"
  unfolding ingest_shield_commitments_def
proof (induction ps arbitrary: b rule: rev_induct)
  case Nil
  then show ?case by (auto simp: empty_batch_def)
next
  case (snoc p ps)
  show ?case
  proof (cases "length ps < length cs")
    case True
    then have "min (length (ps @ [p])) (length cs) = Suc (min (length ps) (length cs))" by simp
    with True snoc show ?thesis
      by (auto simp: enumerate_snoc try_fold_append result_simps shield_view_def nth_append get_at_def
          min_def split: prod.splits dest!: normalized_event_position_value)
  next
    case False
    with snoc show ?thesis
      by (auto simp: enumerate_snoc try_fold_append result_simps nth_append get_at_def min_def
          split: prod.splits)
  qed
qed

text \<open>What one log contributes, read off the decoded event.\<close>

definition expected_transacts ::
  "event_abi \<Rightarrow> u64 \<Rightarrow> raw_log \<Rightarrow> (nat \<times> bytes32 \<times> commitment_ciphertext option \<times> indexed_log_source) list"
  where
  "expected_transacts A L log =
     (if topic0 log = sig_Transact A then
        (case (decode_Transact A log, source_from_log log) of
           (Some e, Inr src) \<Rightarrow>
             map (\<lambda>i. (unat (transact_treeNumber e) * unat L + unat (transact_startPosition e) + i,
                        transact_hash e ! i, get_at (transact_ciphertext e) i, src))
               [0..<length (transact_hash e)]
         | _ \<Rightarrow> [])
      else [])"

definition expected_shields ::
  "event_abi \<Rightarrow> u64 \<Rightarrow> raw_log \<Rightarrow> (nat \<times> commitment_preimage \<times> shield_ciphertext \<times> indexed_log_source) list"
  where
  "expected_shields A L log =
     (case (if topic0 log = sig_Shield A then decode_Shield A log
            else if topic0 log = sig_LegacyShield A then decode_LegacyShield A log else None,
            source_from_log log) of
        (Some e, Inr src) \<Rightarrow>
          map (\<lambda>i. (unat (shield_treeNumber e) * unat L + unat (shield_startPosition e) + i,
                     shield_preimages e ! i, shield_shieldCiphertext e ! i, src))
            [0..<min (length (shield_preimages e)) (length (shield_shieldCiphertext e))]
      | _ \<Rightarrow> [])"

definition expected_nullifiers ::
  "event_abi \<Rightarrow> raw_log \<Rightarrow> (nat \<times> bytes32 \<times> indexed_log_source) list" where
  "expected_nullifiers A log =
     (case source_from_log log of
        Inl _ \<Rightarrow> []
      | Inr src \<Rightarrow>
          if topic0 log = sig_Nullifiers A then
            (case decode_Nullifiers A log of None \<Rightarrow> []
             | Some e \<Rightarrow> map (\<lambda>nf. (unat (nullifiers_treeNumber e), nf, src)) (nullifiers_nullifier e))
          else if topic0 log = sig_Nullified A then
            (case decode_Nullified A log of None \<Rightarrow> []
             | Some e \<Rightarrow> map (\<lambda>nf. (unat (nullified_treeNumber e), nf, src)) (nullified_nullifier e))
          else [])"

definition nullifier_view :: "indexed_nullifier \<Rightarrow> nat \<times> bytes32 \<times> indexed_log_source" where
  "nullifier_view r = (unat (nf_tree_number r), nf_nullifier r, nf_source r)"

definition batch_views ::
  "u64 \<Rightarrow> indexed_log_batch
   \<Rightarrow> (nat \<times> bytes32 \<times> commitment_ciphertext option \<times> indexed_log_source) list
     \<times> (nat \<times> commitment_preimage \<times> shield_ciphertext \<times> indexed_log_source) list
     \<times> (nat \<times> bytes32 \<times> indexed_log_source) list" where
  "batch_views L b = (map (transact_view L) (transact_commitments b),
     map (shield_view L) (shield_commitments b), map nullifier_view (nullifiers b))"

lemma uint_to_value: "uint_to x = Inr y \<Longrightarrow> unat y = unat x"
  by (simp add: uint_to_def result_simps checked_simps)

lemma legacy_rows:
  "ingest_commitment_batch L t s ce src empty_batch = Inr b \<Longrightarrow> batch_views L b = ([], [], [])"
  "ingest_generated_batch L t s ge src empty_batch = Inr b \<Longrightarrow> batch_views L b = ([], [], [])"
  unfolding ingest_commitment_batch_def ingest_generated_batch_def
  by (erule try_fold_invariant [where P = "\<lambda>b. batch_views L b = ([], [], [])"];
      auto simp: batch_views_def empty_batch_def result_simps split: option.splits prod.splits)+

lemma push_nullifiers_view:
  "batch_views L (push_nullifiers t nfs src empty_batch) = ([], [], map (\<lambda>nf. (unat t, nf, src)) nfs)"
  by (simp add: batch_views_def push_nullifiers_def empty_batch_def nullifier_view_def comp_def)

lemma ingest_log_views:
  assumes "distinct (event_signatures A)" and "ingest_log A L empty_batch log = Inr b"
  shows "batch_views L b =
     (expected_transacts A L log, expected_shields A L log, expected_nullifiers A log)"
proof -
  note expected = expected_transacts_def expected_shields_def expected_nullifiers_def
  have d: "sig_Transact A \<notin> {sig_Shield A, sig_LegacyShield A, sig_Nullifiers A, sig_Nullified A}"
    "sig_Shield A \<notin> {sig_LegacyShield A, sig_Nullifiers A, sig_Nullified A}"
    "sig_LegacyShield A \<notin> {sig_Nullifiers A, sig_Nullified A}"
    "sig_Nullifiers A \<noteq> sig_Nullified A"
    "set [sig_Action A, sig_Unshield A, sig_CommitmentBatch A, sig_GeneratedCommitmentBatch A]
     \<inter> {sig_Transact A, sig_Shield A, sig_LegacyShield A, sig_Nullifiers A, sig_Nullified A} = {}"
    using assms(1) by (auto simp: event_signatures_def)
  consider "topic0 log = sig_Transact A" | "topic0 log = sig_Shield A" | "topic0 log = sig_LegacyShield A"
    | "topic0 log = sig_Nullifiers A" | "topic0 log = sig_Nullified A"
    | "topic0 log \<notin> {sig_Transact A, sig_Shield A, sig_LegacyShield A, sig_Nullifiers A, sig_Nullified A}"
    by blast
  then show ?thesis
  proof cases
    case 1
    with assms(2) d show ?thesis
      by (auto simp: ingest_log_def result_simps expected batch_views_def
          dest!: uint_to_value transact_rows)
  next
    case 2
    with assms(2) d show ?thesis
      by (auto simp: ingest_log_def ingest_shield_def result_simps expected batch_views_def
          dest!: uint_to_value shield_rows)
  next
    case 3
    with assms(2) d show ?thesis
      by (auto simp: ingest_log_def ingest_shield_def result_simps expected batch_views_def
          dest!: uint_to_value shield_rows)
  next
    case 4
    with assms(2) d show ?thesis
      by (auto simp: ingest_log_def result_simps expected push_nullifiers_view
          dest!: uint_to_value split: option.splits)
  next
    case 5
    with assms(2) d show ?thesis
      by (auto simp: ingest_log_def result_simps expected push_nullifiers_view unat_ucast_up
          split: option.splits)
  next
    case 6
    with assms(2) show ?thesis
      by (auto simp: ingest_log_def result_simps expected legacy_rows
          split: option.splits sum.splits if_splits)
        (simp_all add: batch_views_def empty_batch_def)
  qed
qed

lemma batch_views_append:
  "batch_views L b = (ts, ss, ns) \<Longrightarrow> batch_views L c = (ts', ss', ns') \<Longrightarrow>
   batch_views L (batch_append b c) = (ts @ ts', ss @ ss', ns @ ns')"
  by (auto simp: batch_views_def batch_append_def)

lemma ingest_Cons:
  "ingest_chain_logs A L (log # logs) =
     and_then (ingest_log A L empty_batch log) (\<lambda>a.
     and_then (ingest_chain_logs A L logs) (\<lambda>b. Inr (batch_append a b)))"
  using log_loop.fold_append [of A L "[log]" logs]
  by (cases "ingest_log A L empty_batch log") (simp_all add: ingest_chain_logs_def)

text \<open>Two logs with their decoders, for the instance below.\<close>

definition sample_events :: event_abi where
  "sample_events = sample_abi\<lparr>
     decode_Transact := \<lambda>_. Some \<lparr>transact_treeNumber = 1, transact_startPosition = 65535,
       transact_hash = [5, 6], transact_ciphertext = [[1]]\<rparr>,
     decode_Nullifiers := \<lambda>_. Some \<lparr>nullifiers_treeNumber = 1, nullifiers_nullifier = [9]\<rparr>\<rparr>"

lemma sample_events_ok:
  "distinct (event_signatures sample_events)"
  "\<not> isl (ingest_chain_logs sample_events 65536 [sample_log 8 0 0, sample_log 8 1 3])"
  subgoal by (simp add: sample_events_def event_signatures_def sample_abi_def)
  subgoal
    by (simp add: ingest_chain_logs_def ingest_log_def sample_log_def sample_events_def sample_abi_def
        topic0_def uint_to_def try_from_word_def try_from_len_def source_from_log_def
        ingest_transact_def normalized_event_position_def normalize_tree_position_def
        checked_add_def)
  done

definition sample_source :: "u64 \<Rightarrow> u64 \<Rightarrow> indexed_log_source" where
  "sample_source b i = \<lparr>block_number = b, block_timestamp = None, block_hash = ucast b,
     transaction_hash = 1, log_index = i\<rparr>"

section \<open>Properties\<close>

text \<open>C9: Ingesting logs is independent of how they are grouped: the batch of a sequence of logs is
  the batch of its first part followed by the batch of its second part, family by family, and
  ingestion fails exactly when some single log fails on its own.\<close>

theorem ingest_chain_logs_append:
  "ingest_chain_logs A L (xs @ ys) =
     and_then (ingest_chain_logs A L xs) (\<lambda>a.
     and_then (ingest_chain_logs A L ys) (\<lambda>b. Inr (batch_append a b)))
   \<and> (isl (ingest_chain_logs A L xs) \<longleftrightarrow> (\<exists>log \<in> set xs. isl (ingest_log A L empty_batch log)))"
proof
  show "ingest_chain_logs A L (xs @ ys) =
     and_then (ingest_chain_logs A L xs) (\<lambda>a.
     and_then (ingest_chain_logs A L ys) (\<lambda>b. Inr (batch_append a b)))"
    unfolding ingest_chain_logs_def by (rule log_loop.fold_append)
  show "isl (ingest_chain_logs A L xs) \<longleftrightarrow> (\<exists>log \<in> set xs. isl (ingest_log A L empty_batch log))"
  proof (induction xs)
    case Nil
    show ?case by (simp add: ingest_chain_logs_def)
  next
    case (Cons log logs)
    then show ?case
      by (cases "ingest_log A L empty_batch log"; cases "ingest_chain_logs A L logs")
        (auto simp: ingest_Cons)
  qed
qed

text \<open>C4: A batch holds exactly what the logs say, in their order: one transact commitment for every
  hash of every \<open>Transact\<close> event, one shield commitment for every preimage that comes with a
  ciphertext in either \<open>Shield\<close> event, and one nullifier for every entry of either nullifier
  event, each with the source of its log, and each commitment at the global leaf position
  \<open>treeNumber * L + startPosition + index\<close> with no carry lost between trees.\<close>

theorem ingest_chain_logs_exact:
  assumes "distinct (event_signatures A)" and "ingest_chain_logs A L logs = Inr b"
  shows "map (transact_view L) (transact_commitments b) = concat (map (expected_transacts A L) logs)
       \<and> map (shield_view L) (shield_commitments b) = concat (map (expected_shields A L) logs)
       \<and> map nullifier_view (nullifiers b) = concat (map (expected_nullifiers A) logs)"
proof -
  from assms(2) have "batch_views L b = (concat (map (expected_transacts A L) logs),
      concat (map (expected_shields A L) logs), concat (map (expected_nullifiers A) logs))"
  proof (induction logs arbitrary: b)
    case Nil
    then show ?case by (auto simp: ingest_chain_logs_def batch_views_def empty_batch_def)
  next
    case (Cons log logs)
    then show ?case
      by (auto simp: ingest_Cons result_simps
          intro!: batch_views_append ingest_log_views [OF assms(1)])
  qed
  then show ?thesis by (simp add: batch_views_def)
qed

theorem ingest_chain_logs_exact_witness:
  "\<exists>b. ingest_chain_logs sample_events 65536 [sample_log 8 0 0, sample_log 8 1 3] = Inr b
     \<and> map (transact_view 65536) (transact_commitments b)
         = [(131071, 5, Some [1], sample_source 8 0), (131072, 6, None, sample_source 8 0)]
     \<and> map (shield_view 65536) (shield_commitments b) = []
     \<and> map nullifier_view (nullifiers b) = [(1, 9, sample_source 8 1)]"
proof -
  let ?logs = "[sample_log 8 0 0, sample_log 8 1 3]"
  obtain b where b: "ingest_chain_logs sample_events 65536 ?logs = Inr b"
    using sample_events_ok(2) by (cases "ingest_chain_logs sample_events 65536 ?logs") auto
  have upt2: "[0..<2] = [0, Suc 0]" by (simp add: upt_rec)
  show ?thesis
    using ingest_chain_logs_exact [OF sample_events_ok(1) b] b
    by (intro exI [of _ b]) (simp add: expected_transacts_def expected_shields_def upt2
        expected_nullifiers_def sample_events_def sample_abi_def sample_log_def topic0_def
        source_from_log_def sample_source_def get_at_def)
qed

end
