(* ===== verification/Calldata.thy ===== *)
theory Calldata
  imports Chain_Types
begin

text \<open>
  Reading Railgun transactions out of calldata (\<open>chain_logs.rs\<close>,
  \<open>decode_railgun_transactions\<close>, the \<open>try_from_*\<close> conversions,
  \<open>collect_nested_railgun_transactions\<close>, \<open>unshield_commitment_from_event\<close>,
  \<open>railgun_txid_from_parts\<close>).

  The ABI decoders of the contract bindings are the fields of \<open>calldata_abi\<close>; a decoder of a call
  that can carry further calls returns their data as well. The hash functions of the Railgun
  library, ABI encoding and the printing of a hash are the fields of \<open>railgun_lib\<close>.
\<close>

record modern_transaction =
  mt_nullifiers :: "bytes32 list"
  mt_commitments :: "bytes32 list"
  mt_unshield :: u8
  mt_treeNumber :: u16
  mt_boundParams :: bytes
  mt_unshieldPreimage :: commitment_preimage

record legacy_transaction =
  lt_nullifiers :: "u256 list"
  lt_commitments :: "u256 list"
  lt_withdraw :: u8
  lt_treeNumber :: u16
  lt_boundParams :: bytes
  lt_unshieldPreimage :: legacy_commitment_preimage

record calldata_abi =
  dec_transactCall :: "bytes \<Rightarrow> modern_transaction list option"
  dec_relayCall :: "bytes \<Rightarrow> (modern_transaction list \<times> bytes list) option"
  dec_executeCall :: "bytes \<Rightarrow> (modern_transaction list \<times> bytes list) option"
  dec_execute7702Call :: "bytes \<Rightarrow> (modern_transaction list \<times> bytes list) option"
  dec_multicall7702Call :: "bytes \<Rightarrow> bytes list option"
  dec_multicallCall :: "bytes \<Rightarrow> bytes list option"
  dec_handleOpsCall :: "bytes \<Rightarrow> bytes list option"
  dec_legacy_relayCall :: "bytes \<Rightarrow> legacy_transaction list option"
  dec_legacy_transactCall :: "bytes \<Rightarrow> legacy_transaction list option"

record railgun_lib =
  preimage_hash :: "commitment_preimage \<Rightarrow> u256"
  legacy_preimage_hash :: "legacy_commitment_preimage \<Rightarrow> u256"
  preimage_abi_encode :: "commitment_preimage \<Rightarrow> bytes"
  bound_params_hash_of :: "bytes \<Rightarrow> bytes32"
  hash_to_scalar :: "bytes \<Rightarrow> u256"
  compute_railgun_txid :: "modern_transaction \<Rightarrow> u256 option"
  compute_railgun_txid_parts :: "u256 list \<Rightarrow> u256 list \<Rightarrow> u256 \<Rightarrow> u256"
  show_hash :: "bytes32 \<Rightarrow> string"

definition NESTED_CALLDATA_MAX_DEPTH :: nat where
  "NESTED_CALLDATA_MAX_DEPTH = 4"

definition railgun_txid_from_parts ::
  "railgun_lib \<Rightarrow> bytes32 list \<Rightarrow> bytes32 list \<Rightarrow> bytes32 \<Rightarrow> u256" where
  "railgun_txid_from_parts R nfs commitments bound_params_hash =
     compute_railgun_txid_parts R nfs commitments bound_params_hash"

definition legacy_bound_params_hash :: "railgun_lib \<Rightarrow> legacy_transaction \<Rightarrow> bytes32" where
  "legacy_bound_params_hash R transaction = hash_to_scalar R (lt_boundParams transaction)"

definition try_from_modern_transaction ::
  "railgun_lib \<Rightarrow> railgun_call_kind \<Rightarrow> modern_transaction \<Rightarrow> decoded_railgun_transaction ingested" where
  "try_from_modern_transaction R call_kind transaction =
     and_then (ok_or TransactDecode (compute_railgun_txid R transaction)) (\<lambda>railgun_txid.
       let has_unshield = mt_unshield transaction \<noteq> 0
       in Inr \<lparr>dt_call_kind = call_kind,
               dt_nullifiers = mt_nullifiers transaction,
               dt_commitments = mt_commitments transaction,
               dt_bound_params_hash = bound_params_hash_of R (mt_boundParams transaction),
               dt_has_unshield = has_unshield,
               dt_unshield_preimage =
                 (if has_unshield then Some (preimage_abi_encode R (mt_unshieldPreimage transaction))
                  else None),
               dt_utxo_tree_in = ucast (mt_treeNumber transaction),
               dt_railgun_txid = railgun_txid\<rparr>)"

definition try_from_legacy_transaction_with_kind ::
  "railgun_lib \<Rightarrow> railgun_call_kind \<Rightarrow> legacy_transaction \<Rightarrow> decoded_railgun_transaction" where
  "try_from_legacy_transaction_with_kind R call_kind transaction =
     (let bound_params_hash = legacy_bound_params_hash R transaction;
          nfs = lt_nullifiers transaction;
          commitments = lt_commitments transaction;
          has_unshield = lt_withdraw transaction \<noteq> 0;
          preimage = lt_unshieldPreimage transaction
      in \<lparr>dt_call_kind = call_kind,
          dt_nullifiers = nfs,
          dt_commitments = commitments,
          dt_bound_params_hash = bound_params_hash,
          dt_has_unshield = has_unshield,
          dt_unshield_preimage =
            (if has_unshield then
               Some (preimage_abi_encode R
                 \<lparr>npk = legacy_npk preimage, token = legacy_token preimage,
                  preimage_value = legacy_value preimage\<rparr>)
             else None),
          dt_utxo_tree_in = ucast (lt_treeNumber transaction),
          dt_railgun_txid = compute_railgun_txid_parts R nfs commitments bound_params_hash\<rparr>)"

definition decode_railgun_transactions ::
  "calldata_abi \<Rightarrow> railgun_lib \<Rightarrow> bytes \<Rightarrow> decoded_railgun_transaction list option ingested" where
  "decode_railgun_transactions C R calldata =
     (case dec_transactCall C calldata of
        Some transactions \<Rightarrow>
          and_then (traverse (try_from_modern_transaction R TransactCall) transactions)
            (\<lambda>ts. Inr (Some ts))
      | None \<Rightarrow>
     (case dec_relayCall C calldata of
        Some (transactions, _) \<Rightarrow>
          and_then (traverse (try_from_modern_transaction R Relay) transactions) (\<lambda>ts. Inr (Some ts))
      | None \<Rightarrow>
     (case dec_legacy_relayCall C calldata of
        Some transactions \<Rightarrow>
          Inr (Some (map (try_from_legacy_transaction_with_kind R LegacyRelay) transactions))
      | None \<Rightarrow>
     (case dec_executeCall C calldata of
        Some (transactions, _) \<Rightarrow>
          and_then (traverse (try_from_modern_transaction R Execute) transactions) (\<lambda>ts. Inr (Some ts))
      | None \<Rightarrow>
     (case dec_legacy_transactCall C calldata of
        Some transactions \<Rightarrow>
          Inr (Some (map (try_from_legacy_transaction_with_kind R LegacyTransact) transactions))
      | None \<Rightarrow> Inr None)))))"

text \<open>The transactions a call carries itself and the calldata nested in it; \<open>None\<close> when no
  decoder accepts it.\<close>

definition enter_calldata ::
  "calldata_abi \<Rightarrow> bytes \<Rightarrow> (modern_transaction list \<times> bytes list) option" where
  "enter_calldata C calldata =
     (case dec_transactCall C calldata of Some transactions \<Rightarrow> Some (transactions, [])
      | None \<Rightarrow>
     (case dec_relayCall C calldata of Some call \<Rightarrow> Some call
      | None \<Rightarrow>
     (case dec_executeCall C calldata of Some call \<Rightarrow> Some call
      | None \<Rightarrow>
     (case dec_execute7702Call C calldata of Some call \<Rightarrow> Some call
      | None \<Rightarrow>
     (case dec_multicall7702Call C calldata of Some calls \<Rightarrow> Some ([], calls)
      | None \<Rightarrow>
     (case dec_multicallCall C calldata of Some calls \<Rightarrow> Some ([], calls)
      | None \<Rightarrow>
     (case dec_handleOpsCall C calldata of Some ops \<Rightarrow> Some ([], ops)
      | None \<Rightarrow> None)))))))"

function collect_nested_railgun_transactions ::
  "calldata_abi \<Rightarrow> bytes \<Rightarrow> nat \<Rightarrow> modern_transaction list \<Rightarrow> modern_transaction list" where
  "collect_nested_railgun_transactions C calldata depth transactions =
     (if NESTED_CALLDATA_MAX_DEPTH < depth then transactions
      else case enter_calldata C calldata of
             None \<Rightarrow> transactions
           | Some (own, nested_calldata) \<Rightarrow>
               fold (\<lambda>inner. collect_nested_railgun_transactions C inner (depth + 1))
                 nested_calldata (transactions @ own))"
  by pat_completeness auto
termination
  by (relation "measure (\<lambda>(C, calldata, depth, transactions). Suc NESTED_CALLDATA_MAX_DEPTH - depth)")
    auto

declare collect_nested_railgun_transactions.simps [simp del]

definition unshield_commitment_from_event ::
  "railgun_lib \<Rightarrow> unshield_event \<Rightarrow> (bytes32 \<times> commitment_preimage) ingested" where
  "unshield_commitment_from_event R unshield =
     and_then
       (ok_or (IntegerOverflow ''unshield_value'')
          (case checked_add (unshield_amount unshield) (unshield_fee unshield) of
             None \<Rightarrow> None
           | Some v \<Rightarrow> try_from_word v))
       (\<lambda>v. let preimage = \<lparr>npk = ucast (unshield_to unshield), token = unshield_token unshield,
                            preimage_value = v\<rparr>
            in Inr (preimage_hash R preimage, preimage))"

section \<open>Facts\<close>

text \<open>The commitments of a transaction that came from a \<open>Transact\<close> log.\<close>

definition tx_outputs :: "decoded_railgun_transaction \<Rightarrow> bytes32 list" where
  "tx_outputs t = (if dt_has_unshield t then butlast (dt_commitments t) else dt_commitments t)"

text \<open>The reference for the walk through nested calls: everything reachable in \<open>n\<close> levels, a call's
  own transactions before those of the calls nested in it.\<close>

primrec reachable_transactions :: "calldata_abi \<Rightarrow> nat \<Rightarrow> bytes \<Rightarrow> modern_transaction list" where
  "reachable_transactions C 0 calldata = []"
| "reachable_transactions C (Suc n) calldata =
     (case enter_calldata C calldata of
        None \<Rightarrow> []
      | Some (own, nested) \<Rightarrow> own @ concat (map (reachable_transactions C n) nested))"

lemma collect_nested_reachable:
  "collect_nested_railgun_transactions C calldata depth transactions =
     transactions @ reachable_transactions C (Suc NESTED_CALLDATA_MAX_DEPTH - depth) calldata"
proof (induction C calldata depth transactions rule: collect_nested_railgun_transactions.induct)
  case (1 C calldata depth transactions)
  show ?case
  proof (cases "NESTED_CALLDATA_MAX_DEPTH < depth")
    case True
    then show ?thesis by (subst collect_nested_railgun_transactions.simps) simp
  next
    case False
    then have n: "Suc NESTED_CALLDATA_MAX_DEPTH - depth = Suc (NESTED_CALLDATA_MAX_DEPTH - depth)"
      by simp
    show ?thesis
    proof (cases "enter_calldata C calldata")
      case None
      with False show ?thesis by (subst collect_nested_railgun_transactions.simps) (simp add: n)
    next
      case (Some call)
      obtain own nested where call: "call = (own, nested)" by (cases call)
      have "fold (\<lambda>inner. collect_nested_railgun_transactions C inner (depth + 1)) xs acc
          = acc @ concat (map (reachable_transactions C (NESTED_CALLDATA_MAX_DEPTH - depth)) xs)"
        if "set xs \<subseteq> set nested" for xs acc
        using that
      proof (induction xs arbitrary: acc)
        case (Cons x xs)
        then show ?case
          using 1 [OF False Some call [symmetric], of x] by simp
      qed simp
      then show ?thesis
        using False Some call
        by (subst collect_nested_railgun_transactions.simps) (simp add: n)
    qed
  qed
qed

lemma unshield_commitment_ok:
  assumes "unat (unshield_amount u) + unat (unshield_fee u) < 2 ^ 120"
  shows "unshield_commitment_from_event R u =
    (let preimage = \<lparr>npk = ucast (unshield_to u), token = unshield_token u,
       preimage_value = word_of_nat (unat (unshield_amount u) + unat (unshield_fee u))\<rparr>
     in Inr (preimage_hash R preimage, preimage))"
proof -
  have "unat (unshield_amount u) + unat (unshield_fee u) < 2 ^ LENGTH(256)"
    using assms by simp
  then obtain v :: u256 where v: "unat v = unat (unshield_amount u) + unat (unshield_fee u)"
    by (rule unat_surj)
  then have "checked_add (unshield_amount u) (unshield_fee u) = Some v"
    by (simp add: checked_simps)
  moreover have "(try_from_word v :: 120 word option) = Some (word_of_nat (unat v))"
    using assms v unat_word_of_nat [of "unat v", where ?'a = 120]
    by (simp only: try_from_word_Some_iff) simp
  ultimately show ?thesis
    using v by (simp add: unshield_commitment_from_event_def)
qed

text \<open>A library with simple functions, for the instances of later theories.\<close>

definition sample_lib :: railgun_lib where
  "sample_lib = \<lparr>preimage_hash = \<lambda>p. npk p + ucast (preimage_value p), legacy_preimage_hash = legacy_npk,
     preimage_abi_encode = \<lambda>p. [ucast (npk p)], bound_params_hash_of = \<lambda>_. 3, hash_to_scalar = \<lambda>_. 4,
     compute_railgun_txid = \<lambda>_. Some 5,
     compute_railgun_txid_parts = \<lambda>nfs cs bph. sum_list nfs + sum_list cs + bph,
     show_hash = \<lambda>_. ''0x''\<rparr>"

end
