(* ===== verification/Action_Logs.thy ===== *)
theory Action_Logs
  imports Calldata
begin

text \<open>
  Rebuilding Railgun transactions from logs (\<open>chain_logs.rs\<close>,
  \<open>action_log_events_by_transaction\<close>, \<open>decoded_transactions_from_action_logs\<close>,
  \<open>transactions_from_action_frame\<close>). The logs of one outer transaction are read by a stack
  machine: \<open>Nullified\<close> logs queue up for the next \<open>Action\<close>, which opens a frame; \<open>Unshield\<close> logs
  go to the innermost open frame; \<open>Transact\<close>, or the last awaited \<open>Unshield\<close> of a call without
  output commitments, closes it. \<open>action_step\<close> is the loop body, with the innermost frame first in
  the list of frames (the code keeps it last).

  A \<open>BTreeMap\<close> keyed by log index is the list of its entries in key order.
\<close>

datatype action_log_event =
    NullifiedEvent u32 "bytes32 list"
  | ActionEvent "tx_config list"
  | UnshieldEvent unshield_event
  | TransactEvent "bytes32 list"

record action_frame =
  fr_log_index :: u64
  fr_record_base :: nat
  fr_configs :: "tx_config list"
  fr_nullified :: "(u32 \<times> bytes32 list) list"
  fr_unshields :: "unshield_event list"
  fr_expects_transact :: bool

definition pending_unshields :: "action_frame \<Rightarrow> nat" where
  "pending_unshields frame =
     length (filter hasUnshield (fr_configs frame)) - length (fr_unshields frame)"

section \<open>Grouping a batch by transaction\<close>

fun bt_insert :: "u64 \<Rightarrow> 'v \<Rightarrow> (u64 \<times> 'v) list \<Rightarrow> (u64 \<times> 'v) list" where
  "bt_insert k v [] = [(k, v)]"
| "bt_insert k v ((k', v') # m) =
     (if k < k' then (k, v) # (k', v') # m
      else if k = k' then (k, v) # m
      else (k', v') # bt_insert k v m)"

type_synonym action_events = "bytes32 \<Rightarrow> (u64 \<times> action_log_event) list"

definition put_event ::
  "indexed_log_source \<Rightarrow> (action_log_event option \<Rightarrow> action_log_event) \<Rightarrow> action_events \<Rightarrow> action_events"
  where
  "put_event src f events =
     events(transaction_hash src :=
       bt_insert (log_index src) (f (map_of (events (transaction_hash src)) (log_index src)))
         (events (transaction_hash src)))"

text \<open>The entry of a \<open>Nullified\<close> log collects the nullifiers of that log; an entry of another kind
  under the same log index is left alone.\<close>

definition push_nullified :: "indexed_nullifier \<Rightarrow> action_log_event option \<Rightarrow> action_log_event" where
  "push_nullified item entry =
     (case entry of
        None \<Rightarrow> NullifiedEvent (nf_tree_number item) [nf_nullifier item]
      | Some (NullifiedEvent tree_number nfs) \<Rightarrow> NullifiedEvent tree_number (nfs @ [nf_nullifier item])
      | Some other \<Rightarrow> other)"

definition push_transact ::
  "indexed_transact_commitment \<Rightarrow> action_log_event option \<Rightarrow> action_log_event" where
  "push_transact item entry =
     (case entry of
        None \<Rightarrow> TransactEvent [tc_hash item]
      | Some (TransactEvent hashes) \<Rightarrow> TransactEvent (hashes @ [tc_hash item])
      | Some other \<Rightarrow> other)"

definition action_log_events_by_transaction :: "indexed_log_batch \<Rightarrow> u64 \<Rightarrow> action_events" where
  "action_log_events_by_transaction batch action_start_block =
     (let is_active = (\<lambda>src. action_start_block \<le> block_number src);
          events = (\<lambda>_. []);
          events = fold (\<lambda>item. put_event (nf_source item) (push_nullified item))
            (filter (\<lambda>item. is_active (nf_source item)) (nullifiers batch)) events;
          events = fold (\<lambda>item. put_event (tc_source item) (push_transact item))
            (filter (\<lambda>item. is_active (tc_source item)) (transact_commitments batch)) events;
          events = fold (\<lambda>item. put_event (ac_source item) (\<lambda>_. ActionEvent (ac_txconfigs item)))
            (filter (\<lambda>item. is_active (ac_source item)) (actions batch)) events
      in fold (\<lambda>item. put_event (us_source item) (\<lambda>_. UnshieldEvent (us_unshield item)))
           (filter (\<lambda>item. is_active (us_source item)) (unshields batch)) events)"

section \<open>One call's transactions\<close>

type_synonym action_transactions = "(nat \<times> decoded_railgun_transaction) list"
type_synonym action_call = "u64 option \<times> action_transactions"

definition action_transaction ::
  "railgun_lib \<Rightarrow> tx_config \<Rightarrow> u32 \<Rightarrow> bytes32 list \<Rightarrow> bytes32 list \<Rightarrow> bytes option
   \<Rightarrow> decoded_railgun_transaction" where
  "action_transaction R config tree_number nfs commitments unshield_preimage =
     \<lparr>dt_call_kind = ActionLogs, dt_nullifiers = nfs, dt_commitments = commitments,
      dt_bound_params_hash = boundParamsHash config, dt_has_unshield = hasUnshield config,
      dt_unshield_preimage = unshield_preimage, dt_utxo_tree_in = ucast tree_number,
      dt_railgun_txid = railgun_txid_from_parts R nfs commitments (boundParamsHash config)\<rparr>"

definition take_unshield ::
  "railgun_lib \<Rightarrow> chain_log_ingestion_error \<Rightarrow> tx_config \<Rightarrow> unshield_event list
   \<Rightarrow> (bytes32 list \<times> bytes option \<times> unshield_event list) ingested" where
  "take_unshield R missing config us =
     (if hasUnshield config then
        (case us of
           [] \<Rightarrow> Inl missing
         | u # us' \<Rightarrow>
             and_then (unshield_commitment_from_event R u) (\<lambda>(commitment, preimage).
               Inr ([commitment], Some (preimage_abi_encode R preimage), us')))
      else Inr ([], None, us))"

fun frame_transactions ::
  "railgun_lib \<Rightarrow> chain_log_ingestion_error \<Rightarrow> chain_log_ingestion_error \<Rightarrow> bytes32 list \<Rightarrow> nat \<Rightarrow> nat
   \<Rightarrow> unshield_event list \<Rightarrow> (tx_config \<times> u32 \<times> bytes32 list) list \<Rightarrow> (nat \<times> action_transactions) ingested"
  where
  "frame_transactions R mismatch missing hashes record_index offset us [] = Inr (offset, [])"
| "frame_transactions R mismatch missing hashes record_index offset us ((config, tree_number, nfs) # rest) =
     (let end = offset + unat (commitmentsCount config)
      in if 2 ^ 64 \<le> end then Inl (IntegerOverflow ''action_commitment_offset'')
         else if length hashes < end then Inl mismatch
         else
           and_then (take_unshield R missing config us) (\<lambda>(unshield_commitment, preimage, us').
             let commitments = take (end - offset) (drop offset hashes) @ unshield_commitment
             in and_then
                  (frame_transactions R mismatch missing hashes (record_index + 1) end us' rest)
                  (\<lambda>(final, transactions).
                    Inr (final,
                      (record_index, action_transaction R config tree_number nfs commitments preimage)
                      # transactions))))"

definition transactions_from_action_frame ::
  "railgun_lib \<Rightarrow> transact_output_summary \<Rightarrow> action_frame \<Rightarrow> bytes32 list \<Rightarrow> u64
   \<Rightarrow> action_transactions ingested" where
  "transactions_from_action_frame R summary frame hashes log_idx =
     (let tx = transaction_hash (sm_source summary);
          bn = block_number (sm_source summary);
          mismatch = ActionCommitmentCountMismatch tx bn log_idx;
          missing = MissingActionUnshield tx bn (fr_log_index frame)
      in if 0 < pending_unshields frame then Inl missing
         else
           and_then (frame_transactions R mismatch missing hashes (fr_record_base frame) 0
               (fr_unshields frame) (zip (fr_configs frame) (fr_nullified frame)))
             (\<lambda>(offset, transactions).
               if offset \<noteq> length hashes then Inl mismatch else Inr transactions))"

section \<open>The stack machine\<close>

record action_state =
  as_pending_nullified :: "(u64 \<times> u32 \<times> bytes32 list) list"
  as_frames :: "action_frame list"
  as_next_record_index :: nat
  as_decoded :: "action_call list"

definition action_init :: action_state where
  "action_init = \<lparr>as_pending_nullified = [], as_frames = [], as_next_record_index = 0, as_decoded = []\<rparr>"

definition handle_event ::
  "railgun_lib \<Rightarrow> transact_output_summary \<Rightarrow> action_state \<Rightarrow> u64 \<Rightarrow> action_log_event \<Rightarrow> action_state ingested"
  where
  "handle_event R summary st log_idx event =
     (let tx = transaction_hash (sm_source summary); bn = block_number (sm_source summary) in
      case event of
        NullifiedEvent tree_number nfs \<Rightarrow>
          Inr (st\<lparr>as_pending_nullified := as_pending_nullified st @ [(log_idx, tree_number, nfs)]\<rparr>)
      | ActionEvent configs \<Rightarrow>
          if \<not> (length (as_pending_nullified st) = length configs
                \<and> list_all (\<lambda>((_, _, nfs), config). unat (nullifiersCount config) = length nfs)
                    (zip (as_pending_nullified st) configs))
          then Inl (ActionNullifierCountMismatch tx bn log_idx)
          else if configs = [] then Inr st
          else Inr (st\<lparr>as_next_record_index := as_next_record_index st + length configs,
                 as_frames := \<lparr>fr_log_index = log_idx, fr_record_base = as_next_record_index st,
                            fr_configs = configs,
                            fr_nullified = map (\<lambda>(_, tree_number, nfs). (tree_number, nfs))
                              (as_pending_nullified st),
                            fr_unshields = [],
                            fr_expects_transact =
                              list_ex (\<lambda>config. 0 < commitmentsCount config) configs\<rparr> # as_frames st,
                 as_pending_nullified := []\<rparr>)
      | UnshieldEvent unshield \<Rightarrow>
          (case as_frames st of
             [] \<Rightarrow> Inl (UnmatchedActionLog tx bn log_idx)
           | frame # rest \<Rightarrow>
               if 0 < pending_unshields frame then
                 Inr (st\<lparr>as_frames := frame\<lparr>fr_unshields := fr_unshields frame @ [unshield]\<rparr> # rest\<rparr>)
               else Inl (UnmatchedActionLog tx bn log_idx))
      | TransactEvent hashes \<Rightarrow>
          (case as_frames st of
             [] \<Rightarrow> Inl (UnmatchedActionLog tx bn log_idx)
           | frame # rest \<Rightarrow>
               if fr_expects_transact frame then
                 and_then (transactions_from_action_frame R summary frame hashes log_idx) (\<lambda>ts.
                   Inr (st\<lparr>as_frames := rest, as_decoded := as_decoded st @ [(Some log_idx, ts)]\<rparr>))
               else Inl (UnmatchedActionLog tx bn log_idx)))"

definition close_completed ::
  "railgun_lib \<Rightarrow> transact_output_summary \<Rightarrow> action_state \<Rightarrow> action_state ingested" where
  "close_completed R summary st =
     (case as_frames st of
        [] \<Rightarrow> Inr st
      | frame # rest \<Rightarrow>
          if \<not> fr_expects_transact frame \<and> pending_unshields frame = 0 then
            and_then (transactions_from_action_frame R summary frame [] (fr_log_index frame)) (\<lambda>ts.
              Inr (st\<lparr>as_frames := rest, as_decoded := as_decoded st @ [(None, ts)]\<rparr>))
          else Inr st)"

definition action_step ::
  "railgun_lib \<Rightarrow> transact_output_summary \<Rightarrow> action_state \<Rightarrow> u64 \<times> action_log_event \<Rightarrow> action_state ingested"
  where
  "action_step R summary st =
     (\<lambda>(log_idx, event).
        and_then (handle_event R summary st log_idx event) (close_completed R summary))"

definition action_finish ::
  "transact_output_summary \<Rightarrow> action_state \<Rightarrow> action_call list ingested" where
  "action_finish summary st =
     (let tx = transaction_hash (sm_source summary); bn = block_number (sm_source summary) in
      case as_pending_nullified st of
        (log_idx, _) # _ \<Rightarrow> Inl (ActionNullifierCountMismatch tx bn log_idx)
      | [] \<Rightarrow>
          (case as_frames st of
             frame # _ \<Rightarrow>
               Inl (if 0 < pending_unshields frame
                    then MissingActionUnshield tx bn (fr_log_index frame)
                    else ActionCommitmentCountMismatch tx bn (fr_log_index frame))
           | [] \<Rightarrow> Inr (as_decoded st)))"

definition decoded_transactions_from_action_logs ::
  "railgun_lib \<Rightarrow> transact_output_summary \<Rightarrow> (u64 \<times> action_log_event) list \<Rightarrow> action_call list ingested"
  where
  "decoded_transactions_from_action_logs R summary events =
     and_then (try_fold (action_step R summary) action_init events) (action_finish summary)"

end
