(* ===== verification/Output_Match.thy ===== *)
theory Output_Match
  imports Tree_Position Calldata
begin

text \<open>
  Matching decoded transactions with the commitments their outer transaction emitted
  (\<open>chain_logs.rs\<close>, \<open>public_transactions_from_decoded\<close> and the functions it calls), which gives
  every public transaction the tree and leaf where its outputs start.

  The emitted outputs are sorted by position and consumed in that order by modern transactions;
  legacy transactions look for their outputs near the nullifier log they match, legacy relays count
  from the first legacy output. \<open>match_step\<close> is the body of the loop over the transactions;
  \<open>matched_output_start_global\<close> returns the advanced index besides its result.
\<close>

definition MODERN_UNSHIELD_ONLY_UTXO_TREE :: u64 where
  "MODERN_UNSHIELD_ONLY_UTXO_TREE = 99999"

definition MODERN_UNSHIELD_ONLY_UTXO_POSITION :: u64 where
  "MODERN_UNSHIELD_ONLY_UTXO_POSITION = 99999"

definition is_modern_unshield_only :: "decoded_railgun_transaction \<Rightarrow> bool" where
  "is_modern_unshield_only transaction \<longleftrightarrow>
     dt_has_unshield transaction \<and> length (dt_commitments transaction) = 1
     \<and> dt_call_kind transaction \<in> {TransactCall, Relay, Execute, ActionLogs}"

definition unmatched_outputs :: "transact_output_summary \<Rightarrow> nat \<Rightarrow> chain_log_ingestion_error" where
  "unmatched_outputs summary transaction_index =
     UnmatchedTransactionOutputCommitments (transaction_hash (sm_source summary))
       (block_number (sm_source summary)) transaction_index"

definition emitted_global :: "u64 \<Rightarrow> emitted_output_commitment \<Rightarrow> u64 ingested" where
  "emitted_global L emitted = global_tree_position L (eo_tree_number emitted) (eo_tree_position emitted)"

definition matched_modern_unshield_only_output_start_global ::
  "u64 \<Rightarrow> transact_output_summary \<Rightarrow> emitted_output_commitment list \<Rightarrow> nat \<Rightarrow> nat \<Rightarrow> output_match ingested"
  where
  "matched_modern_unshield_only_output_start_global L summary emitted_outputs emitted_index
       transaction_index =
     (case get_at emitted_outputs emitted_index of
        Some emitted \<Rightarrow>
          and_then (emitted_global L emitted) (\<lambda>start.
            Inr \<lparr>output_start = start, om_last_log_index = eo_log_index emitted\<rparr>)
      | None \<Rightarrow>
          if emitted_outputs = [] then
            Inr \<lparr>output_start = 0, om_last_log_index = sm_first_log_index summary\<rparr>
          else
            (case (if emitted_index = 0 then None else get_at emitted_outputs (emitted_index - 1)) of
               None \<Rightarrow> Inl (unmatched_outputs summary transaction_index)
             | Some previous \<Rightarrow>
                 and_then (emitted_global L previous) (\<lambda>position.
                 and_then (ok_or (IntegerOverflow ''modern_unshield_only_output_start'')
                     (checked_add position 1)) (\<lambda>start.
                   Inr \<lparr>output_start = start, om_last_log_index = eo_log_index previous\<rparr>))))"

text \<open>The loop over the commitments of a transaction: the index of the next emitted output, the start
  found so far and the last log matched.\<close>

fun match_commitments ::
  "u64 \<Rightarrow> emitted_output_commitment list \<Rightarrow> nat \<Rightarrow> u64 option \<Rightarrow> u64 option \<Rightarrow> bytes32 list
   \<Rightarrow> (nat \<times> u64 option \<times> u64 option) ingested" where
  "match_commitments L emitted_outputs emitted_index start last_log [] = Inr (emitted_index, start, last_log)"
| "match_commitments L emitted_outputs emitted_index start last_log (commitment # commitments) =
     (case get_at emitted_outputs emitted_index of
        None \<Rightarrow> Inr (emitted_index, start, last_log)
      | Some emitted \<Rightarrow>
          if eo_hash emitted = commitment then
            and_then
              (case start of
                 Some s \<Rightarrow> Inr s
               | None \<Rightarrow> emitted_global L emitted)
              (\<lambda>start'. match_commitments L emitted_outputs (emitted_index + 1) (Some start')
                 (Some (eo_log_index emitted)) commitments)
          else match_commitments L emitted_outputs emitted_index start last_log commitments)"

definition match_without_generated ::
  "u64 \<Rightarrow> transact_output_summary \<Rightarrow> emitted_output_commitment list \<Rightarrow> decoded_railgun_transaction \<Rightarrow> nat
   \<Rightarrow> nat \<Rightarrow> u64 option \<Rightarrow> u64 option \<Rightarrow> (output_match \<times> nat) ingested" where
  "match_without_generated L summary emitted_outputs transaction transaction_index index start last_log =
     (if start = None \<and> is_modern_unshield_only transaction then
        and_then (matched_modern_unshield_only_output_start_global L summary emitted_outputs index
            transaction_index) (\<lambda>m. Inr (m, index))
      else
        (case start of
           None \<Rightarrow> Inl (unmatched_outputs summary transaction_index)
         | Some s \<Rightarrow>
             Inr (\<lparr>output_start = s,
                   om_last_log_index = (case last_log of None \<Rightarrow> sm_first_log_index summary
                     | Some l \<Rightarrow> l)\<rparr>, index)))"

definition matched_output_start_global ::
  "u64 \<Rightarrow> transact_output_summary \<Rightarrow> emitted_output_commitment list \<Rightarrow> nat
   \<Rightarrow> decoded_railgun_transaction \<Rightarrow> nat \<Rightarrow> (output_match \<times> nat) ingested" where
  "matched_output_start_global L summary emitted_outputs emitted_index transaction transaction_index =
     and_then (match_commitments L emitted_outputs emitted_index None None (dt_commitments transaction))
       (\<lambda>(index, start, last_log).
         case (if dt_has_unshield transaction then get_at emitted_outputs index else None) of
           Some emitted \<Rightarrow>
             if eo_family emitted = LegacyGenerated then
               and_then (emitted_global L emitted) (\<lambda>s.
                 Inr (\<lparr>output_start = s, om_last_log_index = eo_log_index emitted\<rparr>, index + 1))
             else match_without_generated L summary emitted_outputs transaction transaction_index
               index start last_log
         | None \<Rightarrow> match_without_generated L summary emitted_outputs transaction transaction_index
             index start last_log)"

fun is_legacy_family :: "emitted_output_family \<Rightarrow> bool" where
  "is_legacy_family TransactFamily = False"
| "is_legacy_family LegacyEncrypted = True"
| "is_legacy_family LegacyGenerated = True"

text \<open>The scan for the first legacy outputs: the first generated, the first encrypted, the last
  log.\<close>

fun scan_legacy ::
  "u64 \<Rightarrow> emitted_output_commitment list \<Rightarrow> u64 option \<Rightarrow> u64 option \<Rightarrow> u64
   \<Rightarrow> (u64 option \<times> u64 option \<times> u64) ingested" where
  "scan_legacy L [] generated encrypted last_log = Inr (generated, encrypted, last_log)"
| "scan_legacy L (emitted # rest) generated encrypted last_log =
     and_then (emitted_global L emitted) (\<lambda>g.
       scan_legacy L rest
         (if eo_family emitted = LegacyGenerated \<and> generated = None then Some g else generated)
         (if eo_family emitted = LegacyEncrypted \<and> encrypted = None then Some g else encrypted)
         (max last_log (eo_log_index emitted)))"

definition matched_relay_legacy_output_start_global ::
  "u64 \<Rightarrow> transact_output_summary \<Rightarrow> emitted_output_commitment list \<Rightarrow> u64 \<Rightarrow> nat \<Rightarrow> output_match ingested"
  where
  "matched_relay_legacy_output_start_global L summary emitted_outputs prior_commitment_count
       transaction_index =
     and_then (scan_legacy L (filter (\<lambda>e. is_legacy_family (eo_family e)) emitted_outputs) None None
         (sm_last_log_index summary))
       (\<lambda>(generated, encrypted, last_log).
         case (case generated of Some g \<Rightarrow> Some g | None \<Rightarrow> encrypted) of
           None \<Rightarrow> Inl (unmatched_outputs summary transaction_index)
         | Some anchor \<Rightarrow>
             and_then (ok_or (IntegerOverflow ''relay_legacy_output_start'')
                 (checked_add anchor prior_commitment_count)) (\<lambda>start.
               Inr \<lparr>output_start = start, om_last_log_index = last_log\<rparr>))"

definition relay_legacy_output_count :: "decoded_railgun_transaction \<Rightarrow> u64 ingested" where
  "relay_legacy_output_count transaction =
     and_then (ok_or (IntegerOverflow ''commitment_count'')
         (try_from_len (length (dt_commitments transaction)))) (\<lambda>count.
       Inr (if dt_has_unshield transaction then saturating_sub count 1 else count))"

definition legacy_nullifier_group_index ::
  "transact_output_summary \<Rightarrow> decoded_railgun_transaction \<Rightarrow> nat \<Rightarrow> nat list \<Rightarrow> nat option ingested" where
  "legacy_nullifier_group_index summary transaction transaction_index used =
     (if sm_nullifier_groups summary = [] then Inr None
      else
        case map fst (filter (\<lambda>(index, group).
               index \<notin> set used \<and> ng_nullifiers group = dt_nullifiers transaction)
               (enumerate 0 (sm_nullifier_groups summary))) of
          [index] \<Rightarrow> Inr (Some index)
        | [] \<Rightarrow> Inl (MissingTransactionNullifierGroup (transaction_hash (sm_source summary))
                   (block_number (sm_source summary)) transaction_index)
        | matches \<Rightarrow> Inl (AmbiguousTransactionNullifierGroup (transaction_hash (sm_source summary))
                   (block_number (sm_source summary)) transaction_index (length matches)))"

definition legacy_output_candidates ::
  "emitted_output_commitment list \<Rightarrow> transact_output_summary \<Rightarrow> nat \<Rightarrow> emitted_output_commitment list"
  where
  "legacy_output_candidates emitted_outputs summary group_index =
     (let nullifier_log_index = log_index (ng_source (sm_nullifier_groups summary ! group_index));
          next_log_index = map_option (\<lambda>group. log_index (ng_source group))
            (get_at (sm_nullifier_groups summary) (group_index + 1));
          candidates = filter (\<lambda>output. nullifier_log_index < eo_log_index output
            \<and> (case next_log_index of None \<Rightarrow> True | Some nxt \<Rightarrow> eo_log_index output < nxt))
            emitted_outputs
      in if candidates = [] then emitted_outputs else candidates)"

fun try_starts ::
  "u64 \<Rightarrow> transact_output_summary \<Rightarrow> emitted_output_commitment list \<Rightarrow> decoded_railgun_transaction \<Rightarrow> nat
   \<Rightarrow> nat list \<Rightarrow> output_match ingested" where
  "try_starts L summary emitted_outputs transaction transaction_index [] =
     Inl (unmatched_outputs summary transaction_index)"
| "try_starts L summary emitted_outputs transaction transaction_index (start_index # rest) =
     (case matched_output_start_global L summary emitted_outputs start_index transaction
             transaction_index of
        Inr (m, _) \<Rightarrow> Inr m
      | Inl (UnmatchedTransactionOutputCommitments _ _ _) \<Rightarrow>
          try_starts L summary emitted_outputs transaction transaction_index rest
      | Inl e \<Rightarrow> Inl e)"

definition matched_legacy_output_start_global ::
  "u64 \<Rightarrow> transact_output_summary \<Rightarrow> emitted_output_commitment list \<Rightarrow> decoded_railgun_transaction \<Rightarrow> nat
   \<Rightarrow> output_match ingested" where
  "matched_legacy_output_start_global L summary emitted_outputs transaction transaction_index =
     try_starts L summary emitted_outputs transaction transaction_index [0..<length emitted_outputs]"

section \<open>The rows of a transaction\<close>

record match_state =
  emitted_index :: nat
  used_nullifier_groups :: "nat list"
  relay_legacy_commitment_offset :: u64
  uses_non_sequential :: bool
  matched_rows :: "indexed_public_transaction list"

definition public_row ::
  "railgun_lib \<Rightarrow> u64 \<Rightarrow> transact_output_summary \<Rightarrow> u64 \<Rightarrow> bool \<Rightarrow> nat \<Rightarrow> decoded_railgun_transaction
   \<Rightarrow> output_match \<Rightarrow> u64 \<Rightarrow> u64 \<Rightarrow> indexed_public_transaction ingested" where
  "public_row R L summary timestamp no_outputs transaction_index transaction m first_log last_log =
     and_then
       (if no_outputs \<and> is_modern_unshield_only transaction then
          Inr (MODERN_UNSHIELD_ONLY_UTXO_TREE, MODERN_UNSHIELD_ONLY_UTXO_POSITION)
        else and_then (normalized_global_position L (output_start m)) (\<lambda>(tree, position).
          Inr (ucast tree, position)))
       (\<lambda>(tree_out, position_out).
     and_then (ok_or (IntegerOverflow ''railgun_transaction_index'') (try_from_len transaction_index))
       (\<lambda>index.
         Inr \<lparr>pt_source = sm_source summary, pt_first_log_index = first_log,
              pt_last_log_index = last_log, pt_railgun_transaction_index = index,
              pt_id = show_hash R (transaction_hash (sm_source summary)) @ '':'' @
                show_nat transaction_index,
              pt_block_timestamp = timestamp,
              pt_nullifiers = dt_nullifiers transaction,
              pt_commitments = dt_commitments transaction,
              pt_bound_params_hash = dt_bound_params_hash transaction,
              pt_has_unshield = dt_has_unshield transaction,
              pt_unshield_preimage = dt_unshield_preimage transaction,
              pt_utxo_tree_in = dt_utxo_tree_in transaction,
              pt_utxo_tree_out = tree_out,
              pt_utxo_batch_start_position_out = position_out,
              pt_railgun_txid = dt_railgun_txid transaction\<rparr>))"

definition match_transaction ::
  "u64 \<Rightarrow> transact_output_summary \<Rightarrow> emitted_output_commitment list \<Rightarrow> match_state \<Rightarrow> nat
   \<Rightarrow> decoded_railgun_transaction \<Rightarrow> (output_match \<times> u64 \<times> u64 \<times> match_state) ingested" where
  "match_transaction L summary emitted_outputs st transaction_index transaction =
     (let sequential =
            and_then (matched_output_start_global L summary emitted_outputs (emitted_index st)
                transaction transaction_index)
              (\<lambda>(m, index). Inr (m, sm_first_log_index summary, sm_last_log_index summary,
                 st\<lparr>emitted_index := index\<rparr>));
          has_legacy_output_events = list_ex (\<lambda>e. is_legacy_family (eo_family e)) emitted_outputs
      in if dt_call_kind transaction = LegacyTransact then
           and_then (legacy_nullifier_group_index summary transaction transaction_index
               (used_nullifier_groups st)) (\<lambda>found.
             case found of
               None \<Rightarrow> sequential
             | Some group_index \<Rightarrow>
                 and_then (matched_legacy_output_start_global L summary
                     (legacy_output_candidates emitted_outputs summary group_index) transaction
                     transaction_index) (\<lambda>m.
                   let nullifier_log_index =
                         log_index (ng_source (sm_nullifier_groups summary ! group_index))
                   in Inr (m, nullifier_log_index, max nullifier_log_index (om_last_log_index m),
                        st\<lparr>used_nullifier_groups := group_index # used_nullifier_groups st,
                           uses_non_sequential := True\<rparr>)))
         else if dt_call_kind transaction \<in> {Relay, LegacyRelay} \<and> has_legacy_output_events then
           and_then (matched_relay_legacy_output_start_global L summary emitted_outputs
               (relay_legacy_commitment_offset st) transaction_index) (\<lambda>m.
           and_then (relay_legacy_output_count transaction) (\<lambda>count.
           and_then (ok_or (IntegerOverflow ''relay_legacy_commitment_offset'')
               (checked_add (relay_legacy_commitment_offset st) count)) (\<lambda>offset.
             Inr (m, sm_first_log_index summary, sm_last_log_index summary,
               st\<lparr>relay_legacy_commitment_offset := offset, uses_non_sequential := True\<rparr>))))
         else sequential)"

definition match_step ::
  "railgun_lib \<Rightarrow> u64 \<Rightarrow> transact_output_summary \<Rightarrow> u64 \<Rightarrow> emitted_output_commitment list \<Rightarrow> match_state
   \<Rightarrow> nat \<times> decoded_railgun_transaction \<Rightarrow> match_state ingested" where
  "match_step R L summary timestamp emitted_outputs st =
     (\<lambda>(transaction_index, transaction).
        and_then (match_transaction L summary emitted_outputs st transaction_index transaction)
          (\<lambda>(m, first_log, last_log, st').
        and_then (public_row R L summary timestamp (emitted_outputs = []) transaction_index transaction m
            first_log last_log) (\<lambda>row.
          Inr (st'\<lparr>matched_rows := matched_rows st' @ [row]\<rparr>))))"

definition match_init :: match_state where
  "match_init = \<lparr>emitted_index = 0, used_nullifier_groups = [], relay_legacy_commitment_offset = 0,
     uses_non_sequential = False, matched_rows = []\<rparr>"

definition sort_outputs :: "u64 \<Rightarrow> emitted_output_commitment list \<Rightarrow> emitted_output_commitment list" where
  "sort_outputs L outputs =
     sort_key (\<lambda>e. comparable_global_tree_position L (eo_tree_number e) (eo_tree_position e)) outputs"

definition public_transactions_from_decoded ::
  "railgun_lib \<Rightarrow> u64 \<Rightarrow> transact_output_summary \<Rightarrow> u64 \<Rightarrow> decoded_railgun_transaction list
   \<Rightarrow> indexed_public_transaction list ingested" where
  "public_transactions_from_decoded R L summary timestamp transactions =
     (let emitted_outputs = sort_outputs L (sm_output_commitments summary);
          uses_legacy_segments = list_ex (\<lambda>t. dt_call_kind t = LegacyTransact
            \<and> sm_nullifier_groups summary \<noteq> []) transactions
      in and_then
           (try_fold (match_step R L summary timestamp emitted_outputs) match_init
              (enumerate 0 transactions)) (\<lambda>st.
           if \<not> (uses_legacy_segments \<or> uses_non_sequential st)
              \<and> emitted_index st \<noteq> length emitted_outputs
           then Inl (UnmatchedEmittedOutputCommitments (transaction_hash (sm_source summary))
             (block_number (sm_source summary)) (emitted_index st) (length emitted_outputs))
           else Inr (matched_rows st)))"

section \<open>Transactions whose outputs were emitted in order\<close>

text \<open>The emitted outputs occupy consecutive leaves from global position \<open>g\<close> on.\<close>

definition consecutive :: "u64 \<Rightarrow> nat \<Rightarrow> emitted_output_commitment list \<Rightarrow> bool" where
  "consecutive L g outputs \<longleftrightarrow>
     map (\<lambda>e. unat (eo_tree_number e) * unat L + unat (eo_tree_position e)) outputs
       = [g..<g + length outputs]"

text \<open>Transactions of the modern entrypoints; the commitment of an unshield, which no log carries, is
  not also the next emitted output.\<close>

fun modern_transactions :: "decoded_railgun_transaction list \<Rightarrow> bool" where
  "modern_transactions [] \<longleftrightarrow> True"
| "modern_transactions (t # ts) \<longleftrightarrow>
     dt_call_kind t \<in> {TransactCall, Execute, ActionLogs} \<and> dt_commitments t \<noteq> []
     \<and> (if dt_has_unshield t
        then (case concat (map tx_outputs ts) of [] \<Rightarrow> True | h # _ \<Rightarrow> h \<noteq> last (dt_commitments t))
        else True)
     \<and> modern_transactions ts"

definition row_at ::
  "u64 \<Rightarrow> nat \<Rightarrow> bool \<Rightarrow> nat \<Rightarrow> nat \<Rightarrow> decoded_railgun_transaction \<Rightarrow> indexed_public_transaction \<Rightarrow> bool"
  where
  "row_at L g no_outputs k offset t row \<longleftrightarrow>
     unat (pt_railgun_transaction_index row) = k
     \<and> pt_nullifiers row = dt_nullifiers t \<and> pt_commitments row = dt_commitments t
     \<and> pt_bound_params_hash row = dt_bound_params_hash t \<and> pt_railgun_txid row = dt_railgun_txid t
     \<and> (if no_outputs then pt_utxo_tree_out row = 99999 \<and> pt_utxo_batch_start_position_out row = 99999
        else unat (pt_utxo_tree_out row) * unat L + unat (pt_utxo_batch_start_position_out row)
               = g + offset
          \<and> unat (pt_utxo_batch_start_position_out row) < unat L)"

fun rows_at ::
  "u64 \<Rightarrow> nat \<Rightarrow> bool \<Rightarrow> nat \<Rightarrow> nat \<Rightarrow> decoded_railgun_transaction list \<Rightarrow> indexed_public_transaction list \<Rightarrow> bool"
  where
  "rows_at L g no_outputs k offset [] [] \<longleftrightarrow> True"
| "rows_at L g no_outputs k offset (t # ts) (row # rows) \<longleftrightarrow>
     row_at L g no_outputs k offset t row
     \<and> rows_at L g no_outputs (Suc k) (offset + length (tx_outputs t)) ts rows"
| "rows_at L g no_outputs k offset ts rows \<longleftrightarrow> False"

lemma consecutive_nth:
  assumes "consecutive L g E" and "i < length E"
  shows "unat (eo_tree_number (E ! i)) * unat L + unat (eo_tree_position (E ! i)) = g + i"
proof -
  have "map (\<lambda>e. unat (eo_tree_number e) * unat L + unat (eo_tree_position e)) E ! i
      = [g..<g + length E] ! i"
    using assms(1) by (simp add: consecutive_def)
  then show ?thesis using assms(2) by simp
qed

lemma consecutive_global:
  assumes "consecutive L g E" and "g + length E < 2 ^ 64" and "i < length E"
  shows "emitted_global L (E ! i) = Inr (word_of_nat (g + i))"
  using consecutive_nth [OF assms(1,3)] assms(2,3) unat_word_of_nat [of "g + i", where ?'a = 64]
  by (simp add: emitted_global_def global_tree_position_iff)

lemma match_outputs:
  assumes "consecutive L g E" and "g + length E < 2 ^ 64"
    and "outs = map eo_hash (take (length outs) (drop idx E))" and "idx + length outs \<le> length E"
  shows "\<exists>last'. match_commitments L E idx start last_log (outs @ extra) =
    match_commitments L E (idx + length outs)
      (if outs = [] then start
       else Some (case start of Some s \<Rightarrow> s | None \<Rightarrow> word_of_nat (g + idx))) last' extra"
  using assms(3,4)
proof (induction outs arbitrary: idx start last_log)
  case Nil
  then show ?case by auto
next
  case (Cons h outs)
  from Cons.prems(2) have idx: "idx < length E" by simp
  with Cons.prems(1) have h: "eo_hash (E ! idx) = h"
    and outs: "outs = map eo_hash (take (length outs) (drop (Suc idx) E))"
    by (simp_all add: Cons_nth_drop_Suc [symmetric])
  let ?start = "case start of Some s \<Rightarrow> s | None \<Rightarrow> word_of_nat (g + idx)"
  have "match_commitments L E idx start last_log ((h # outs) @ extra) =
      match_commitments L E (Suc idx) (Some ?start) (Some (eo_log_index (E ! idx))) (outs @ extra)"
    using idx h consecutive_global [OF assms(1,2) idx] by (simp add: get_at_def split: option.split)
  then show ?case
    using Cons.IH [OF outs, of "Some ?start" "Some (eo_log_index (E ! idx))"] Cons.prems(2) by auto
qed

lemma unshield_only:
  assumes "dt_call_kind t \<in> {TransactCall, Execute, ActionLogs}" and "dt_commitments t \<noteq> []"
    and "tx_outputs t = []"
  shows "is_modern_unshield_only t"
proof -
  have "dt_has_unshield t" "butlast (dt_commitments t) = []"
    using assms(2,3) by (auto simp: tx_outputs_def split: if_splits)
  then show ?thesis
    using assms(1,2) append_butlast_last_id [OF assms(2)]
    by (auto simp: is_modern_unshield_only_def) (metis append_Nil length_Cons list.size(3))+
qed

lemma match_modern:
  assumes cons: "consecutive L g E" and fit: "g + length E < 2 ^ 64"
    and fam: "\<forall>e \<in> set E. eo_family e = TransactFamily"
    and kind: "dt_call_kind t \<in> {TransactCall, Execute, ActionLogs}" and ne: "dt_commitments t \<noteq> []"
    and rest: "drop idx (map eo_hash E) = tx_outputs t @ later" and idx: "idx \<le> length E"
    and clash: "dt_has_unshield t \<Longrightarrow> later = [] \<or> hd later \<noteq> last (dt_commitments t)"
  shows "\<exists>m. matched_output_start_global L summary E idx t k = Inr (m, idx + length (tx_outputs t))
       \<and> (E = [] \<or> output_start m = word_of_nat (g + idx))"
proof -
  let ?n = "length (tx_outputs t)"
  have outs: "tx_outputs t = map eo_hash (take ?n (drop idx E))"
    using arg_cong [OF rest, of "take ?n"] by (simp add: drop_map take_map)
  have "length (drop idx (map eo_hash E)) = ?n + length later" by (simp add: rest)
  then have len: "idx + ?n \<le> length E" using idx by simp
  have nxt: "get_at E (idx + ?n) = Some e \<Longrightarrow> later \<noteq> [] \<and> hd later = eo_hash e" for e
  proof -
    assume "get_at E (idx + ?n) = Some e"
    then have i: "idx + ?n < length E" "E ! (idx + ?n) = e" by (simp_all add: get_at_iff)
    have "drop ?n (drop idx (map eo_hash E)) = later" by (simp add: rest)
    then have "later = map eo_hash (drop (idx + ?n) E)" by (simp add: drop_map add.commute)
    with i show ?thesis by (simp add: Cons_nth_drop_Suc [symmetric])
  qed
  have comm: "dt_commitments t = tx_outputs t @ (if dt_has_unshield t then [last (dt_commitments t)] else [])"
    using ne by (simp add: tx_outputs_def)
  obtain l where l: "match_commitments L E idx None None (dt_commitments t) =
      Inr (idx + ?n, if tx_outputs t = [] then None else Some (word_of_nat (g + idx)), l)"
  proof -
    obtain l where "match_commitments L E idx None None (dt_commitments t) =
        match_commitments L E (idx + ?n)
          (if tx_outputs t = [] then None else Some (word_of_nat (g + idx))) l
          (if dt_has_unshield t then [last (dt_commitments t)] else [])"
      using match_outputs [OF cons fit outs len, of None None
          "if dt_has_unshield t then [last (dt_commitments t)] else []"]
      unfolding comm [symmetric] option.case by blast
    moreover have "\<dots> = Inr (idx + ?n,
        if tx_outputs t = [] then None else Some (word_of_nat (g + idx)), l)"
      using clash nxt by (auto split: option.split)
    ultimately show ?thesis using that by simp
  qed
  have fam': "get_at E i = Some e \<Longrightarrow> eo_family e \<noteq> LegacyGenerated" for i e
    using fam by (auto simp: get_at_iff)
  have call: "matched_output_start_global L summary E idx t k =
      match_without_generated L summary E t k (idx + ?n)
        (if tx_outputs t = [] then None else Some (word_of_nat (g + idx))) l"
    unfolding matched_output_start_global_def l using fam' by (auto split: option.split)
  show ?thesis
  proof (cases "tx_outputs t = []")
    case False
    then show ?thesis unfolding call by (simp add: match_without_generated_def)
  next
    case True
    then have only: "is_modern_unshield_only t" by (rule unshield_only [OF kind ne])
    have last: "E \<noteq> [] \<Longrightarrow> idx = length E \<Longrightarrow>
        emitted_global L (E ! (idx - 1)) = Inr (word_of_nat (g + (idx - 1)))"
      using consecutive_global [OF cons fit, of "idx - 1"] by (cases E) auto
    have succ: "E \<noteq> [] \<Longrightarrow> idx = length E \<Longrightarrow>
        checked_add (word_of_nat (g + (idx - 1))) 1 = Some (word_of_nat (g + idx) :: u64)"
      using fit unat_word_of_nat [of "g + (idx - 1)", where ?'a = 64]
        unat_word_of_nat [of "g + idx", where ?'a = 64]
      by (cases E) (simp_all add: checked_add_Some_iff del: of_nat_add)
    show ?thesis
    proof (cases "idx < length E")
      case less: True
      then show ?thesis
        using True only consecutive_global [OF cons fit less] unfolding call
        by (simp add: match_without_generated_def matched_modern_unshield_only_output_start_global_def
            get_at_def)
    next
      case False
      then have "idx = length E" using idx by simp
      then show ?thesis
        using True only last succ unfolding call
        by (cases "E = []") (simp_all add: match_without_generated_def get_at_def
            matched_modern_unshield_only_output_start_global_def del: of_nat_add)
    qed
  qed
qed

lemma public_row_at:
  assumes "L \<noteq> 0" and "k < 2 ^ 64" and "E = [] \<or> output_start m = word_of_nat (g + offset)"
    and "E = [] \<Longrightarrow> is_modern_unshield_only t" and "g + offset < 2 ^ 64"
    and "(g + offset) div unat L < 2 ^ 32"
  shows "\<exists>row. public_row R L summary timestamp (E = []) k t m f l = Inr row
    \<and> row_at L g (E = []) k offset t row"
proof -
  have k: "try_from_len k = Some (word_of_nat k :: u64)" "unat (word_of_nat k :: u64) = k"
    using assms(2) by (simp_all add: try_from_len_def unat_word_of_nat)
  show ?thesis
  proof (cases "E = []")
    case True
    then show ?thesis
      using assms(4) k by (simp add: public_row_def row_at_def MODERN_UNSHIELD_ONLY_UTXO_TREE_def
          MODERN_UNSHIELD_ONLY_UTXO_POSITION_def)
  next
    case False
    let ?s = "word_of_nat (g + offset) :: u64"
    have s: "unat ?s = g + offset" using assms(5) unat_word_of_nat [of "g + offset", where ?'a = 64] by simp
    then obtain tree position where tp: "normalized_global_position L ?s = Inr (tree, position)"
      using chain_pos.to_pos_defined [of ?s L] assms(6) by auto
    have "unat (ucast tree :: u64) * unat L + unat position = g + offset" "unat position < unat L"
      using chain_pos.to_pos_value [OF tp] chain_pos.to_pos_leaf [OF tp] s assms(1)
      by (simp_all add: unat_ucast_up unat_gt_0)
    then show ?thesis
      using False assms(3) tp k by (simp add: public_row_def row_at_def del: of_nat_add)
  qed
qed

lemma match_all:
  assumes cons: "consecutive L g E" and fit: "g + length E < 2 ^ 64" and L: "L \<noteq> 0"
    and tree: "(g + length E) div unat L < 2 ^ 32"
    and fam: "\<forall>e \<in> set E. eo_family e = TransactFamily"
  shows "modern_transactions ts \<Longrightarrow> drop (emitted_index st) (map eo_hash E) = concat (map tx_outputs ts) \<Longrightarrow>
    emitted_index st \<le> length E \<Longrightarrow> k + length ts \<le> 2 ^ 64 \<Longrightarrow>
    \<exists>rows st'. try_fold (match_step R L summary timestamp E) st (enumerate k ts) = Inr st'
      \<and> emitted_index st' = length E \<and> matched_rows st' = matched_rows st @ rows
      \<and> rows_at L g (E = []) k (emitted_index st) ts rows"
proof (induction ts arbitrary: st k)
  case Nil
  then have "emitted_index st = length E"
    by (metis concat.simps(1) drop_eq_Nil length_map list.simps(8) antisym)
  then show ?case by (intro exI [of _ "[]"] exI [of _ st]) simp
next
  case (Cons t ts)
  let ?idx = "emitted_index st" and ?n = "length (tx_outputs t)"
  have rest: "drop ?idx (map eo_hash E) = tx_outputs t @ concat (map tx_outputs ts)"
    using Cons.prems(2) by simp
  have "length (drop ?idx (map eo_hash E)) = ?n + length (concat (map tx_outputs ts))" by (simp add: rest)
  then have len: "?idx + ?n \<le> length E" using Cons.prems(3) by simp
  have kind: "dt_call_kind t \<in> {TransactCall, Execute, ActionLogs}" "dt_commitments t \<noteq> []"
    using Cons.prems(1) by simp_all
  have clash: "dt_has_unshield t \<Longrightarrow> concat (map tx_outputs ts) = []
      \<or> hd (concat (map tx_outputs ts)) \<noteq> last (dt_commitments t)"
    using Cons.prems(1) by (auto split: list.splits)
  from match_modern [OF cons fit fam kind rest Cons.prems(3) clash] obtain m where
    m: "matched_output_start_global L summary E ?idx t k = Inr (m, ?idx + ?n)"
      "E = [] \<or> output_start m = word_of_nat (g + ?idx)" by blast
  have only: "is_modern_unshield_only t" if "E = []"
  proof -
    have "tx_outputs t = []" using len that by simp
    then show ?thesis by (rule unshield_only [OF kind])
  qed
  have "(g + ?idx) div unat L \<le> (g + length E) div unat L"
    using Cons.prems(3) by (intro div_le_mono) simp
  then obtain row where row:
    "public_row R L summary timestamp (E = []) k t m (sm_first_log_index summary)
      (sm_last_log_index summary) = Inr row" "row_at L g (E = []) k ?idx t row"
    using public_row_at [OF L _ m(2) only, of k R summary timestamp] Cons.prems(3,4) fit tree by auto
  let ?st = "st\<lparr>emitted_index := ?idx + ?n, matched_rows := matched_rows st @ [row]\<rparr>"
  have step: "match_step R L summary timestamp E st (k, t) = Inr ?st"
    using m(1) row(1) kind(1)
    by (auto simp: match_step_def match_transaction_def Let_def)
  have "drop (emitted_index ?st) (map eo_hash E) = drop ?n (drop ?idx (map eo_hash E))"
    by (simp add: add.commute)
  then have "drop (emitted_index ?st) (map eo_hash E) = concat (map tx_outputs ts)"
    by (simp add: rest)
  then obtain rows st' where "try_fold (match_step R L summary timestamp E) ?st (enumerate (Suc k) ts) = Inr st'"
    "emitted_index st' = length E" "matched_rows st' = matched_rows ?st @ rows"
    "rows_at L g (E = []) (Suc k) (emitted_index ?st) ts rows"
    using Cons.IH [of ?st "Suc k"] Cons.prems len by auto
  then show ?case
    using step row(2) by (intro exI [of _ "row # rows"] exI [of _ st']) simp
qed

definition sample_output :: "u32 \<Rightarrow> u64 \<Rightarrow> bytes32 \<Rightarrow> emitted_output_commitment" where
  "sample_output t p h = \<lparr>eo_family = TransactFamily, eo_log_index = 9, eo_tree_number = t,
     eo_tree_position = p, eo_hash = h\<rparr>"

definition sample_tx :: "bytes32 list \<Rightarrow> bool \<Rightarrow> decoded_railgun_transaction" where
  "sample_tx cs u = \<lparr>dt_call_kind = TransactCall, dt_nullifiers = [50], dt_commitments = cs,
     dt_bound_params_hash = 3, dt_has_unshield = u, dt_unshield_preimage = None, dt_utxo_tree_in = 0,
     dt_railgun_txid = 4\<rparr>"

text \<open>Outputs across the end of tree 0, the last of them listed first.\<close>

definition sample_match :: transact_output_summary where
  "sample_match = \<lparr>sm_source = \<lparr>block_number = 8, block_timestamp = None, block_hash = 80,
       transaction_hash = 1, log_index = 1\<rparr>, sm_first_log_index = 1, sm_last_log_index = 9,
     sm_output_commitments = [sample_output 1 1 62, sample_output 0 65535 60, sample_output 1 0 61],
     sm_nullifier_groups = []\<rparr>"

lemma sample_match_sorted:
  "sort_outputs 65536 (sm_output_commitments sample_match) =
     [sample_output 0 65535 60, sample_output 1 0 61, sample_output 1 1 62]"
  by (simp add: sort_outputs_def sample_match_def sample_output_def comparable_global_tree_position_def)

section \<open>Properties\<close>



end
