(* ===== verification/Traces.thy ===== *)
theory Traces
  imports Calldata "HOL-Library.Sublist"
begin

text \<open>
  The JSON the RPC node returns and what the indexer reads from it (\<open>chain_logs.rs\<close>,
  \<open>full_block_context\<close> with its field readers, and the two trace walks
  \<open>collect_debug_trace_railgun_transactions\<close> and
  \<open>collect_trace_transaction_railgun_transactions\<close>).

  \<open>json\<close> is \<open>serde_json::Value\<close>. Parsing an address, a 32-byte hash or hexadecimal bytes from a
  string is the parameter record \<open>text_lib\<close>; \<open>u64::from_str_radix\<close> is the standard library's and is
  modelled.
\<close>

datatype json =
    JNull
  | JBool bool
  | JNumber int
  | JString string
  | JArray "json list"
  | JObject "(string \<times> json) list"

record text_lib =
  parse_bytes32 :: "string \<Rightarrow> bytes32 option"
  parse_address :: "string \<Rightarrow> address option"
  hex_decode :: "string \<Rightarrow> bytes option"

fun json_get :: "json \<Rightarrow> string \<Rightarrow> json option" where
  "json_get (JObject kvs) name = map_of kvs name"
| "json_get _ name = None"

fun as_str :: "json \<Rightarrow> string option" where
  "as_str (JString s) = Some s"
| "as_str _ = None"

fun as_array :: "json \<Rightarrow> json list option" where
  "as_array (JArray xs) = Some xs"
| "as_array _ = None"

definition opt_bind :: "'a option \<Rightarrow> ('a \<Rightarrow> 'b option) \<Rightarrow> 'b option" where
  "opt_bind x f = (case x of None \<Rightarrow> None | Some a \<Rightarrow> f a)"

definition str_field :: "json \<Rightarrow> string \<Rightarrow> string option" where
  "str_field v name = opt_bind (json_get v name) as_str"

definition has_error :: "json \<Rightarrow> bool" where
  "has_error frame = (case json_get frame ''error'' of None \<Rightarrow> False | Some e \<Rightarrow> e \<noteq> JNull)"

definition strip_0x :: "string \<Rightarrow> string" where
  "strip_0x s = (if take 2 s = ''0x'' then drop 2 s else s)"

definition hex_digit :: "char \<Rightarrow> nat option" where
  "hex_digit c =
     (let n = of_char c :: nat
      in if 48 \<le> n \<and> n \<le> 57 then Some (n - 48)
         else if 97 \<le> n \<and> n \<le> 102 then Some (n - 87)
         else if 65 \<le> n \<and> n \<le> 70 then Some (n - 55)
         else None)"

fun hex_number :: "nat \<Rightarrow> string \<Rightarrow> nat option" where
  "hex_number acc [] = Some acc"
| "hex_number acc (c # cs) =
     (case hex_digit c of None \<Rightarrow> None | Some d \<Rightarrow> hex_number (16 * acc + d) cs)"

text \<open>\<open>u64::from_str_radix(value, 16)\<close>: an optional leading plus sign, at least one digit, no
  overflow.\<close>

definition u64_from_hex :: "string \<Rightarrow> u64 option" where
  "u64_from_hex s =
     (let digits = (case s of c # cs \<Rightarrow> if c = CHR ''+'' \<and> cs \<noteq> [] then cs else s | [] \<Rightarrow> [])
      in if digits = [] then None
         else case hex_number 0 digits of None \<Rightarrow> None | Some n \<Rightarrow> try_from_len n)"

definition parse_hex_quantity_u64 :: "string \<Rightarrow> u64 option" where
  "parse_hex_quantity_u64 s = (if strip_0x s = [] then Some 0 else u64_from_hex (strip_0x s))"

definition decode_hex_bytes :: "text_lib \<Rightarrow> string \<Rightarrow> bytes option" where
  "decode_hex_bytes J s = hex_decode J (strip_0x s)"

section \<open>Block bodies\<close>

record full_block_context =
  fb_timestamp :: u64
  fb_transaction_inputs :: "bytes32 \<Rightarrow> bytes option"

definition json_fixed_bytes_field ::
  "text_lib \<Rightarrow> json \<Rightarrow> string \<Rightarrow> transact_output_summary \<Rightarrow> bytes32 ingested" where
  "json_fixed_bytes_field J block field summary =
     ok_or (InvalidBlockField (block_number (sm_source summary)) (block_hash (sm_source summary)) field)
       (opt_bind (str_field block field) (parse_bytes32 J))"

definition json_quantity_u64_field ::
  "json \<Rightarrow> string \<Rightarrow> transact_output_summary \<Rightarrow> u64 ingested" where
  "json_quantity_u64_field block field summary =
     ok_or (InvalidBlockField (block_number (sm_source summary)) (block_hash (sm_source summary)) field)
       (opt_bind (str_field block field) parse_hex_quantity_u64)"

definition insert_input ::
  "text_lib \<Rightarrow> json \<Rightarrow> (bytes32 \<Rightarrow> bytes option) \<Rightarrow> (bytes32 \<Rightarrow> bytes option)" where
  "insert_input J transaction inputs =
     (case opt_bind (str_field transaction ''hash'') (parse_bytes32 J) of
        None \<Rightarrow> inputs
      | Some hash \<Rightarrow>
          (case opt_bind (str_field transaction ''input'') (decode_hex_bytes J) of
             None \<Rightarrow> inputs
           | Some input \<Rightarrow> inputs(hash := Some input)))"

definition raw_block_transaction_inputs ::
  "text_lib \<Rightarrow> json \<Rightarrow> transact_output_summary \<Rightarrow> (bytes32 \<Rightarrow> bytes option) ingested" where
  "raw_block_transaction_inputs J block summary =
     and_then
       (ok_or (MissingFullBlockTransactions (block_number (sm_source summary))
            (block_hash (sm_source summary)))
          (opt_bind (json_get block ''transactions'') as_array))
       (\<lambda>transactions. Inr (fold (insert_input J) transactions (\<lambda>_. None)))"

definition validate_source_block_metadata ::
  "u64 \<Rightarrow> bytes32 \<Rightarrow> bytes32 \<Rightarrow> u64 \<Rightarrow> unit ingested" where
  "validate_source_block_metadata expected_block_number expected_block_hash actual_block_hash
       actual_block_number =
     (if actual_block_hash \<noteq> expected_block_hash \<or> actual_block_number \<noteq> expected_block_number
      then Inl (MismatchedBlock expected_block_number expected_block_hash actual_block_number
        actual_block_hash)
      else Inr ())"

text \<open>The context read from a block body; the caches around it are in the theory of hydration.\<close>

definition read_block_context ::
  "text_lib \<Rightarrow> json option \<Rightarrow> transact_output_summary \<Rightarrow> full_block_context ingested" where
  "read_block_context J response summary =
     and_then (ok_or (MissingBlock (block_number (sm_source summary)) (block_hash (sm_source summary)))
         response) (\<lambda>block.
     and_then (json_fixed_bytes_field J block ''hash'' summary) (\<lambda>actual_block_hash.
     and_then (json_quantity_u64_field block ''number'' summary) (\<lambda>actual_block_number.
     and_then (validate_source_block_metadata (block_number (sm_source summary))
         (block_hash (sm_source summary)) actual_block_hash actual_block_number) (\<lambda>_.
     and_then (json_quantity_u64_field block ''timestamp'' summary) (\<lambda>timestamp.
     and_then (raw_block_transaction_inputs J block summary) (\<lambda>inputs.
       Inr \<lparr>fb_timestamp = timestamp, fb_transaction_inputs = inputs\<rparr>))))))"

section \<open>Traces\<close>

definition trace_frame_targets_contract :: "text_lib \<Rightarrow> json \<Rightarrow> address \<Rightarrow> bool" where
  "trace_frame_targets_contract J frame contract =
     (case opt_bind (str_field frame ''to'') (parse_address J) of
        None \<Rightarrow> False | Some a \<Rightarrow> a = contract)"

definition trace_input :: "text_lib \<Rightarrow> json \<Rightarrow> bytes option" where
  "trace_input J frame =
     opt_bind (case json_get frame ''input'' of Some v \<Rightarrow> Some v | None \<Rightarrow> json_get frame ''data'')
       (\<lambda>v. opt_bind (as_str v) (decode_hex_bytes J))"

text \<open>What one frame adds to the decoded transactions.\<close>

definition decode_frame ::
  "calldata_abi \<Rightarrow> railgun_lib \<Rightarrow> text_lib \<Rightarrow> address \<Rightarrow> json \<Rightarrow> decoded_railgun_transaction list
   \<Rightarrow> decoded_railgun_transaction list ingested" where
  "decode_frame C R J contract frame decoded =
     (if trace_frame_targets_contract J frame contract then
        (case trace_input J frame of
           None \<Rightarrow> Inr decoded
         | Some input \<Rightarrow>
             and_then (decode_railgun_transactions C R input) (\<lambda>found.
               case found of None \<Rightarrow> Inr decoded | Some ts \<Rightarrow> Inr (decoded @ ts)))
      else Inr decoded)"

lemma json_get_array_size:
  "opt_bind (json_get frame name) as_array = Some calls \<Longrightarrow> call \<in> set calls \<Longrightarrow> size call < size frame"
proof (cases frame)
  case (JObject kvs)
  assume *: "opt_bind (json_get frame name) as_array = Some calls" "call \<in> set calls"
  then obtain v where v: "(name, v) \<in> set kvs" "as_array v = Some calls"
    using JObject by (auto simp: opt_bind_def dest: map_of_SomeD split: option.splits)
  then have "v = JArray calls" by (cases v) auto
  then have "size call < size v" using *(2) size_list_estimation' [of call calls "size call" size]
    by auto
  also have "size v < size frame"
    using v(1) size_list_estimation' [of "(name, v)" kvs "size v" "size_prod (\<lambda>x. 0) size"] JObject
    by auto
  finally show ?thesis .
qed (auto simp: opt_bind_def)

function collect_debug_trace_railgun_transactions ::
  "calldata_abi \<Rightarrow> railgun_lib \<Rightarrow> text_lib \<Rightarrow> address \<Rightarrow> decoded_railgun_transaction list \<Rightarrow> json
   \<Rightarrow> decoded_railgun_transaction list ingested" where
  "collect_debug_trace_railgun_transactions C R J contract decoded frame =
     (if has_error frame then Inr decoded
      else
        and_then (decode_frame C R J contract frame decoded) (\<lambda>decoded'.
          case opt_bind (json_get frame ''calls'') as_array of
            None \<Rightarrow> Inr decoded'
          | Some calls \<Rightarrow>
              try_fold (\<lambda>acc call. collect_debug_trace_railgun_transactions C R J contract acc call)
                decoded' calls))"
  by pat_completeness auto
termination
  by (relation "measure (\<lambda>(C, R, J, contract, decoded, frame). size frame)")
    (auto dest: json_get_array_size)

declare collect_debug_trace_railgun_transactions.simps [simp del]

definition trace_address :: "json \<Rightarrow> json list option" where
  "trace_address frame = opt_bind (json_get frame ''traceAddress'') as_array"

definition failed_paths :: "json list \<Rightarrow> json list list" where
  "failed_paths frames = List.map_filter trace_address (filter has_error frames)"

definition frame_reverted :: "json list list \<Rightarrow> json \<Rightarrow> bool" where
  "frame_reverted failed frame \<longleftrightarrow>
     has_error frame
     \<or> (case trace_address frame of
          None \<Rightarrow> False
        | Some path \<Rightarrow> list_ex (\<lambda>failed_path. take (length failed_path) path = failed_path) failed)"

definition collect_trace_transaction_railgun_transactions ::
  "calldata_abi \<Rightarrow> railgun_lib \<Rightarrow> text_lib \<Rightarrow> address \<Rightarrow> decoded_railgun_transaction list \<Rightarrow> json
   \<Rightarrow> decoded_railgun_transaction list ingested" where
  "collect_trace_transaction_railgun_transactions C R J contract decoded trace =
     (case as_array trace of
        None \<Rightarrow> Inr decoded
      | Some frames \<Rightarrow>
          try_fold (\<lambda>acc frame.
            if frame_reverted (failed_paths frames) frame then Inr acc
            else decode_frame C R J contract
                   (case json_get frame ''action'' of Some action \<Rightarrow> action | None \<Rightarrow> frame) acc)
            decoded frames)"

section \<open>The two trace formats\<close>

text \<open>A trace as the tree of calls it is: whether the call reverted, its target, its input, and the
  calls it made. \<open>debug_frame\<close> is the tree as \<open>debug_traceTransaction\<close> reports it, nested;
  \<open>flat_frames\<close> is the same tree as \<open>trace_transaction\<close> reports it, a flat list in call order whose
  frames carry their path.\<close>

datatype call_trace = Call_Trace bool "string option" "string option" "call_trace list"

definition opt_field :: "string \<Rightarrow> string option \<Rightarrow> (string \<times> json) list" where
  "opt_field name v = (case v of None \<Rightarrow> [] | Some s \<Rightarrow> [(name, JString s)])"

definition error_field :: "bool \<Rightarrow> (string \<times> json) list" where
  "error_field reverted = (if reverted then [(''error'', JString ''Reverted'')] else [])"

definition call_json :: "string option \<Rightarrow> string option \<Rightarrow> json" where
  "call_json to input = JObject (opt_field ''to'' to @ opt_field ''input'' input)"

fun debug_frame :: "call_trace \<Rightarrow> json" where
  "debug_frame (Call_Trace reverted to input calls) =
     JObject (error_field reverted @ opt_field ''to'' to @ opt_field ''input'' input
       @ [(''calls'', JArray (map debug_frame calls))])"

type_synonym trace_node = "nat list \<times> bool \<times> string option \<times> string option"

function trace_nodes :: "nat list \<Rightarrow> call_trace \<Rightarrow> trace_node list" where
  "trace_nodes path (Call_Trace reverted to input calls) =
     (path, reverted, to, input)
     # concat (map (\<lambda>i. trace_nodes (path @ [i]) (calls ! i)) [0..<length calls])"
  by pat_completeness auto
termination
  by (relation "measure (\<lambda>(path, t). size t)")
    (auto simp: less_Suc_eq_le intro!: size_list_estimation' [OF nth_mem])

fun flat_frame :: "trace_node \<Rightarrow> json" where
  "flat_frame (path, reverted, to, input) =
     JObject (error_field reverted
       @ [(''action'', call_json to input),
          (''traceAddress'', JArray (map (\<lambda>i. JNumber (int i)) path))])"

definition flat_trace :: "call_trace \<Rightarrow> json" where
  "flat_trace t = JArray (map flat_frame (trace_nodes [] t))"

fun live_calls :: "call_trace \<Rightarrow> (string option \<times> string option) list" where
  "live_calls (Call_Trace reverted to input calls) =
     (if reverted then [] else (to, input) # concat (map live_calls calls))"

lemma json_get_call:
  "json_get (call_json to input) ''to'' = map_option JString to"
  "json_get (call_json to input) ''input'' = map_option JString input"
  "json_get (call_json to input) ''data'' = None"
  "json_get (debug_frame (Call_Trace r to input calls)) ''to'' = map_option JString to"
  "json_get (debug_frame (Call_Trace r to input calls)) ''input'' = map_option JString input"
  "json_get (debug_frame (Call_Trace r to input calls)) ''data'' = None"
  "json_get (debug_frame (Call_Trace r to input calls)) ''calls'' = Some (JArray (map debug_frame calls))"
  "has_error (debug_frame (Call_Trace r to input calls)) = r"
  by (simp_all add: call_json_def opt_field_def error_field_def has_error_def split: option.split)

lemma json_get_flat:
  "json_get (flat_frame (path, r, to, input)) ''action'' = Some (call_json to input)"
  "trace_address (flat_frame (path, r, to, input)) = Some (map (\<lambda>i. JNumber (int i)) path)"
  "has_error (flat_frame (path, r, to, input)) = r"
  by (simp_all add: error_field_def has_error_def trace_address_def opt_bind_def)

declare debug_frame.simps [simp del] flat_frame.simps [simp del]

lemma decode_frame_debug:
  "decode_frame C R J contract (debug_frame (Call_Trace r to input calls)) acc =
   decode_frame C R J contract (call_json to input) acc"
  unfolding decode_frame_def trace_frame_targets_contract_def trace_input_def str_field_def json_get_call
  by (rule refl)

lemma try_fold_concat: "try_fold f s (concat xss) = try_fold (try_fold f) s xss"
  by (induction xss arbitrary: s) (simp_all add: try_fold_append)

lemma try_fold_map: "try_fold f s (map g xs) = try_fold (\<lambda>s x. f s (g x)) s xs"
  by (induction xs arbitrary: s) (simp_all cong: and_then_cong)

lemma debug_collects_live:
  "collect_debug_trace_railgun_transactions C R J contract acc (debug_frame t) =
   try_fold (\<lambda>acc (to, input). decode_frame C R J contract (call_json to input) acc) acc (live_calls t)"
proof (induction t arbitrary: acc rule: live_calls.induct)
  case (1 r to input calls)
  show ?case
  proof (cases r)
    case True
    then show ?thesis
      by (subst collect_debug_trace_railgun_transactions.simps) (simp add: json_get_call)
  next
    case False
    have "try_fold (\<lambda>acc call. collect_debug_trace_railgun_transactions C R J contract acc call) acc'
        (map debug_frame calls) =
      try_fold (\<lambda>acc (to, input). decode_frame C R J contract (call_json to input) acc) acc'
        (concat (map live_calls calls))" for acc'
      unfolding try_fold_concat try_fold_map
      by (rule try_fold_cong [OF refl refl]) (rule 1 [OF False])
    then show ?thesis
      using False
      by (subst collect_debug_trace_railgun_transactions.simps)
        (simp add: json_get_call decode_frame_debug opt_bind_def)
  qed
qed

text \<open>The failed paths below a node, and that they decide which frames are live.\<close>

definition failed_below :: "nat list \<Rightarrow> call_trace \<Rightarrow> nat list set" where
  "failed_below path t = {p. \<exists>to input. (p, True, to, input) \<in> set (trace_nodes path t)}"

definition under_failed :: "nat list set \<Rightarrow> trace_node \<Rightarrow> bool" where
  "under_failed Q n \<longleftrightarrow> (\<exists>q \<in> Q. prefix q (fst n))"

lemma trace_nodes_path: "n \<in> set (trace_nodes path t) \<Longrightarrow> prefix path (fst n)"
proof (induction path t rule: trace_nodes.induct)
  case (1 path r to input calls)
  show ?case
  proof (cases "n = (path, r, to, input)")
    case False
    with 1(2) obtain i where "i < length calls" "n \<in> set (trace_nodes (path @ [i]) (calls ! i))"
      by auto
    then have "prefix (path @ [i]) (fst n)" using 1(1) by simp
    then show ?thesis by (rule append_prefixD)
  qed simp
qed

lemma failed_below_simps:
  "failed_below path (Call_Trace r to input calls) =
     (if r then {path} else {}) \<union> (\<Union>i<length calls. failed_below (path @ [i]) (calls ! i))"
  unfolding failed_below_def by (auto simp: atLeast0LessThan)

lemma failed_below_path: "q \<in> failed_below path t \<Longrightarrow> prefix path q"
  by (auto simp: failed_below_def dest: trace_nodes_path)

lemma map_nth_upt: "map (\<lambda>i. f (xs ! i)) [0..<length xs] = map f xs"
  by (rule nth_equalityI) simp_all

lemma live_nodes:
  assumes "failed_below path t \<subseteq> Q"
    and "\<And>q r. q \<in> Q \<Longrightarrow> prefix q (path @ r) \<Longrightarrow> q \<in> failed_below path t"
  shows "map (\<lambda>(p, r, call). call) (filter (\<lambda>n. \<not> under_failed Q n) (trace_nodes path t)) = live_calls t"
  using assms
proof (induction path t rule: trace_nodes.induct)
  case (1 path r to input calls)
  show ?case
  proof (cases r)
    case True
    then have "path \<in> Q" using 1(2) by (auto simp: failed_below_simps)
    then have "under_failed Q n" if "n \<in> set (trace_nodes path (Call_Trace r to input calls))" for n
      using trace_nodes_path [OF that] by (auto simp: under_failed_def)
    then have "filter (\<lambda>n. \<not> under_failed Q n) (trace_nodes path (Call_Trace r to input calls)) = []"
      by (simp add: filter_empty_conv)
    with True show ?thesis by (simp del: trace_nodes.simps)
  next
    case False
    have child: "map (\<lambda>(p, r, call). call) (filter (\<lambda>n. \<not> under_failed Q n)
        (trace_nodes (path @ [i]) (calls ! i))) = live_calls (calls ! i)" if i: "i < length calls" for i
    proof (rule "1.IH")
      show "i \<in> set [0..<length calls]" using i by simp
      show "failed_below (path @ [i]) (calls ! i) \<subseteq> Q"
        using 1(2) i by (auto simp: failed_below_simps)
      fix q r'
      assume q: "q \<in> Q" "prefix q ((path @ [i]) @ r')"
      then have "q \<in> failed_below path (Call_Trace r to input calls)"
        using 1(3) [of q "i # r'"] by simp
      then obtain j where j: "q \<in> failed_below (path @ [j]) (calls ! j)" "j < length calls"
        using False by (auto simp: failed_below_simps)
      from failed_below_path [OF j(1)] q(2) have "prefix (path @ [j]) (path @ i # r')"
        by (metis append.assoc append_Cons append_Nil prefix_order.trans)
      then have "j = i" by simp
      with j(1) show "q \<in> failed_below (path @ [i]) (calls ! i)" by simp
    qed
    have root: "\<not> under_failed Q (path, r, to, input)"
    proof
      assume "under_failed Q (path, r, to, input)"
      then obtain q where "q \<in> Q" "prefix q path" by (auto simp: under_failed_def)
      then have "q \<in> failed_below path (Call_Trace r to input calls)" using 1(3) [of q "[]"] by simp
      then obtain j where "q \<in> failed_below (path @ [j]) (calls ! j)"
        using False by (auto simp: failed_below_simps)
      from prefix_length_le [OF failed_below_path [OF this]] prefix_length_le [OF \<open>prefix q path\<close>]
      show False by simp
    qed
    have "map (\<lambda>(p, r, call). call) (filter (\<lambda>n. \<not> under_failed Q n)
        (concat (map (\<lambda>i. trace_nodes (path @ [i]) (calls ! i)) is))) =
      concat (map (\<lambda>i. live_calls (calls ! i)) is)" if "set is \<subseteq> {..<length calls}" for "is"
      using that by (induction "is") (auto simp: child)
    from this [of "[0..<length calls]"] have "map (\<lambda>(p, r, call). call) (filter (\<lambda>n. \<not> under_failed Q n)
        (concat (map (\<lambda>i. trace_nodes (path @ [i]) (calls ! i)) [0..<length calls]))) =
      concat (map live_calls calls)"
      using map_nth_upt [of live_calls calls] by (simp add: atLeast0LessThan)
    with False root show ?thesis by simp
  qed
qed

lemma failed_paths_nodes:
  "set (failed_paths (map flat_frame (trace_nodes [] t))) =
     map (\<lambda>i. JNumber (int i)) ` failed_below [] t"
proof -
  have "set (failed_paths (map flat_frame ns)) =
      map (\<lambda>i. JNumber (int i)) ` {p. \<exists>to input. (p, True, to, input) \<in> set ns}" for ns
  proof (induction ns)
    case Nil
    show ?case by (simp add: failed_paths_def map_filter_simps)
  next
    case (Cons n ns)
    obtain p r to input where n: "n = (p, r, to, input)" by (cases n)
    show ?case
      using Cons by (cases r) (auto simp: n failed_paths_def map_filter_simps json_get_flat)
  qed
  then show ?thesis by (simp add: failed_below_def)
qed

lemma take_prefix_iff: "take (length q) p = q \<longleftrightarrow> prefix q p"
  by (metis append_eq_conv_conj prefix_def take_is_prefix)

lemma prefix_numbers:
  "prefix (map (\<lambda>i. JNumber (int i)) q) (map (\<lambda>i. JNumber (int i)) p) \<longleftrightarrow> prefix q p"
proof -
  have "inj (\<lambda>i. JNumber (int i))" by (simp add: inj_def)
  then show ?thesis by (simp add: take_prefix_iff [symmetric] take_map inj_map_eq_map)
qed

lemma frame_reverted_nodes:
  assumes "n \<in> set (trace_nodes [] t)"
  shows "frame_reverted (failed_paths (map flat_frame (trace_nodes [] t))) (flat_frame n)
    \<longleftrightarrow> under_failed (failed_below [] t) n"
proof -
  obtain p r to input where n: "n = (p, r, to, input)" by (cases n)
  have "r \<Longrightarrow> p \<in> failed_below [] t" using assms n by (auto simp: failed_below_def)
  then show ?thesis
    by (auto simp: n frame_reverted_def json_get_flat list_ex_iff failed_paths_nodes take_prefix_iff
        prefix_numbers under_failed_def)
qed

lemma try_fold_filter:
  "try_fold (\<lambda>s x. if P x then Inr s else f s x) s xs = try_fold f s (filter (\<lambda>x. \<not> P x) xs)"
  by (induction xs arbitrary: s) (auto cong: and_then_cong)

lemma flat_collects_live:
  "collect_trace_transaction_railgun_transactions C R J contract acc (flat_trace t) =
   try_fold (\<lambda>acc (to, input). decode_frame C R J contract (call_json to input) acc) acc (live_calls t)"
proof -
  let ?D = "\<lambda>acc (to, input). decode_frame C R J contract (call_json to input) acc"
  let ?ns = "trace_nodes [] t" and ?Q = "failed_below [] t"
  have "collect_trace_transaction_railgun_transactions C R J contract acc (flat_trace t) =
    try_fold (\<lambda>acc n. if frame_reverted (failed_paths (map flat_frame ?ns)) (flat_frame n) then Inr acc
      else decode_frame C R J contract
        (case json_get (flat_frame n) ''action'' of Some action \<Rightarrow> action | None \<Rightarrow> flat_frame n) acc)
      acc ?ns"
    by (simp add: collect_trace_transaction_railgun_transactions_def flat_trace_def try_fold_map)
  also have "\<dots> = try_fold (\<lambda>acc n. if under_failed ?Q n then Inr acc
      else ?D acc ((\<lambda>(p, r, call). call) n)) acc ?ns"
    by (rule try_fold_cong [OF refl refl]) (auto simp: frame_reverted_nodes json_get_flat)
  also have "\<dots> = try_fold ?D acc
      (map (\<lambda>(p, r, call). call) (filter (\<lambda>n. \<not> under_failed ?Q n) ?ns))"
    by (simp only: try_fold_filter try_fold_map)
  also have "map (\<lambda>(p, r, call). call) (filter (\<lambda>n. \<not> under_failed ?Q n) ?ns) = live_calls t"
    by (rule live_nodes) auto
  finally show ?thesis .
qed

section \<open>Properties\<close>


end
