(* ===== verification/Hydrate.thy ===== *)
theory Hydrate
  imports Log_Ingest Action_Logs Output_Match Traces
begin

text \<open>
  Completing a batch with data from the RPC node (\<open>chain_logs.rs\<close>): block timestamps for the
  log sources (\<open>hydrate_indexed_log_source_timestamps\<close>), and the public transactions
  (\<open>hydrate_public_transactions\<close>, \<open>resolve_unshield_commitments\<close>,
  \<open>resolve_public_transactions_by_hash\<close>).

  The node's answers are the parameter record \<open>provider\<close>; a request that fails in transport is an
  \<open>Inl\<close> or, for the traces, whose errors the code ignores, a \<open>None\<close>. The order in which a
  \<open>HashMap\<close> hands out its entries is not specified; it is the parameter record \<open>hash_order\<close>, three
  reorderings of lists, one for each map the code iterates over.
\<close>

record block_header =
  hdr_hash :: bytes32
  hdr_number :: u64
  hdr_timestamp :: u64

record provider =
  get_transaction_by_hash :: "bytes32 \<Rightarrow> bytes option ingested"
  get_block_by_hash :: "bytes32 \<Rightarrow> block_header option ingested"
  get_raw_block_by_hash :: "bytes32 \<Rightarrow> json option ingested"
  debug_trace_transaction :: "bytes32 \<Rightarrow> json option"
  trace_transaction :: "bytes32 \<Rightarrow> json option"

record hash_order =
  order_groups :: "nullifier_group list \<Rightarrow> nullifier_group list"
  order_grouped :: "(bytes32 \<times> nullifier_group list) list \<Rightarrow> (bytes32 \<times> nullifier_group list) list"
  order_summaries :: "transact_output_summary list \<Rightarrow> transact_output_summary list"

text \<open>Everything outside the repository that reading a transaction needs.\<close>

record chain_env =
  env_calldata :: calldata_abi
  env_lib :: railgun_lib
  env_text :: text_lib
  env_provider :: provider
  env_leaf_count :: u64
  env_order :: hash_order

section \<open>Timestamps\<close>

definition block_timestamp_for_source :: "provider \<Rightarrow> bytes32 \<Rightarrow> u64 \<Rightarrow> u64 ingested" where
  "block_timestamp_for_source P hash number =
     and_then (get_block_by_hash P hash) (\<lambda>response.
     and_then (ok_or (MissingBlock number hash) response) (\<lambda>block.
     and_then (validate_source_block_metadata number hash (hdr_hash block) (hdr_number block)) (\<lambda>_.
       Inr (hdr_timestamp block))))"

definition collect_missing_timestamp_blocks ::
  "indexed_log_source list \<Rightarrow> bytes32 list \<times> (bytes32 \<times> u64) list \<Rightarrow> bytes32 list \<times> (bytes32 \<times> u64) list"
  where
  "collect_missing_timestamp_blocks sources acc =
     fold (\<lambda>source (seen, missing).
       if block_timestamp source = None \<and> block_hash source \<notin> set seen
       then (block_hash source # seen, missing @ [(block_hash source, block_number source)])
       else (seen, missing)) sources acc"

definition set_source_timestamp :: "(bytes32 \<Rightarrow> u64 option) \<Rightarrow> indexed_log_source \<Rightarrow> indexed_log_source"
  where
  "set_source_timestamp timestamps source =
     (if block_timestamp source = None then
        (case timestamps (block_hash source) of
           None \<Rightarrow> source
         | Some t \<Rightarrow> source\<lparr>block_timestamp := Some t\<rparr>)
      else source)"

definition fetch_timestamp ::
  "provider \<Rightarrow> (bytes32 \<Rightarrow> u64 option) \<Rightarrow> bytes32 \<times> u64 \<Rightarrow> (bytes32 \<Rightarrow> u64 option) ingested" where
  "fetch_timestamp P timestamps = (\<lambda>(hash, number).
     and_then (block_timestamp_for_source P hash number) (\<lambda>t. Inr (timestamps(hash := Some t))))"

definition hydrate_indexed_log_source_timestamps ::
  "provider \<Rightarrow> indexed_log_batch \<Rightarrow> indexed_log_batch ingested" where
  "hydrate_indexed_log_source_timestamps P batch =
     (let acc = ([], []);
          acc = collect_missing_timestamp_blocks (map tc_source (transact_commitments batch)) acc;
          acc = collect_missing_timestamp_blocks (map sc_source (shield_commitments batch)) acc;
          acc = collect_missing_timestamp_blocks (map nf_source (nullifiers batch)) acc;
          acc = collect_missing_timestamp_blocks (map le_source (legacy_encrypted_commitments batch)) acc;
          acc = collect_missing_timestamp_blocks (map lg_source (legacy_generated_commitments batch)) acc
      in and_then
           (try_fold (fetch_timestamp P) (\<lambda>_. None) (snd acc)) (\<lambda>timestamps.
           let set = set_source_timestamp timestamps
           in Inr (batch\<lparr>
                transact_commitments := map (\<lambda>r. r\<lparr>tc_source := set (tc_source r)\<rparr>)
                  (transact_commitments batch),
                shield_commitments := map (\<lambda>r. r\<lparr>sc_source := set (sc_source r)\<rparr>)
                  (shield_commitments batch),
                nullifiers := map (\<lambda>r. r\<lparr>nf_source := set (nf_source r)\<rparr>) (nullifiers batch),
                legacy_encrypted_commitments := map (\<lambda>r. r\<lparr>le_source := set (le_source r)\<rparr>)
                  (legacy_encrypted_commitments batch),
                legacy_generated_commitments := map (\<lambda>r. r\<lparr>lg_source := set (lg_source r)\<rparr>)
                  (legacy_generated_commitments batch)\<rparr>)))"

section \<open>Summaries of outer transactions\<close>

definition emitted_output ::
  "indexed_log_source \<Rightarrow> emitted_output_family \<Rightarrow> u32 \<Rightarrow> u64 \<Rightarrow> bytes32 \<Rightarrow> emitted_output_commitment" where
  "emitted_output source family tree_number tree_position hash =
     \<lparr>eo_family = family, eo_log_index = log_index source, eo_tree_number = tree_number,
      eo_tree_position = tree_position, eo_hash = hash\<rparr>"

type_synonym summaries = "(bytes32 \<times> transact_output_summary) list"

definition record_public_transaction_summary ::
  "summaries \<Rightarrow> indexed_log_source \<Rightarrow> emitted_output_family \<Rightarrow> u32 \<Rightarrow> u64 \<Rightarrow> bytes32 \<Rightarrow> summaries" where
  "record_public_transaction_summary summaries source family tree_number tree_position hash =
     hm_update (transaction_hash source) (\<lambda>entry.
       let output = emitted_output source family tree_number tree_position hash in
       case entry of
         Some summary \<Rightarrow>
           summary\<lparr>sm_first_log_index := min (sm_first_log_index summary) (log_index source),
                   sm_last_log_index := max (sm_last_log_index summary) (log_index source),
                   sm_output_commitments := sm_output_commitments summary @ [output]\<rparr>
       | None \<Rightarrow>
           \<lparr>sm_source = source, sm_first_log_index = log_index source,
            sm_last_log_index = log_index source, sm_output_commitments = [output],
            sm_nullifier_groups = []\<rparr>) summaries"

definition group_nullifiers ::
  "indexed_nullifier list \<Rightarrow> ((bytes32 \<times> u64) \<times> nullifier_group) list" where
  "group_nullifiers items =
     fold (\<lambda>item.
       hm_update (transaction_hash (nf_source item), log_index (nf_source item)) (\<lambda>entry.
         case entry of
           Some grp \<Rightarrow> grp\<lparr>ng_nullifiers := ng_nullifiers grp @ [nf_nullifier item]\<rparr>
         | None \<Rightarrow> \<lparr>ng_source = nf_source item, ng_nullifiers = [nf_nullifier item]\<rparr>)) items []"

definition nullifier_groups_by_transaction ::
  "hash_order \<Rightarrow> indexed_nullifier list \<Rightarrow> (bytes32 \<times> nullifier_group list) list" where
  "nullifier_groups_by_transaction H items =
     map (\<lambda>(hash, groups). (hash, sort_key (\<lambda>grp. log_index (ng_source grp)) groups))
       (fold (\<lambda>grp.
          hm_update (transaction_hash (ng_source grp)) (\<lambda>entry.
            (case entry of None \<Rightarrow> [] | Some groups \<Rightarrow> groups) @ [grp]))
          (order_groups H (map snd (group_nullifiers items))) [])"

definition add_nullifier_groups :: "bytes32 \<times> nullifier_group list \<Rightarrow> summaries \<Rightarrow> summaries" where
  "add_nullifier_groups =
     (\<lambda>(hash, groups) summaries.
        if map_of summaries hash \<noteq> None then
          hm_update hash (\<lambda>entry.
            fold (\<lambda>grp summary.
              summary\<lparr>sm_first_log_index := min (sm_first_log_index summary) (log_index (ng_source grp)),
                      sm_last_log_index := max (sm_last_log_index summary) (log_index (ng_source grp)),
                      sm_nullifier_groups := sm_nullifier_groups summary @ [grp]\<rparr>)
              groups (the entry)) summaries
        else
          (case groups of
             [] \<Rightarrow> summaries
           | first_group # _ \<Rightarrow>
               summaries @
                 [(hash,
                   \<lparr>sm_source = ng_source first_group,
                    sm_first_log_index = Min (set (map (\<lambda>grp. log_index (ng_source grp)) groups)),
                    sm_last_log_index = Max (set (map (\<lambda>grp. log_index (ng_source grp)) groups)),
                    sm_output_commitments = [], sm_nullifier_groups = groups\<rparr>)]))"

definition transaction_summaries :: "railgun_lib \<Rightarrow> hash_order \<Rightarrow> indexed_log_batch \<Rightarrow> summaries" where
  "transaction_summaries R H batch =
     (let groups = nullifier_groups_by_transaction H (nullifiers batch);
          hashes = map (\<lambda>item. transaction_hash (nf_source item)) (nullifiers batch);
          summaries = fold (\<lambda>item summaries.
              record_public_transaction_summary summaries (tc_source item) TransactFamily
                (tc_tree_number item) (tc_tree_position item) (tc_hash item))
            (transact_commitments batch) [];
          summaries = fold (\<lambda>item summaries.
              record_public_transaction_summary summaries (le_source item) LegacyEncrypted
                (le_tree_number item) (le_tree_position item) (le_hash item))
            (filter (\<lambda>item. transaction_hash (le_source item) \<in> set hashes)
              (legacy_encrypted_commitments batch)) summaries;
          summaries = fold (\<lambda>item summaries.
              record_public_transaction_summary summaries (lg_source item) LegacyGenerated
                (lg_tree_number item) (lg_tree_position item)
                (legacy_preimage_hash R (lg_preimage item)))
            (filter (\<lambda>item. transaction_hash (lg_source item) \<in> set hashes)
              (legacy_generated_commitments batch)) summaries
      in fold add_nullifier_groups (order_grouped H groups) summaries)"

section \<open>Reading one outer transaction\<close>

record hydrate_caches =
  hc_timestamps :: "bytes32 \<Rightarrow> u64 option"
  hc_full_blocks :: "bytes32 \<Rightarrow> full_block_context option"

definition block_timestamp_of ::
  "chain_env \<Rightarrow> hydrate_caches \<Rightarrow> transact_output_summary \<Rightarrow> (u64 \<times> hydrate_caches) ingested" where
  "block_timestamp_of E caches summary =
     (let source = sm_source summary in
      case block_timestamp source of
        Some t \<Rightarrow> Inr (t, caches)
      | None \<Rightarrow>
          (case hc_timestamps caches (block_hash source) of
             Some t \<Rightarrow> Inr (t, caches)
           | None \<Rightarrow>
               and_then (block_timestamp_for_source (env_provider E) (block_hash source)
                   (block_number source)) (\<lambda>t.
                 Inr (t, caches\<lparr>hc_timestamps := (hc_timestamps caches)(block_hash source := Some t)\<rparr>))))"

definition full_block_context_of ::
  "chain_env \<Rightarrow> hydrate_caches \<Rightarrow> transact_output_summary \<Rightarrow> (full_block_context \<times> hydrate_caches) ingested"
  where
  "full_block_context_of E caches summary =
     (let hash = block_hash (sm_source summary) in
      case hc_full_blocks caches hash of
        Some context \<Rightarrow> Inr (context, caches)
      | None \<Rightarrow>
          and_then (get_raw_block_by_hash (env_provider E) hash) (\<lambda>response.
          and_then (read_block_context (env_text E) response summary) (\<lambda>context.
            Inr (context,
              caches\<lparr>hc_timestamps := (hc_timestamps caches)(hash := Some (fb_timestamp context)),
                     hc_full_blocks := (hc_full_blocks caches)(hash := Some context)\<rparr>))))"

definition missing_transaction :: "transact_output_summary \<Rightarrow> chain_log_ingestion_error" where
  "missing_transaction summary =
     MissingTransaction (transaction_hash (sm_source summary)) (block_number (sm_source summary))
       (block_hash (sm_source summary)) (sm_first_log_index summary) (sm_last_log_index summary)"

definition missing_railgun_calldata :: "transact_output_summary \<Rightarrow> chain_log_ingestion_error" where
  "missing_railgun_calldata summary =
     MissingRailgunCalldata (transaction_hash (sm_source summary)) (block_number (sm_source summary))
       (block_hash (sm_source summary)) (sm_first_log_index summary) (sm_last_log_index summary)"

definition public_transactions_from_calldata ::
  "chain_env \<Rightarrow> transact_output_summary \<Rightarrow> u64 \<Rightarrow> bytes \<Rightarrow> indexed_public_transaction list ingested" where
  "public_transactions_from_calldata E summary timestamp calldata =
     and_then (decode_railgun_transactions (env_calldata E) (env_lib E) calldata) (\<lambda>found.
       case found of
         None \<Rightarrow> Inr []
       | Some transactions \<Rightarrow>
           public_transactions_from_decoded (env_lib E) (env_leaf_count E) summary timestamp transactions)"

definition decoded_from_traces ::
  "chain_env \<Rightarrow> address \<Rightarrow> bytes32 \<Rightarrow> decoded_railgun_transaction list \<Rightarrow> decoded_railgun_transaction list ingested"
  where
  "decoded_from_traces E contract hash decoded =
     and_then
       (case debug_trace_transaction (env_provider E) hash of
          None \<Rightarrow> Inr decoded
        | Some trace \<Rightarrow>
            collect_debug_trace_railgun_transactions (env_calldata E) (env_lib E) (env_text E) contract
              decoded trace)
       (\<lambda>decoded'.
         if decoded' = [] then
           (case trace_transaction (env_provider E) hash of
              None \<Rightarrow> Inr decoded'
            | Some trace \<Rightarrow>
                collect_trace_transaction_railgun_transactions (env_calldata E) (env_lib E) (env_text E)
                  contract decoded' trace)
         else Inr decoded')"

definition public_transactions_from_trace ::
  "chain_env \<Rightarrow> address \<Rightarrow> transact_output_summary \<Rightarrow> u64 \<Rightarrow> indexed_public_transaction list ingested" where
  "public_transactions_from_trace E contract summary timestamp =
     and_then (decoded_from_traces E contract (transaction_hash (sm_source summary)) []) (\<lambda>decoded.
       public_transactions_from_decoded (env_lib E) (env_leaf_count E) summary timestamp decoded)"

definition public_transactions_from_calldata_or_trace ::
  "chain_env \<Rightarrow> address \<Rightarrow> transact_output_summary \<Rightarrow> u64 \<Rightarrow> bytes \<Rightarrow> indexed_public_transaction list ingested"
  where
  "public_transactions_from_calldata_or_trace E contract summary timestamp calldata =
     (case public_transactions_from_calldata E summary timestamp calldata of
        Inr rows \<Rightarrow>
          if rows \<noteq> [] then Inr rows
          else public_transactions_from_trace E contract summary timestamp
      | Inl (UnmatchedEmittedOutputCommitments _ _ _ _) \<Rightarrow>
          public_transactions_from_trace E contract summary timestamp
      | Inl e \<Rightarrow> Inl e)"

section \<open>Unshield commitments from calldata\<close>

definition resolve_row ::
  "railgun_lib \<Rightarrow> transact_output_summary \<Rightarrow> modern_transaction list \<Rightarrow> decoded_railgun_transaction
   \<Rightarrow> (decoded_railgun_transaction \<times> nat) ingested" where
  "resolve_row R summary decoded row =
     (let tx = transaction_hash (sm_source summary);
          bn = block_number (sm_source summary);
          contradiction = ContradictingUnshieldCalldata tx bn
      in if dt_nullifiers row = [] then Inl (contradiction ''nullifiers'')
         else
           case filter (\<lambda>transaction. mt_nullifiers transaction = dt_nullifiers row) decoded of
             [matched] \<Rightarrow>
               if mt_unshield matched = 0 then Inl (contradiction ''unshield type'')
               else if (ucast (mt_treeNumber matched) :: u64) \<noteq> dt_utxo_tree_in row
               then Inl (contradiction ''tree number'')
               else if mt_commitments matched = [] \<or> dt_commitments row = []
               then Inl (contradiction ''commitments'')
               else if butlast (dt_commitments row) \<noteq> butlast (mt_commitments matched)
               then Inl (contradiction ''commitments'')
               else
                 let preimage = Some (preimage_abi_encode R (mt_unshieldPreimage matched))
                 in if last (dt_commitments row) \<noteq> last (mt_commitments matched) then
                      let commitments = butlast (dt_commitments row) @ [last (mt_commitments matched)]
                      in Inr (row\<lparr>dt_commitments := commitments,
                                  dt_railgun_txid := railgun_txid_from_parts R (dt_nullifiers row)
                                    commitments (dt_bound_params_hash row),
                                  dt_unshield_preimage := preimage\<rparr>, 1)
                    else Inr (row\<lparr>dt_unshield_preimage := preimage\<rparr>, 0)
           | matches \<Rightarrow> Inl (AmbiguousUnshieldCalldata tx bn (length matches)))"

definition resolve_transaction ::
  "railgun_lib \<Rightarrow> transact_output_summary \<Rightarrow> modern_transaction list \<Rightarrow> nat \<times> decoded_railgun_transaction
   \<Rightarrow> ((nat \<times> decoded_railgun_transaction) \<times> nat) ingested" where
  "resolve_transaction R summary decoded = (\<lambda>(record_index, row).
     if dt_has_unshield row then
       and_then (resolve_row R summary decoded row) (\<lambda>(row', divergence).
         Inr ((record_index, row'), divergence))
     else Inr ((record_index, row), 0))"

definition resolve_call ::
  "railgun_lib \<Rightarrow> transact_output_summary \<Rightarrow> modern_transaction list \<Rightarrow> action_call
   \<Rightarrow> (action_call \<times> nat) ingested" where
  "resolve_call R summary decoded = (\<lambda>(transact_log, transactions).
     and_then (traverse (resolve_transaction R summary decoded) transactions) (\<lambda>resolved.
       Inr ((transact_log, map fst resolved), sum_list (map snd resolved))))"

definition unshield_rows :: "action_call list \<Rightarrow> decoded_railgun_transaction list" where
  "unshield_rows calls =
     filter dt_has_unshield (concat (map (\<lambda>(_, transactions). map snd transactions) calls))"

definition resolve_unshield_commitments ::
  "calldata_abi \<Rightarrow> railgun_lib \<Rightarrow> transact_output_summary \<Rightarrow> bytes \<Rightarrow> action_call list
   \<Rightarrow> (action_call list \<times> nat \<times> nat) ingested" where
  "resolve_unshield_commitments C R summary calldata calls =
     (let decoded = collect_nested_railgun_transactions C calldata 0 []
      in if decoded = [] then Inr (calls, length (unshield_rows calls), 0)
         else if list_ex (\<lambda>transaction. mt_nullifiers transaction = []) decoded
         then Inl (ContradictingUnshieldCalldata (transaction_hash (sm_source summary))
           (block_number (sm_source summary)) ''nullifiers'')
         else
           and_then (traverse (resolve_call R summary decoded) calls) (\<lambda>resolved.
             Inr (map fst resolved, 0, sum_list (map snd resolved))))"

section \<open>Public transactions\<close>

text \<open>The calldata of an outer transaction, from the transaction itself or from its block's body.\<close>

definition transaction_calldata ::
  "chain_env \<Rightarrow> hydrate_caches \<Rightarrow> transact_output_summary \<Rightarrow> (bytes \<times> hydrate_caches) ingested" where
  "transaction_calldata E caches summary =
     and_then (get_transaction_by_hash (env_provider E) (transaction_hash (sm_source summary))) (\<lambda>response.
       case response of
         Some input \<Rightarrow> Inr (input, caches)
       | None \<Rightarrow>
           and_then (full_block_context_of E caches summary) (\<lambda>(context, caches').
           and_then (ok_or (missing_transaction summary)
               (fb_transaction_inputs context (transaction_hash (sm_source summary)))) (\<lambda>input.
             Inr (input, caches'))))"

definition has_unshield_row :: "action_call list \<Rightarrow> bool" where
  "has_unshield_row calls \<longleftrightarrow> unshield_rows calls \<noteq> []"

text \<open>Each call is matched against the outputs of its own \<open>Transact\<close> log.\<close>

definition call_summary :: "transact_output_summary \<Rightarrow> u64 option \<Rightarrow> transact_output_summary" where
  "call_summary summary transact_log =
     \<lparr>sm_source = sm_source summary, sm_first_log_index = sm_first_log_index summary,
      sm_last_log_index = sm_last_log_index summary,
      sm_output_commitments =
        filter (\<lambda>output. Some (eo_log_index output) = transact_log) (sm_output_commitments summary),
      sm_nullifier_groups = []\<rparr>"

definition call_rows ::
  "chain_env \<Rightarrow> transact_output_summary \<Rightarrow> u64 \<Rightarrow> action_call
   \<Rightarrow> (indexed_public_transaction \<times> nat) list ingested" where
  "call_rows E summary timestamp = (\<lambda>(transact_log, transactions).
     and_then (public_transactions_from_decoded (env_lib E) (env_leaf_count E)
         (call_summary summary transact_log) timestamp (map snd transactions)) (\<lambda>rows.
       Inr (zip rows (map fst transactions))))"

definition number_row ::
  "railgun_lib \<Rightarrow> bytes32 \<Rightarrow> nat \<times> (indexed_public_transaction \<times> nat) \<Rightarrow> indexed_public_transaction ingested"
  where
  "number_row R hash = (\<lambda>(k, row, _).
     and_then (ok_or (IntegerOverflow ''railgun_transaction_index'') (try_from_len k)) (\<lambda>index.
       Inr (row\<lparr>pt_railgun_transaction_index := index,
               pt_id := show_hash R hash @ '':'' @ show_nat k\<rparr>)))"

record hydrate_state =
  hy_caches :: hydrate_caches
  hy_events :: action_events
  hy_rows :: "indexed_public_transaction list"
  hy_derivations :: nat
  hy_divergences :: nat

definition rows_from_action_logs ::
  "chain_env \<Rightarrow> hydrate_state \<Rightarrow> transact_output_summary \<Rightarrow> hydrate_state ingested" where
  "rows_from_action_logs E st summary =
     (let hash = transaction_hash (sm_source summary); R = env_lib E in
      and_then (decoded_transactions_from_action_logs R summary (hy_events st hash)) (\<lambda>calls.
      and_then
        (if has_unshield_row calls then
           and_then (transaction_calldata E (hy_caches st) summary) (\<lambda>(calldata, caches).
           and_then (resolve_unshield_commitments (env_calldata E) R summary calldata calls)
             (\<lambda>(calls', log_derivations, divergences).
               Inr (calls', caches, log_derivations, divergences)))
         else Inr (calls, hy_caches st, 0, 0))
        (\<lambda>(calls', caches, log_derivations, divergences).
      and_then (block_timestamp_of E caches summary) (\<lambda>(timestamp, caches').
      and_then (traverse (call_rows E summary timestamp) calls') (\<lambda>rows.
      and_then (traverse (number_row R hash) (enumerate 0 (sort_key snd (concat rows)))) (\<lambda>numbered.
        Inr (st\<lparr>hy_caches := caches', hy_events := (hy_events st)(hash := []),
                hy_rows := hy_rows st @ numbered,
                hy_derivations := hy_derivations st + log_derivations,
                hy_divergences := hy_divergences st + divergences\<rparr>))))))) "

definition rows_from_calldata ::
  "chain_env \<Rightarrow> address \<Rightarrow> hydrate_state \<Rightarrow> transact_output_summary \<Rightarrow> hydrate_state ingested" where
  "rows_from_calldata E contract st summary =
     and_then
       (and_then (get_transaction_by_hash (env_provider E) (transaction_hash (sm_source summary)))
          (\<lambda>response.
          case response of
            Some input \<Rightarrow>
              and_then (block_timestamp_of E (hy_caches st) summary) (\<lambda>(timestamp, caches).
                Inr (input, timestamp, caches))
          | None \<Rightarrow>
              and_then (full_block_context_of E (hy_caches st) summary) (\<lambda>(context, caches).
              and_then (ok_or (missing_transaction summary)
                  (fb_transaction_inputs context (transaction_hash (sm_source summary)))) (\<lambda>input.
                Inr (input, fb_timestamp context, caches)))))
       (\<lambda>(calldata, timestamp, caches).
     and_then (public_transactions_from_calldata_or_trace E contract summary timestamp calldata) (\<lambda>rows.
       if rows = [] then Inl (missing_railgun_calldata summary)
       else Inr (st\<lparr>hy_caches := caches, hy_rows := hy_rows st @ rows\<rparr>)))"

definition hydrate_summary ::
  "chain_env \<Rightarrow> address \<Rightarrow> u64 option \<Rightarrow> hydrate_state \<Rightarrow> transact_output_summary \<Rightarrow> hydrate_state ingested"
  where
  "hydrate_summary E contract action_start_block st summary =
     (if (case action_start_block of None \<Rightarrow> False
          | Some start \<Rightarrow> start \<le> block_number (sm_source summary))
      then rows_from_action_logs E st summary
      else rows_from_calldata E contract st summary)"

definition row_key :: "indexed_public_transaction \<Rightarrow> u64 \<times> u64 \<times> bytes32 \<times> u64" where
  "row_key row = (block_number (pt_source row), pt_first_log_index row, transaction_hash (pt_source row),
     pt_railgun_transaction_index row)"

definition hydrate_public_transactions ::
  "chain_env \<Rightarrow> address \<Rightarrow> u64 option \<Rightarrow> indexed_log_batch \<Rightarrow> indexed_log_batch ingested" where
  "hydrate_public_transactions E contract action_start_block batch =
     (let summaries = transaction_summaries (env_lib E) (env_order E) batch;
          events = (case action_start_block of None \<Rightarrow> (\<lambda>_. [])
            | Some start \<Rightarrow> action_log_events_by_transaction batch start)
      in and_then
           (try_fold (hydrate_summary E contract action_start_block)
              \<lparr>hy_caches = \<lparr>hc_timestamps = \<lambda>_. None, hc_full_blocks = \<lambda>_. None\<rparr>, hy_events = events,
               hy_rows = public_transactions batch,
               hy_derivations = unshield_log_derivations batch,
               hy_divergences = unshield_log_divergences batch\<rparr>
              (order_summaries (env_order E) (map snd summaries))) (\<lambda>st.
           Inr (batch\<lparr>public_transactions := sort_key row_key (hy_rows st),
                      unshield_log_derivations := hy_derivations st,
                      unshield_log_divergences := hy_divergences st\<rparr>)))"

record resolved_public_transaction =
  rp_railgun_transaction_index :: u64
  rp_nullifiers :: "bytes32 list"
  rp_commitments :: "bytes32 list"
  rp_bound_params_hash :: bytes32
  rp_has_unshield :: bool
  rp_unshield_preimage :: "bytes option"
  rp_utxo_tree_in :: u64

definition resolve_public_transactions_by_hash ::
  "chain_env \<Rightarrow> address \<Rightarrow> bytes32 \<Rightarrow> resolved_public_transaction list ingested" where
  "resolve_public_transactions_by_hash E contract hash =
     and_then (get_transaction_by_hash (env_provider E) hash) (\<lambda>response.
     and_then (ok_or (MissingTransactionByHash hash) response) (\<lambda>input.
     and_then (decode_railgun_transactions (env_calldata E) (env_lib E) input) (\<lambda>found.
     and_then
       (case found of
          Some (t # ts) \<Rightarrow> Inr (t # ts)
        | _ \<Rightarrow> decoded_from_traces E contract hash []) (\<lambda>transactions.
       if transactions = [] then Inl (MissingRailgunCalldataByHash hash)
       else
         traverse (\<lambda>(k, t).
           and_then (ok_or (IntegerOverflow ''railgun_transaction_index'') (try_from_len k)) (\<lambda>index.
             Inr \<lparr>rp_railgun_transaction_index = index, rp_nullifiers = dt_nullifiers t,
                  rp_commitments = dt_commitments t, rp_bound_params_hash = dt_bound_params_hash t,
                  rp_has_unshield = dt_has_unshield t,
                  rp_unshield_preimage = dt_unshield_preimage t,
                  rp_utxo_tree_in = dt_utxo_tree_in t\<rparr>)) (enumerate 0 transactions)))))"

end
