(* ===== verification/Action_Calls.thy ===== *)
theory Action_Calls
  imports Action_Logs
begin

text \<open>
  What the contract emits, and that the stack machine of \<open>Action_Logs\<close> reads it back. A Railgun call
  emits its \<open>Nullified\<close> logs, its \<open>Action\<close>, then \<open>Unshield\<close> logs interleaved with the logs of calls
  nested in it, then \<open>Transact\<close> if it has output commitments. \<open>railgun_call\<close> is the tree of such
  calls with the log indexes they are emitted under; \<open>emit_items\<close> flattens it into logs;
  \<open>expected_calls\<close> gives the transactions each call stands for, read directly off the tree.
\<close>

record call_header =
  ch_nullified :: "(u64 \<times> u32 \<times> bytes32 list) list"
  ch_action_index :: u64
  ch_configs :: "tx_config list"
  ch_transact_index :: u64
  ch_hashes :: "bytes32 list"

text \<open>A call has a body, up to the log that completes it, and what runs inside it after that. A
  shield inside a call or between calls emits an \<open>Action\<close> without configurations.\<close>

datatype railgun_call = Railgun_Call call_header call_items call_items
  and call_items =
      End
    | Unshield_Item u64 unshield_event call_items
    | Shield_Item u64 call_items
    | Nested_Item railgun_call call_items

definition expects_transact :: "tx_config list \<Rightarrow> bool" where
  "expects_transact configs \<longleftrightarrow> list_ex (\<lambda>config. 0 < commitmentsCount config) configs"

primrec emit_call :: "railgun_call \<Rightarrow> (u64 \<times> action_log_event) list"
  and emit_items :: "call_items \<Rightarrow> (u64 \<times> action_log_event) list" where
  "emit_call (Railgun_Call h body tail) =
     map (\<lambda>(i, t, nfs). (i, NullifiedEvent t nfs)) (ch_nullified h)
     @ [(ch_action_index h, ActionEvent (ch_configs h))]
     @ emit_items body
     @ (if expects_transact (ch_configs h) then [(ch_transact_index h, TransactEvent (ch_hashes h))]
        else [])
     @ emit_items tail"
| "emit_items End = []"
| "emit_items (Unshield_Item i u items) = (i, UnshieldEvent u) # emit_items items"
| "emit_items (Shield_Item i items) = (i, ActionEvent []) # emit_items items"
| "emit_items (Nested_Item c items) = emit_call c @ emit_items items"

primrec item_unshields :: "call_items \<Rightarrow> unshield_event list" where
  "item_unshields End = []"
| "item_unshields (Unshield_Item i u items) = u # item_unshields items"
| "item_unshields (Shield_Item i items) = item_unshields items"
| "item_unshields (Nested_Item c items) = item_unshields items"

text \<open>A body that ends with the call's last unshield.\<close>

fun ends_with_unshield :: "call_items \<Rightarrow> bool" where
  "ends_with_unshield End = False"
| "ends_with_unshield (Unshield_Item i u End) = True"
| "ends_with_unshield (Unshield_Item i u items) = ends_with_unshield items"
| "ends_with_unshield (Shield_Item i items) = ends_with_unshield items"
| "ends_with_unshield (Nested_Item c items) = ends_with_unshield items"

primrec call_records :: "railgun_call \<Rightarrow> nat" and item_records :: "call_items \<Rightarrow> nat" where
  "call_records (Railgun_Call h body tail) =
     length (ch_configs h) + item_records body + item_records tail"
| "item_records End = 0"
| "item_records (Unshield_Item i u items) = item_records items"
| "item_records (Shield_Item i items) = item_records items"
| "item_records (Nested_Item c items) = call_records c + item_records items"

definition unshield_fits :: "unshield_event \<Rightarrow> bool" where
  "unshield_fits u \<longleftrightarrow> unat (unshield_amount u) + unat (unshield_fee u) < 2 ^ 120"

definition header_ok :: "call_header \<Rightarrow> unshield_event list \<Rightarrow> bool" where
  "header_ok h us \<longleftrightarrow>
     ch_configs h \<noteq> []
     \<and> length (ch_nullified h) = length (ch_configs h)
     \<and> list_all (\<lambda>((_, _, nfs), config). unat (nullifiersCount config) = length nfs)
         (zip (ch_nullified h) (ch_configs h))
     \<and> length us = length (filter hasUnshield (ch_configs h))
     \<and> list_all unshield_fits us
     \<and> (if expects_transact (ch_configs h)
        then sum_list (map (\<lambda>c. unat (commitmentsCount c)) (ch_configs h)) = length (ch_hashes h)
          \<and> length (ch_hashes h) < 2 ^ 64
        else ch_hashes h = [])"

primrec call_ok :: "railgun_call \<Rightarrow> bool" and items_ok :: "call_items \<Rightarrow> bool" where
  "call_ok (Railgun_Call h body tail) \<longleftrightarrow>
     header_ok h (item_unshields body) \<and> items_ok body \<and> items_ok tail \<and> item_unshields tail = []
     \<and> (if expects_transact (ch_configs h) then tail = End
        else body = End \<or> ends_with_unshield body)"
| "items_ok End \<longleftrightarrow> True"
| "items_ok (Unshield_Item i u items) \<longleftrightarrow> items_ok items"
| "items_ok (Shield_Item i items) \<longleftrightarrow> items_ok items"
| "items_ok (Nested_Item c items) \<longleftrightarrow> call_ok c \<and> items_ok items"

section \<open>The transactions of a call\<close>

fun slices :: "nat list \<Rightarrow> 'a list \<Rightarrow> 'a list list" where
  "slices [] xs = []"
| "slices (n # ns) xs = take n xs # slices ns (drop n xs)"

fun assign_unshields :: "tx_config list \<Rightarrow> unshield_event list \<Rightarrow> unshield_event option list" where
  "assign_unshields [] us = []"
| "assign_unshields (c # cs) us =
     (if hasUnshield c then
        (case us of [] \<Rightarrow> None # assign_unshields cs [] | u # us' \<Rightarrow> Some u # assign_unshields cs us')
      else None # assign_unshields cs us)"

definition unshield_preimage_of :: "unshield_event \<Rightarrow> commitment_preimage" where
  "unshield_preimage_of u = \<lparr>npk = ucast (unshield_to u), token = unshield_token u,
     preimage_value = word_of_nat (unat (unshield_amount u) + unat (unshield_fee u))\<rparr>"

definition expected_transaction ::
  "railgun_lib \<Rightarrow> tx_config \<Rightarrow> u32 \<times> bytes32 list \<Rightarrow> bytes32 list \<Rightarrow> unshield_event option
   \<Rightarrow> decoded_railgun_transaction" where
  "expected_transaction R config nullified hashes u =
     action_transaction R config (fst nullified) (snd nullified)
       (hashes @ (case u of None \<Rightarrow> [] | Some u \<Rightarrow> [preimage_hash R (unshield_preimage_of u)]))
       (map_option (\<lambda>u. preimage_abi_encode R (unshield_preimage_of u)) u)"

fun expected_transactions ::
  "railgun_lib \<Rightarrow> nat \<Rightarrow> tx_config list \<Rightarrow> (u32 \<times> bytes32 list) list \<Rightarrow> bytes32 list list
   \<Rightarrow> unshield_event option list \<Rightarrow> action_transactions" where
  "expected_transactions R n (c # cs) (nf # nfs) (hs # hss) (u # us) =
     (n, expected_transaction R c nf hs u) # expected_transactions R (Suc n) cs nfs hss us"
| "expected_transactions R n cs nfs hss us = []"

definition own_transactions ::
  "railgun_lib \<Rightarrow> nat \<Rightarrow> call_header \<Rightarrow> unshield_event list \<Rightarrow> action_transactions" where
  "own_transactions R n h us =
     expected_transactions R n (ch_configs h) (map snd (ch_nullified h))
       (slices (map (\<lambda>c. unat (commitmentsCount c)) (ch_configs h)) (ch_hashes h))
       (assign_unshields (ch_configs h) us)"

primrec expected_call :: "railgun_lib \<Rightarrow> nat \<Rightarrow> railgun_call \<Rightarrow> action_call list"
  and expected_calls :: "railgun_lib \<Rightarrow> nat \<Rightarrow> call_items \<Rightarrow> action_call list" where
  "expected_call R n (Railgun_Call h body tail) =
     expected_calls R (n + length (ch_configs h)) body
     @ [(if expects_transact (ch_configs h) then Some (ch_transact_index h) else None,
         own_transactions R n h (item_unshields body))]
     @ expected_calls R (n + length (ch_configs h) + item_records body) tail"
| "expected_calls R n End = []"
| "expected_calls R n (Unshield_Item i u items) = expected_calls R n items"
| "expected_calls R n (Shield_Item i items) = expected_calls R n items"
| "expected_calls R n (Nested_Item c items) =
     expected_call R n c @ expected_calls R (n + call_records c) items"

lemma take_unshield_fits:
  "unshield_fits u \<Longrightarrow> hasUnshield config \<Longrightarrow>
   take_unshield R missing config (u # us) =
     Inr ([preimage_hash R (unshield_preimage_of u)],
          Some (preimage_abi_encode R (unshield_preimage_of u)), us)"
  by (simp add: take_unshield_def unshield_fits_def unshield_commitment_ok unshield_preimage_of_def
      Let_def)

lemma frame_transactions_ok:
  assumes "length nfs = length configs" and "length us = length (filter hasUnshield configs)"
    and "list_all unshield_fits us"
    and "offset + sum_list (map (\<lambda>c. unat (commitmentsCount c)) configs) \<le> length hashes"
    and "length hashes < 2 ^ 64"
  shows "frame_transactions R mismatch missing hashes n offset us (zip configs nfs) =
    Inr (offset + sum_list (map (\<lambda>c. unat (commitmentsCount c)) configs),
      expected_transactions R n configs nfs
        (slices (map (\<lambda>c. unat (commitmentsCount c)) configs) (drop offset hashes))
        (assign_unshields configs us))"
  using assms(1-4)
proof (induction configs arbitrary: nfs us offset n)
  case Nil
  then show ?case by simp
next
  case (Cons c cs)
  then obtain t nf nfs' where nfs: "nfs = (t, nf) # nfs'" "length nfs' = length cs"
    by (cases nfs) auto
  have bounds: "\<not> 2 ^ 64 \<le> offset + unat (commitmentsCount c)"
    "\<not> length hashes < offset + unat (commitmentsCount c)"
    using Cons.prems(4) assms(5) by auto
  have IH: "frame_transactions R mismatch missing hashes (n + 1) (offset + unat (commitmentsCount c)) vs
      (zip cs nfs') =
    Inr (offset + unat (commitmentsCount c) + sum_list (map (\<lambda>c. unat (commitmentsCount c)) cs),
      expected_transactions R (n + 1) cs nfs'
        (slices (map (\<lambda>c. unat (commitmentsCount c)) cs)
          (drop (offset + unat (commitmentsCount c)) hashes))
        (assign_unshields cs vs))"
    if "length vs = length (filter hasUnshield cs)" "list_all unshield_fits vs" for vs
    using Cons.IH [OF nfs(2) that] Cons.prems(4) by simp
  show ?case
  proof (cases "hasUnshield c")
    case True
    with Cons.prems obtain u us' where us: "us = u # us'" "length us' = length (filter hasUnshield cs)"
      by (cases us) auto
    with Cons.prems(3) have "unshield_fits u" "list_all unshield_fits us'" by auto
    then show ?thesis
      using True nfs us bounds IH [OF us(2)]
      by (simp add: take_unshield_fits expected_transaction_def Let_def add.commute add.left_commute
          drop_drop del: power_numeral)
  next
    case False
    then show ?thesis
      using nfs bounds IH [of us] Cons.prems
      by (simp add: take_unshield_def expected_transaction_def Let_def add.commute add.left_commute
          del: power_numeral)
  qed
qed

section \<open>Running the machine on a call\<close>

definition call_frame :: "nat \<Rightarrow> call_header \<Rightarrow> unshield_event list \<Rightarrow> action_frame" where
  "call_frame n h us = \<lparr>fr_log_index = ch_action_index h, fr_record_base = n,
     fr_configs = ch_configs h, fr_nullified = map snd (ch_nullified h), fr_unshields = us,
     fr_expects_transact = expects_transact (ch_configs h)\<rparr>"

lemma no_outputs: "\<not> expects_transact configs \<Longrightarrow> sum_list (map (\<lambda>c. unat (commitmentsCount c)) configs) = 0"
  by (induction configs) (auto simp: expects_transact_def word_gt_0)

lemma call_frame_transactions:
  assumes "header_ok h us"
  shows "transactions_from_action_frame R summary (call_frame n h us) (ch_hashes h) i
       = Inr (own_transactions R n h us)"
proof -
  have sum: "sum_list (map (\<lambda>c. unat (commitmentsCount c)) (ch_configs h)) = length (ch_hashes h)"
    and len: "length (ch_hashes h) < 2 ^ 64"
    using assms no_outputs [of "ch_configs h"] by (auto simp: header_ok_def split: if_splits)
  show ?thesis
    using assms frame_transactions_ok [of "map snd (ch_nullified h)" "ch_configs h" us 0 "ch_hashes h"
        R _ _ n, OF _ _ _ _ len]
    by (simp add: transactions_from_action_frame_def call_frame_def pending_unshields_def Let_def sum
        header_ok_def own_transactions_def)
qed

definition frame_open :: "action_frame \<Rightarrow> bool" where
  "frame_open f \<longleftrightarrow> fr_expects_transact f \<or> 0 < pending_unshields f"

definition top_open :: "action_state \<Rightarrow> bool" where
  "top_open st \<longleftrightarrow> (case as_frames st of [] \<Rightarrow> True | f # _ \<Rightarrow> frame_open f)"

lemma close_completed_open [simp]: "top_open st \<Longrightarrow> close_completed R summary st = Inr st"
  by (auto simp: close_completed_def top_open_def frame_open_def split: list.splits)

lemma top_open_simps [simp]:
  "top_open (st\<lparr>as_pending_nullified := p\<rparr>) = top_open st"
  "top_open (st\<lparr>as_next_record_index := n\<rparr>) = top_open st"
  "top_open (st\<lparr>as_decoded := d\<rparr>) = top_open st"
  "top_open (st\<lparr>as_frames := f # fs\<rparr>) = frame_open f"
  by (simp_all add: top_open_def)

lemma run_nullified:
  "top_open st \<Longrightarrow>
   try_fold (action_step R summary) st (map (\<lambda>(i, t, nfs). (i, NullifiedEvent t nfs)) ns) =
     Inr (st\<lparr>as_pending_nullified := as_pending_nullified st @ ns\<rparr>)"
proof (induction ns arbitrary: st)
  case Nil
  then show ?case by simp
next
  case (Cons n ns)
  then show ?case
    by (cases n) (simp add: action_step_def handle_event_def)
qed

lemma drop_index: "(\<lambda>(_, y). id y) = snd"
  by auto

lemma step_action:
  assumes "header_ok h us" and "as_pending_nullified st = ch_nullified h"
  shows "action_step R summary st (ch_action_index h, ActionEvent (ch_configs h)) =
    close_completed R summary (st\<lparr>as_next_record_index := as_next_record_index st + length (ch_configs h),
      as_frames := call_frame (as_next_record_index st) h [] # as_frames st, as_pending_nullified := []\<rparr>)"
  using assms
  by (auto simp: action_step_def handle_event_def header_ok_def call_frame_def expects_transact_def
      Let_def drop_index)

lemma step_shield:
  "as_pending_nullified st = [] \<Longrightarrow> top_open st \<Longrightarrow>
   action_step R summary st (i, ActionEvent []) = Inr st"
  by (simp add: action_step_def handle_event_def)

text \<open>The unshields a run of items adds to the innermost frame, which must stay open meanwhile.\<close>

definition takes :: "action_state \<Rightarrow> unshield_event list \<Rightarrow> bool" where
  "takes st us \<longleftrightarrow>
     (case as_frames st of
        [] \<Rightarrow> us = []
      | f # _ \<Rightarrow> length us \<le> pending_unshields f
          \<and> (fr_expects_transact f \<or> length us < pending_unshields f))"

definition add_unshields :: "unshield_event list \<Rightarrow> action_state \<Rightarrow> action_state" where
  "add_unshields us st =
     (case as_frames st of
        [] \<Rightarrow> st
      | f # fs \<Rightarrow> st\<lparr>as_frames := f\<lparr>fr_unshields := fr_unshields f @ us\<rparr> # fs\<rparr>)"

definition advance :: "nat \<Rightarrow> action_call list \<Rightarrow> action_state \<Rightarrow> action_state" where
  "advance n calls st =
     st\<lparr>as_next_record_index := as_next_record_index st + n, as_decoded := as_decoded st @ calls\<rparr>"

lemma takes_open: "takes st us \<Longrightarrow> top_open st"
  by (auto simp: takes_def top_open_def frame_open_def split: list.splits)

lemma pending_add [simp]:
  "pending_unshields (f\<lparr>fr_unshields := fr_unshields f @ us\<rparr>) = pending_unshields f - length us"
  by (simp add: pending_unshields_def)

lemma takes_step:
  assumes "takes st (u # us)"
  shows "action_step R summary st (i, UnshieldEvent u) = Inr (add_unshields [u] st)"
    and "takes (add_unshields [u] st) us"
    and "add_unshields us (add_unshields [u] st) = add_unshields (u # us) st"
  using assms
  by (auto simp: takes_def add_unshields_def action_step_def handle_event_def top_open_def
      frame_open_def split: list.splits)

lemma state_simps [simp]:
  "as_pending_nullified (advance n calls st) = as_pending_nullified st"
  "as_frames (advance n calls st) = as_frames st"
  "as_next_record_index (advance n calls st) = as_next_record_index st + n"
  "as_pending_nullified (add_unshields us st) = as_pending_nullified st"
  "as_next_record_index (add_unshields us st) = as_next_record_index st"
  "takes (advance n calls st) us = takes st us"
  "top_open (advance n calls st) = top_open st"
  "add_unshields us (advance n calls st) = advance n calls (add_unshields us st)"
  "advance m calls' (advance n calls st) = advance (n + m) (calls @ calls') st"
  by (auto simp: advance_def add_unshields_def takes_def top_open_def split: list.splits)

lemma add_unshields_Nil [simp]: "add_unshields [] st = st"
  by (simp add: add_unshields_def split: list.splits)

lemma advance_0 [simp]: "advance 0 [] st = st"
  by (simp add: advance_def)

text \<open>The call that closes at its last unshield.\<close>

lemma last_unshield_closes:
  assumes "as_frames st = f # fs" and "\<not> fr_expects_transact f" and "pending_unshields f = 1"
  shows "action_step R summary st (i, UnshieldEvent u) =
    and_then (transactions_from_action_frame R summary (f\<lparr>fr_unshields := fr_unshields f @ [u]\<rparr>) []
        (fr_log_index f))
      (\<lambda>ts. Inr (advance 0 [(None, ts)] (st\<lparr>as_frames := fs\<rparr>)))"
  using assms
  by (simp add: action_step_def handle_event_def close_completed_def advance_def)

definition closing ::
  "railgun_lib \<Rightarrow> transact_output_summary \<Rightarrow> action_state \<Rightarrow> unshield_event list
   \<Rightarrow> nat \<Rightarrow> action_call list \<Rightarrow> action_state ingested" where
  "closing R summary st us n calls =
     (case as_frames st of
        [] \<Rightarrow> Inr st
      | f # fs \<Rightarrow>
          and_then (transactions_from_action_frame R summary
              (f\<lparr>fr_unshields := fr_unshields f @ us\<rparr>) [] (fr_log_index f))
            (\<lambda>ts. Inr (advance n (calls @ [(None, ts)]) (st\<lparr>as_frames := fs\<rparr>))))"

definition awaits :: "action_state \<Rightarrow> unshield_event list \<Rightarrow> bool" where
  "awaits st us \<longleftrightarrow>
     (case as_frames st of [] \<Rightarrow> False
      | f # _ \<Rightarrow> \<not> fr_expects_transact f \<and> pending_unshields f = length us)"

lemma awaits_open: "awaits st us \<Longrightarrow> us \<noteq> [] \<Longrightarrow> top_open st"
  by (auto simp: awaits_def top_open_def frame_open_def split: list.splits)

lemma awaits_step:
  assumes "awaits st (u # us)" and "us \<noteq> []"
  shows "action_step R summary st (i, UnshieldEvent u) = Inr (add_unshields [u] st)"
    and "awaits (add_unshields [u] st) us"
    and "closing R summary (add_unshields [u] st) us n calls = closing R summary st (u # us) n calls"
  using assms
  by (auto simp: awaits_def add_unshields_def action_step_def handle_event_def top_open_def
      frame_open_def closing_def advance_def split: list.splits)

lemma awaits_advance [simp]: "awaits (advance n calls st) us = awaits st us"
  by (simp add: awaits_def)

lemma closing_advance [simp]:
  "closing R summary (advance m calls' st) us n calls = closing R summary st us (m + n) (calls' @ calls)"
  if "awaits st us"
  using that
  by (cases "as_frames st")
    (auto simp: awaits_def closing_def advance_def add.assoc intro!: and_then_cong)

lemma ends_has_unshield: "ends_with_unshield items \<Longrightarrow> item_unshields items \<noteq> []"
  by (induction items rule: ends_with_unshield.induct) auto

lemma transact_step:
  assumes "as_frames st = f # fs" and "fr_expects_transact f"
    and "transactions_from_action_frame R summary f hashes i = Inr ts"
    and "top_open (st\<lparr>as_frames := fs\<rparr>)"
  shows "action_step R summary st (i, TransactEvent hashes) =
    Inr (advance 0 [(Some i, ts)] (st\<lparr>as_frames := fs\<rparr>))"
proof -
  have "handle_event R summary st i (TransactEvent hashes) =
      Inr (advance 0 [(Some i, ts)] (st\<lparr>as_frames := fs\<rparr>))"
    using assms(1-3) by (simp add: handle_event_def advance_def)
  with assms(4) show ?thesis by (simp add: action_step_def)
qed

lemma run_calls:
  "call_ok c \<Longrightarrow> as_pending_nullified st = [] \<Longrightarrow> top_open st \<Longrightarrow>
     try_fold (action_step R summary) st (emit_call c) =
       Inr (advance (call_records c) (expected_call R (as_next_record_index st) c) st)"
  "items_ok items \<Longrightarrow> as_pending_nullified st = [] \<Longrightarrow>
     (takes st (item_unshields items) \<longrightarrow>
        try_fold (action_step R summary) st (emit_items items) =
          Inr (advance (item_records items) (expected_calls R (as_next_record_index st) items)
            (add_unshields (item_unshields items) st)))
     \<and> (awaits st (item_unshields items) \<and> ends_with_unshield items \<longrightarrow>
        try_fold (action_step R summary) st (emit_items items) =
          closing R summary st (item_unshields items) (item_records items)
            (expected_calls R (as_next_record_index st) items))"
proof (induction c and items arbitrary: st and st)
  case (Railgun_Call h body tail)
  let ?us = "item_unshields body" and ?n = "as_next_record_index st" and ?k = "length (ch_configs h)"
  have ok: "header_ok h ?us" "items_ok body" "items_ok tail" "item_unshields tail = []"
    using Railgun_Call.prems(1) by simp_all
  define opened where "opened = st\<lparr>as_next_record_index := ?n + ?k, as_frames := call_frame ?n h [] # as_frames st,
    as_pending_nullified := []\<rparr>"
  have start: "try_fold (action_step R summary) st (emit_call (Railgun_Call h body tail)) =
      and_then (close_completed R summary opened) (\<lambda>st. try_fold (action_step R summary) st
        (emit_items body
         @ (if expects_transact (ch_configs h)
            then [(ch_transact_index h, TransactEvent (ch_hashes h))] else [])
         @ emit_items tail))"
    using run_nullified [OF Railgun_Call.prems(3), of R summary "ch_nullified h"]
      step_action [OF ok(1), of "st\<lparr>as_pending_nullified := ch_nullified h\<rparr>" R summary]
    by (simp add: try_fold_append Railgun_Call.prems(2) opened_def)
  have pending: "pending_unshields (call_frame ?n h []) = length ?us"
    using ok(1) by (simp add: pending_unshields_def call_frame_def header_ok_def)
  have frame_us: "(call_frame ?n h [])\<lparr>fr_unshields := fr_unshields (call_frame ?n h []) @ us\<rparr>
      = call_frame ?n h us" for us
    by (simp add: call_frame_def)
  have expects: "fr_expects_transact (call_frame ?n h us) = expects_transact (ch_configs h)" for us
    by (simp add: call_frame_def)
  have opened: "as_pending_nullified opened = []" "as_next_record_index opened = ?n + ?k"
    "as_frames opened = call_frame ?n h [] # as_frames st"
    by (simp_all add: opened_def)
  have closed: "opened\<lparr>as_frames := as_frames st\<rparr> = advance ?k [] st"
    using Railgun_Call.prems(2) by (simp add: opened_def advance_def)
  have tail: "try_fold (action_step R summary) (advance m calls st) (emit_items tail) =
      Inr (advance (item_records tail) (expected_calls R (?n + m) tail) (advance m calls st))" for m calls
    using Railgun_Call.IH(2) [of "advance m calls st"] Railgun_Call.prems(2,3) ok(3,4)
    by (auto simp: takes_def top_open_def frame_open_def split: list.splits)
  have own: "transactions_from_action_frame R summary (call_frame ?n h ?us) (ch_hashes h) i
      = Inr (own_transactions R ?n h ?us)" for i
    by (rule call_frame_transactions [OF ok(1)])
  show ?case
  proof (cases "expects_transact (ch_configs h)")
    case True
    then have "tail = End" using Railgun_Call.prems(1) by simp
    have t: "takes opened ?us" using True opened pending expects by (simp add: takes_def)
    let ?st = "advance (item_records body) (expected_calls R (?n + ?k) body) (add_unshields ?us opened)"
    have body: "try_fold (action_step R summary) opened (emit_items body) = Inr ?st"
      using Railgun_Call.IH(1) [OF ok(2) opened(1)] t opened(2) by simp
    have fr: "as_frames ?st = call_frame ?n h ?us # as_frames st"
      using opened frame_us by (simp add: add_unshields_def)
    have st: "?st\<lparr>as_frames := as_frames st\<rparr> = advance (?k + item_records body)
        (expected_calls R (?n + ?k) body) st"
      using closed opened by (simp add: advance_def add_unshields_def opened_def)
    have "top_open (?st\<lparr>as_frames := as_frames st\<rparr>)"
      unfolding st using Railgun_Call.prems(3) by simp
    from transact_step [OF fr _ own this] True expects
    have "action_step R summary ?st (ch_transact_index h, TransactEvent (ch_hashes h)) =
      Inr (advance 0 [(Some (ch_transact_index h), own_transactions R ?n h ?us)]
        (?st\<lparr>as_frames := as_frames st\<rparr>))"
      by simp
    then show ?thesis
      unfolding start using True t takes_open [OF t] body \<open>tail = End\<close>
      by (simp add: try_fold_append st add.assoc)
  next
    case False
    then have hashes: "ch_hashes h = []" using ok(1) by (simp add: header_ok_def)
    show ?thesis
    proof (cases "body = End")
      case True
      then have "close_completed R summary opened =
          Inr (advance 0 [(None, own_transactions R ?n h [])] (opened\<lparr>as_frames := as_frames st\<rparr>))"
        using opened pending expects False own hashes
        by (simp add: close_completed_def advance_def)
      then show ?thesis
        unfolding start closed using False True tail by (simp add: add.assoc)
    next
      case body: False
      then have e: "ends_with_unshield body" using Railgun_Call.prems(1) False by simp
      have w: "awaits opened ?us" using opened pending expects False by (simp add: awaits_def)
      have "try_fold (action_step R summary) opened (emit_items body) =
          Inr (advance (item_records body)
            (expected_calls R (?n + ?k) body @ [(None, own_transactions R ?n h ?us)])
            (advance ?k [] st))"
        using Railgun_Call.IH(1) [OF ok(2) opened(1)] w e opened own hashes frame_us
        by (simp add: closing_def closed)
      then show ?thesis
        unfolding start
        using False tail awaits_open [OF w ends_has_unshield [OF e]]
        by (simp add: try_fold_append add.assoc)
    qed
  qed
next
  case End
  then show ?case by simp
next
  case (Unshield_Item i u items)
  show ?case
  proof (intro conjI impI)
    assume "takes st (item_unshields (Unshield_Item i u items))"
    then have t: "takes st (u # item_unshields items)" by simp
    then show "try_fold (action_step R summary) st (emit_items (Unshield_Item i u items)) =
      Inr (advance (item_records (Unshield_Item i u items))
        (expected_calls R (as_next_record_index st) (Unshield_Item i u items))
        (add_unshields (item_unshields (Unshield_Item i u items)) st))"
      using Unshield_Item takes_step [OF t] by simp
  next
    assume a: "awaits st (item_unshields (Unshield_Item i u items))
      \<and> ends_with_unshield (Unshield_Item i u items)"
    show "try_fold (action_step R summary) st (emit_items (Unshield_Item i u items)) =
      closing R summary st (item_unshields (Unshield_Item i u items))
        (item_records (Unshield_Item i u items))
        (expected_calls R (as_next_record_index st) (Unshield_Item i u items))"
    proof (cases "items = End")
      case True
      with a obtain f fs where f: "as_frames st = f # fs" "\<not> fr_expects_transact f" "pending_unshields f = 1"
        by (auto simp: awaits_def split: list.splits)
      show ?thesis
        using True f(1) by (simp add: last_unshield_closes [OF f] closing_def and_then_assoc)
    next
      case False
      then have e: "ends_with_unshield items" using a by (cases items) auto
      have w: "awaits st (u # item_unshields items)" using a by simp
      note step = awaits_step [OF w ends_has_unshield [OF e]]
      show ?thesis using Unshield_Item e step by simp
    qed
  qed
next
  case (Shield_Item i items)
  show ?case
    using Shield_Item step_shield [OF Shield_Item.prems(2)] takes_open awaits_open ends_has_unshield
    by (auto split: if_splits)
next
  case (Nested_Item c items)
  have run: "try_fold (action_step R summary) st (emit_call c) =
      Inr (advance (call_records c) (expected_call R (as_next_record_index st) c) st)" if "top_open st"
    using Nested_Item that by simp
  show ?case
    using Nested_Item.prems Nested_Item.IH(2)
      [of "advance (call_records c) (expected_call R (as_next_record_index st) c) st"]
      run takes_open awaits_open ends_has_unshield
    by (auto simp: try_fold_append)
qed

lemma slices_length [simp]: "length (slices ns xs) = length ns"
  by (induction ns xs rule: slices.induct) auto

lemma assign_unshields_length [simp]: "length (assign_unshields cs us) = length cs"
  by (induction cs us rule: assign_unshields.induct) (auto split: list.splits)

lemma expected_transactions_records:
  "length nfs = length cs \<Longrightarrow> length hss = length cs \<Longrightarrow> length us = length cs \<Longrightarrow>
   map fst (expected_transactions R n cs nfs hss us) = [n..<n + length cs]"
proof (induction R n cs nfs hss us rule: expected_transactions.induct)
  case (1 R n c cs nf nfs hs hss u us)
  then show ?case using upt_conv_Cons [of n "n + length (c # cs)"] by simp
qed auto

lemma own_transactions_records:
  "header_ok h us \<Longrightarrow> map fst (own_transactions R n h us) = [n..<n + length (ch_configs h)]"
  by (simp add: own_transactions_def expected_transactions_records header_ok_def)

definition record_indexes :: "action_call list \<Rightarrow> nat list" where
  "record_indexes calls = concat (map (\<lambda>(_, ts). map fst ts) calls)"

lemma record_indexes_simps [simp]:
  "record_indexes [] = []"
  "record_indexes ((i, ts) # calls) = map fst ts @ record_indexes calls"
  "record_indexes (calls @ calls') = record_indexes calls @ record_indexes calls'"
  by (simp_all add: record_indexes_def)

lemma upt_split_mset: "mset [n..<n + a] + mset [n + a..<n + a + b] = mset [n..<n + a + b]"
  by (metis upt_add_eq_append le_add1 mset_append)

lemma expected_records:
  "call_ok c \<Longrightarrow> mset (record_indexes (expected_call R n c)) = mset [n..<n + call_records c]"
  "items_ok items \<Longrightarrow> mset (record_indexes (expected_calls R n items)) = mset [n..<n + item_records items]"
proof (induction c and items arbitrary: n and n)
  case (Railgun_Call h body tail)
  let ?k = "length (ch_configs h)" and ?b = "item_records body" and ?t = "item_records tail"
  have "mset [n + ?k..<n + ?k + ?b] + (mset [n..<n + ?k] + mset [n + ?k + ?b..<n + ?k + ?b + ?t])
      = mset [n..<n + ?k + ?b + ?t]"
    unfolding upt_split_mset [of n ?k ?b, symmetric]
      upt_split_mset [of n "?k + ?b" ?t, unfolded add.assoc [symmetric], symmetric]
    by (simp only: ac_simps)
  with Railgun_Call show ?case
    by (simp add: own_transactions_records add.assoc del: mset_upt)
next
  case (Nested_Item c items)
  then show ?case using upt_split_mset [of n "call_records c" "item_records items"]
    by (simp add: add.assoc)
qed simp_all

section \<open>Nothing is lost\<close>

definition event_nullified :: "(u64 \<times> action_log_event) list \<Rightarrow> (u64 \<times> bytes32 list) list" where
  "event_nullified events = concat (map (\<lambda>(_, event). case event of
     NullifiedEvent t nfs \<Rightarrow> [(ucast t, nfs)] | _ \<Rightarrow> []) events)"

definition event_outputs :: "(u64 \<times> action_log_event) list \<Rightarrow> bytes32 list" where
  "event_outputs events = concat (map (\<lambda>(_, event). case event of
     TransactEvent hashes \<Rightarrow> hashes | _ \<Rightarrow> []) events)"

definition tx_nullified :: "decoded_railgun_transaction \<Rightarrow> u64 \<times> bytes32 list" where
  "tx_nullified t = (dt_utxo_tree_in t, dt_nullifiers t)"

definition call_transactions :: "action_call list \<Rightarrow> decoded_railgun_transaction list" where
  "call_transactions calls = concat (map (\<lambda>(_, ts). map snd ts) calls)"

lemma call_transactions_simps [simp]:
  "call_transactions [] = []"
  "call_transactions (calls @ [(i, ts)]) = call_transactions calls @ map snd ts"
  by (simp_all add: call_transactions_def)

lemma frame_transactions_conserve:
  "frame_transactions R mismatch missing hashes n offset us zs = Inr (final, ts) \<Longrightarrow>
   map tx_nullified (map snd ts) = map (\<lambda>(_, t, nfs). (ucast t, nfs)) zs
   \<and> concat (map tx_outputs (map snd ts)) = take (final - offset) (drop offset hashes)
   \<and> offset \<le> final"
proof (induction R mismatch missing hashes n offset us zs arbitrary: ts final
    rule: frame_transactions.induct)
  case (1 R mismatch missing hashes n offset us)
  then show ?case by auto
next
  case (2 R mismatch missing hashes n offset us config t nfs rest)
  let ?upto = "offset + unat (commitmentsCount config)"
  from 2(2) obtain c p us' ts' where
    bounds: "\<not> 2 ^ 64 \<le> ?upto" "\<not> length hashes < ?upto" and
    u: "take_unshield R missing config us = Inr (c, p, us')" and
    rest: "frame_transactions R mismatch missing hashes (n + 1) ?upto us' rest = Inr (final, ts')" and
    ts: "ts = (n, action_transaction R config t nfs
      (take (?upto - offset) (drop offset hashes) @ c) p) # ts'"
    by (auto simp: Let_def result_simps split: if_splits)
  have c: "if hasUnshield config then length c = 1 else c = []"
    using u by (auto simp: take_unshield_def result_simps split: if_splits list.splits)
  have out: "tx_outputs (action_transaction R config t nfs (xs @ c) p) = xs" for xs
    using c by (cases c rule: rev_cases) (auto simp: tx_outputs_def action_transaction_def split: if_splits)
  have IH: "map tx_nullified (map snd ts') = map (\<lambda>(_, t, nfs). (ucast t, nfs)) rest"
    "concat (map tx_outputs (map snd ts')) = take (final - ?upto) (drop ?upto hashes)" "?upto \<le> final"
    using 2(1) [OF refl bounds, of "(c, p, us')"] u rest by auto
  have "take (?upto - offset) (drop offset hashes) @ take (final - ?upto) (drop ?upto hashes)
      = take (final - offset) (drop offset hashes)"
    using IH(3) take_add [of "?upto - offset" "final - ?upto" "drop offset hashes"]
    by (simp add: drop_drop add.commute)
  then show ?case
    using IH by (simp add: ts out) (simp add: tx_nullified_def action_transaction_def)
qed

lemma frame_conserve:
  assumes "transactions_from_action_frame R summary f hashes i = Inr ts"
    and "length (fr_nullified f) = length (fr_configs f)"
  shows "map tx_nullified (map snd ts) = map (\<lambda>(t, nfs). (ucast t, nfs)) (fr_nullified f)"
    and "concat (map tx_outputs (map snd ts)) = hashes"
proof -
  from assms(1) obtain mm ms where
    "frame_transactions R mm ms hashes (fr_record_base f) 0 (fr_unshields f)
      (zip (fr_configs f) (fr_nullified f)) = Inr (length hashes, ts)"
    by (auto simp: transactions_from_action_frame_def Let_def result_simps split: if_splits)
  note conserve = frame_transactions_conserve [OF this]
  have "map (\<lambda>(_, t, nfs). (ucast t, nfs)) (zip cs ns) = map (\<lambda>(t, nfs). (ucast t, nfs)) ns"
    if "length ns = length cs" for cs :: "tx_config list" and ns :: "(u32 \<times> bytes32 list) list"
    using that by (induction ns cs rule: list_induct2) auto
  with conserve assms(2)
  show "map tx_nullified (map snd ts) = map (\<lambda>(t, nfs). (ucast t, nfs)) (fr_nullified f)" by simp
  from conserve show "concat (map tx_outputs (map snd ts)) = hashes" by simp
qed

lemma nullified_views: "map (\<lambda>(t, nfs). (ucast t :: u64, nfs)) (map snd ps) = map (\<lambda>(_, t, nfs). (ucast t, nfs)) ps"
  by (induction ps) auto

definition frame_nullified :: "action_frame \<Rightarrow> (u64 \<times> bytes32 list) list" where
  "frame_nullified f = map (\<lambda>(t, nfs). (ucast t, nfs)) (fr_nullified f)"

definition conserved :: "action_state \<Rightarrow> (u64 \<times> action_log_event) list \<Rightarrow> bool" where
  "conserved st events \<longleftrightarrow>
     mset (map tx_nullified (call_transactions (as_decoded st)))
       + mset (concat (map frame_nullified (as_frames st)))
       + mset (map (\<lambda>(_, t, nfs). (ucast t, nfs)) (as_pending_nullified st))
     = mset (event_nullified events)
     \<and> (\<forall>f \<in> set (as_frames st). length (fr_nullified f) = length (fr_configs f))
     \<and> concat (map tx_outputs (call_transactions (as_decoded st))) = event_outputs events"

lemma event_simps [simp]:
  "event_nullified (events @ [(i, event)]) =
     event_nullified events @ (case event of NullifiedEvent t nfs \<Rightarrow> [(ucast t, nfs)] | _ \<Rightarrow> [])"
  "event_outputs (events @ [(i, event)]) =
     event_outputs events @ (case event of TransactEvent hashes \<Rightarrow> hashes | _ \<Rightarrow> [])"
  by (simp_all add: event_nullified_def event_outputs_def split: action_log_event.split)

lemma close_conserves:
  assumes "conserved st events" and "close_completed R summary st = Inr st'"
  shows "conserved st' events"
proof (cases "st' = st")
  case False
  with assms(2) obtain f fs ts where f: "as_frames st = f # fs"
    "transactions_from_action_frame R summary f [] (fr_log_index f) = Inr ts"
    "st' = st\<lparr>as_frames := fs, as_decoded := as_decoded st @ [(None, ts)]\<rparr>"
    by (auto simp: close_completed_def result_simps split: list.splits if_splits)
  with assms(1) frame_conserve [OF f(2)] show ?thesis
    by (auto simp: conserved_def frame_nullified_def ac_simps simp flip: map_map)
qed (use assms in simp)

lemma handle_conserves:
  assumes "conserved st events" and "handle_event R summary st i event = Inr st'"
  shows "conserved st' (events @ [(i, event)])"
proof (cases event)
  case (NullifiedEvent t nfs)
  with assms show ?thesis by (auto simp: handle_event_def conserved_def)
next
  case (ActionEvent configs)
  with assms show ?thesis
    by (auto simp: handle_event_def conserved_def frame_nullified_def Let_def drop_index nullified_views
        ac_simps simp del: map_map split: if_splits)
next
  case (UnshieldEvent u)
  with assms show ?thesis
    by (auto simp: handle_event_def conserved_def frame_nullified_def Let_def
        split: list.splits if_splits)
next
  case (TransactEvent hashes)
  with assms(2) obtain f fs ts where f: "as_frames st = f # fs"
    "transactions_from_action_frame R summary f hashes i = Inr ts"
    "st' = st\<lparr>as_frames := fs, as_decoded := as_decoded st @ [(Some i, ts)]\<rparr>"
    by (auto simp: handle_event_def result_simps Let_def split: list.splits if_splits)
  with assms(1) TransactEvent frame_conserve [OF f(2)] show ?thesis
    by (auto simp: conserved_def frame_nullified_def ac_simps simp flip: map_map)
qed

lemma run_conserves:
  "conserved st done \<Longrightarrow> try_fold (action_step R summary) st events = Inr st' \<Longrightarrow>
   conserved st' (done @ events)"
proof (induction events arbitrary: st "done")
  case Nil
  then show ?case by simp
next
  case (Cons e events)
  obtain i event where e: "e = (i, event)" by (cases e)
  from Cons.prems(2) obtain mid nxt where step:
    "handle_event R summary st i event = Inr mid" "close_completed R summary mid = Inr nxt"
    "try_fold (action_step R summary) nxt events = Inr st'"
    by (auto simp: e result_simps action_step_def [of R summary st])
  have "conserved nxt (done @ [e])"
    unfolding e by (rule close_conserves [OF handle_conserves [OF Cons.prems(1) step(1)] step(2)])
  from Cons.IH [OF this step(3)] show ?case by simp
qed

definition sample_config :: "u32 \<Rightarrow> u32 \<Rightarrow> bool \<Rightarrow> tx_config" where
  "sample_config n c u = \<lparr>nullifiersCount = n, commitmentsCount = c, hasUnshield = u, boundParamsHash = 9\<rparr>"

definition sample_unshield :: "address \<Rightarrow> unshield_event" where
  "sample_unshield a = \<lparr>unshield_to = a,
     unshield_token = \<lparr>tokenType = 0, tokenAddress = 1, tokenSubID = 0\<rparr>,
     unshield_amount = 100, unshield_fee = 1\<rparr>"

text \<open>A call with two outputs and an unshield, during which another call only unshields.\<close>

definition sample_calls :: call_items where
  "sample_calls = Shield_Item 0 (Nested_Item
     (Railgun_Call
        \<lparr>ch_nullified = [(1, 7, [50]), (2, 7, [51, 52])], ch_action_index = 3,
         ch_configs = [sample_config 1 1 True, sample_config 2 1 False],
         ch_transact_index = 8, ch_hashes = [60, 61]\<rparr>
        (Nested_Item
           (Railgun_Call
              \<lparr>ch_nullified = [(4, 6, [53])], ch_action_index = 5, ch_configs = [sample_config 1 0 True],
               ch_transact_index = 0, ch_hashes = []\<rparr>
              (Unshield_Item 6 (sample_unshield 22) End) End)
           (Unshield_Item 7 (sample_unshield 11) End)) End) End)"

definition sample_summary :: transact_output_summary where
  "sample_summary = \<lparr>sm_source = \<lparr>block_number = 8, block_timestamp = None, block_hash = 80,
       transaction_hash = 1, log_index = 1\<rparr>, sm_first_log_index = 1, sm_last_log_index = 8,
     sm_output_commitments = [], sm_nullifier_groups = []\<rparr>"

lemma sample_calls_ok: "items_ok sample_calls" "item_unshields sample_calls = []"
  by (simp_all add: sample_calls_def header_ok_def expects_transact_def sample_config_def
      unshield_fits_def sample_unshield_def)

definition sample_action_events :: "(u64 \<times> action_log_event) list" where
  "sample_action_events = [(1, NullifiedEvent 7 [50]), (3, ActionEvent [sample_config 1 2 False]),
     (4, TransactEvent [60, 61])]"

lemma sample_action_events_decode:
  "decoded_transactions_from_action_logs sample_lib sample_summary sample_action_events =
     Inr [(Some 4, [(0, action_transaction sample_lib (sample_config 1 2 False) 7 [50] [60, 61] None)])]"
  by (simp add: decoded_transactions_from_action_logs_def sample_action_events_def action_step_def
      handle_event_def close_completed_def action_init_def sample_config_def action_finish_def
      transactions_from_action_frame_def pending_unshields_def take_unshield_def Let_def)

section \<open>Properties\<close>

text \<open>C1: Reading a transaction's logs back. For every nesting of Railgun calls and shields that the
  contract can emit (\<open>Nullified\<close> logs, \<open>Action\<close>, unshields and nested calls in any interleaving,
  \<open>Transact\<close> when there are outputs), the stack machine accepts the logs and returns exactly the
  calls' transactions: each configuration with its own nullifiers, its own slice of the call's
  output hashes, and the commitment of its own unshield; and the record indexes number the
  configurations in \<open>Action\<close> order without gap or repetition.\<close>

theorem action_logs_decode_calls:
  assumes "items_ok items" and "item_unshields items = []"
  shows "decoded_transactions_from_action_logs R summary (emit_items items)
           = Inr (expected_calls R 0 items)
       \<and> mset (record_indexes (expected_calls R 0 items)) = mset [0..<item_records items]"
proof -
  have "takes action_init (item_unshields items)"
    by (simp add: takes_def action_init_def assms(2))
  then have "try_fold (action_step R summary) action_init (emit_items items) =
      Inr (advance (item_records items) (expected_calls R 0 items) action_init)"
    using run_calls(2) [OF assms(1), of action_init R summary] assms(2)
    by (simp add: action_init_def)
  then show ?thesis
    using expected_records(2) [OF assms(1), of R 0]
    by (simp add: decoded_transactions_from_action_logs_def action_finish_def advance_def action_init_def)
qed

theorem action_logs_decode_calls_witness:
  "decoded_transactions_from_action_logs sample_lib sample_summary (emit_items sample_calls)
     = Inr (expected_calls sample_lib 0 sample_calls)
   \<and> map (\<lambda>(i, ts). (i, map (\<lambda>(n, t). (n, dt_nullifiers t, dt_commitments t)) ts))
       (expected_calls sample_lib 0 sample_calls)
     = [(None, [(2, [53], [123])]), (Some 8, [(0, [50], [60, 112]), (1, [51, 52], [61])])]"
  using action_logs_decode_calls [OF sample_calls_ok, of sample_lib sample_summary]
  by (simp add: sample_calls_def expects_transact_def sample_config_def own_transactions_def
      expected_transaction_def action_transaction_def sample_lib_def unshield_preimage_of_def
      sample_unshield_def)

text \<open>C5: Nothing is lost or counted twice, on any logs at all: when the machine accepts the logs of
  a transaction, every \<open>Nullified\<close> log is the nullifiers and input tree of exactly one decoded
  transaction, and the output commitments of the decoded transactions, in order, are exactly the hashes
  of the \<open>Transact\<close> logs.\<close>

theorem action_logs_conserve:
  assumes "decoded_transactions_from_action_logs R summary events = Inr calls"
  shows "mset (map tx_nullified (call_transactions calls)) = mset (event_nullified events)
       \<and> concat (map tx_outputs (call_transactions calls)) = event_outputs events"
proof -
  from assms obtain st where st: "try_fold (action_step R summary) action_init events = Inr st"
    "action_finish summary st = Inr calls"
    by (auto simp: decoded_transactions_from_action_logs_def result_simps)
  have "conserved action_init []"
    by (simp add: conserved_def action_init_def event_nullified_def event_outputs_def)
  from run_conserves [OF this st(1)] st(2) show ?thesis
    by (auto simp: conserved_def action_finish_def Let_def split: list.splits)
qed

theorem action_logs_conserve_witness:
  "mset (map tx_nullified (call_transactions
       [(Some 4, [(0, action_transaction sample_lib (sample_config 1 2 False) 7 [50] [60, 61] None)])]))
     = {#(7, [50])#}"
  using action_logs_conserve [OF sample_action_events_decode]
  by (simp add: event_nullified_def sample_action_events_def)

end
