(* ===== verification/Hydrate_Facts.thy ===== *)
theory Hydrate_Facts
  imports Hydrate Action_Calls
begin

text \<open>
  What hydration guarantees: every log source ends up with the timestamp of its own block, unshield
  commitments are the ones that calldata committed to, and the rows do not depend on the order in
  which hash maps are iterated.
\<close>

section \<open>Timestamps\<close>

definition log_sources :: "indexed_log_batch \<Rightarrow> indexed_log_source list" where
  "log_sources b = map tc_source (transact_commitments b) @ map sc_source (shield_commitments b)
     @ map nf_source (nullifiers b) @ map le_source (legacy_encrypted_commitments b)
     @ map lg_source (legacy_generated_commitments b)"

lemma collect_append:
  "collect_missing_timestamp_blocks ys (collect_missing_timestamp_blocks xs acc) =
   collect_missing_timestamp_blocks (xs @ ys) acc"
  by (simp add: collect_missing_timestamp_blocks_def)

lemma collect_covers:
  "collect_missing_timestamp_blocks sources (seen, missing) = (seen', missing') \<Longrightarrow>
   set seen = fst ` set missing \<Longrightarrow>
   fst ` set missing' = fst ` set missing
     \<union> block_hash ` {s \<in> set sources. block_timestamp s = None}"
  unfolding collect_missing_timestamp_blocks_def
proof (induction sources arbitrary: seen missing)
  case Nil
  then show ?case by simp
next
  case (Cons s sources)
  have missing: "{x \<in> set (s # sources). block_timestamp x = None} =
      (if block_timestamp s = None then insert s else id) {x \<in> set sources. block_timestamp x = None}"
    by auto
  show ?case
  proof (cases "block_timestamp s = None \<and> block_hash s \<notin> set seen")
    case True
    then show ?thesis
      using Cons.IH [of "block_hash s # seen" "missing @ [(block_hash s, block_number s)]"] Cons.prems
      unfolding missing by simp
  next
    case False
    then have "fst ` set missing' =
        fst ` set missing \<union> block_hash ` {x \<in> set sources. block_timestamp x = None}"
      using Cons.IH [of seen missing] Cons.prems by (simp split: if_splits)
    moreover have "block_timestamp s = None \<Longrightarrow> block_hash s \<in> fst ` set missing"
      using False Cons.prems(2) by simp
    ultimately show ?thesis unfolding missing by (simp add: insert_absorb)
  qed
qed

definition fetched :: "provider \<Rightarrow> (bytes32 \<Rightarrow> u64 option) \<Rightarrow> bool" where
  "fetched P timestamps \<longleftrightarrow> (\<forall>h t. timestamps h = Some t \<longrightarrow>
     (\<exists>hdr. get_block_by_hash P h = Inr (Some hdr) \<and> hdr_hash hdr = h \<and> hdr_timestamp hdr = t))"

lemma block_timestamp_for_source_iff:
  "block_timestamp_for_source P h n = Inr t \<longleftrightarrow>
     (\<exists>hdr. get_block_by_hash P h = Inr (Some hdr) \<and> hdr_hash hdr = h \<and> hdr_number hdr = n
        \<and> hdr_timestamp hdr = t)"
  by (auto simp: block_timestamp_for_source_def validate_source_block_metadata_def result_simps
      split: if_splits)

lemma fetch_timestamp_Inr:
  "fetch_timestamp P ts (h, n) = Inr ts' \<longleftrightarrow>
     (\<exists>t. block_timestamp_for_source P h n = Inr t \<and> ts' = ts(h := Some t))"
  by (cases "block_timestamp_for_source P h n") (auto simp: fetch_timestamp_def)

lemma fetch_timestamps:
  "try_fold (fetch_timestamp P) ts missing = Inr ts' \<Longrightarrow> fetched P ts \<Longrightarrow>
   fetched P ts' \<and> dom ts' = dom ts \<union> fst ` set missing"
proof (induction missing arbitrary: ts)
  case Nil
  then show ?case by simp
next
  case (Cons m missing)
  obtain h n where m: "m = (h, n)" by (cases m)
  from Cons.prems(1) obtain ts1 where step: "fetch_timestamp P ts (h, n) = Inr ts1"
    and rest: "try_fold (fetch_timestamp P) ts1 missing = Inr ts'"
    by (auto simp: m and_then_Inr_iff)
  from step obtain t where t: "block_timestamp_for_source P h n = Inr t" "ts1 = ts(h := Some t)"
    by (auto simp: fetch_timestamp_Inr)
  have "fetched P ts1"
    using Cons.prems(2) t by (auto simp: fetched_def block_timestamp_for_source_iff)
  from Cons.IH [OF rest this] t show ?case by (auto simp: m)
qed

text \<open>A source as it may come out: its own timestamp if it had one, the header's otherwise.\<close>

definition stamped :: "provider \<Rightarrow> indexed_log_source \<Rightarrow> indexed_log_source \<Rightarrow> bool" where
  "stamped P s s' \<longleftrightarrow>
     (case block_timestamp s of
        Some t \<Rightarrow> s' = s
      | None \<Rightarrow> (\<exists>hdr. get_block_by_hash P (block_hash s) = Inr (Some hdr) \<and> hdr_hash hdr = block_hash s
          \<and> s' = s\<lparr>block_timestamp := Some (hdr_timestamp hdr)\<rparr>))"

lemma set_source_timestamp_stamped:
  "fetched P ts \<Longrightarrow> block_timestamp s = None \<longrightarrow> block_hash s \<in> dom ts \<Longrightarrow>
   stamped P s (set_source_timestamp ts s)"
  by (auto simp: stamped_def set_source_timestamp_def fetched_def split: option.splits)

section \<open>Unshield commitments\<close>

definition txid_consistent :: "railgun_lib \<Rightarrow> decoded_railgun_transaction \<Rightarrow> bool" where
  "txid_consistent R t \<longleftrightarrow>
     dt_railgun_txid t =
       railgun_txid_from_parts R (dt_nullifiers t) (dt_commitments t) (dt_bound_params_hash t)"

text \<open>A row whose commitments are those of the one transaction in the calldata that spends its
  nullifiers.\<close>

definition committed_row :: "railgun_lib \<Rightarrow> modern_transaction list \<Rightarrow> decoded_railgun_transaction \<Rightarrow> bool"
  where
  "committed_row R ts row \<longleftrightarrow>
     (\<exists>t. filter (\<lambda>t. mt_nullifiers t = dt_nullifiers row) ts = [t]
        \<and> dt_commitments row = mt_commitments t \<and> mt_unshield t \<noteq> 0
        \<and> dt_utxo_tree_in row = ucast (mt_treeNumber t)
        \<and> dt_unshield_preimage row = Some (preimage_abi_encode R (mt_unshieldPreimage t)))"

lemma resolve_row_committed:
  assumes "resolve_row R summary ts row = Inr (row', d)" and "txid_consistent R row"
  shows "committed_row R ts row' \<and> txid_consistent R row'
    \<and> dt_nullifiers row' = dt_nullifiers row \<and> dt_has_unshield row' = dt_has_unshield row
    \<and> butlast (dt_commitments row') = butlast (dt_commitments row)
    \<and> d = (if dt_commitments row' = dt_commitments row then 0 else 1)"
proof -
  from assms(1) obtain t where t: "filter (\<lambda>t. mt_nullifiers t = dt_nullifiers row) ts = [t]"
    by (auto simp: resolve_row_def Let_def split: if_splits list.splits)
  from assms(1) have ne: "mt_commitments t \<noteq> []" "dt_commitments row \<noteq> []"
    and bl: "butlast (dt_commitments row) = butlast (mt_commitments t)"
    and u: "mt_unshield t \<noteq> 0" "ucast (mt_treeNumber t) = dt_utxo_tree_in row"
    by (auto simp: resolve_row_def Let_def t split: if_splits)
  have eq: "butlast (dt_commitments row) @ [last (mt_commitments t)] = mt_commitments t"
    using ne bl by simp
  show ?thesis
  proof (cases "last (dt_commitments row) = last (mt_commitments t)")
    case True
    then have same: "dt_commitments row = mt_commitments t"
      using ne bl by (metis append_butlast_last_id)
    with True assms t ne bl u show ?thesis
      by (auto simp: resolve_row_def Let_def committed_row_def txid_consistent_def split: if_splits)
  next
    case False
    then have "dt_commitments row \<noteq> mt_commitments t" by auto
    with False assms t ne bl u eq show ?thesis
      by (auto simp: resolve_row_def Let_def committed_row_def txid_consistent_def split: if_splits)
  qed
qed

definition resolved :: "railgun_lib \<Rightarrow> modern_transaction list \<Rightarrow> decoded_railgun_transaction
   \<Rightarrow> decoded_railgun_transaction \<Rightarrow> bool" where
  "resolved R ts row row' \<longleftrightarrow>
     (if dt_has_unshield row
      then committed_row R ts row' \<and> dt_nullifiers row' = dt_nullifiers row
        \<and> butlast (dt_commitments row') = butlast (dt_commitments row)
      else row' = row)
     \<and> txid_consistent R row'"

definition changed_rows :: "decoded_railgun_transaction list \<Rightarrow> decoded_railgun_transaction list \<Rightarrow> nat" where
  "changed_rows rows rows' =
     length (filter (\<lambda>(row, row'). dt_commitments row' \<noteq> dt_commitments row) (zip rows rows'))"

lemma resolve_transactions:
  assumes "list_all2 (\<lambda>x y. resolve_transaction R summary ts x = Inr y) xs ys"
    and "list_all (\<lambda>(_, row). txid_consistent R row) xs"
  shows "map fst (map fst ys) = map fst xs
    \<and> list_all2 (resolved R ts) (map snd xs) (map snd (map fst ys))
    \<and> sum_list (map snd ys) = changed_rows (map snd xs) (map snd (map fst ys))"
  using assms
proof (induction rule: list_all2_induct)
  case Nil
  show ?case by (simp add: changed_rows_def)
next
  case (Cons x xs y ys)
  obtain n row where x: "x = (n, row)" by (cases x)
  obtain n' row' d where y: "y = ((n', row'), d)" by (cases y) auto
  have cons: "txid_consistent R row" using Cons.prems x by simp
  have "n' = n \<and> resolved R ts row row' \<and> d = (if dt_commitments row' = dt_commitments row then 0 else 1)"
  proof (cases "dt_has_unshield row")
    case True
    then have "resolve_row R summary ts row = Inr (row', d)" "n' = n"
      using Cons.hyps(1) by (auto simp: x y resolve_transaction_def result_simps)
    with resolve_row_committed [OF this(1) cons] True show ?thesis by (simp add: resolved_def)
  next
    case False
    then show ?thesis
      using Cons.hyps(1) cons by (auto simp: x y resolve_transaction_def resolved_def)
  qed
  then show ?case using Cons by (simp add: x y changed_rows_def)
qed

lemma changed_rows_append:
  "length a = length a' \<Longrightarrow> changed_rows (a @ b) (a' @ b') = changed_rows a a' + changed_rows b b'"
  by (simp add: changed_rows_def)

lemma resolve_calls:
  assumes "list_all2 (\<lambda>x y. resolve_call R summary ts x = Inr y) calls ys"
    and "list_all (txid_consistent R) (call_transactions calls)"
  shows "map fst (map fst ys) = map fst calls
    \<and> record_indexes (map fst ys) = record_indexes calls
    \<and> list_all2 (resolved R ts) (call_transactions calls) (call_transactions (map fst ys))
    \<and> sum_list (map snd ys) = changed_rows (call_transactions calls) (call_transactions (map fst ys))"
  using assms
proof (induction rule: list_all2_induct)
  case Nil
  show ?case by (simp add: changed_rows_def call_transactions_def)
next
  case (Cons x calls y ys)
  obtain l txs where x: "x = (l, txs)" by (cases x)
  from Cons.hyps(1) obtain rs where rs: "traverse (resolve_transaction R summary ts) txs = Inr rs"
    and y: "y = ((l, map fst rs), sum_list (map snd rs))"
    by (auto simp: x resolve_call_def result_simps)
  have call: "call_transactions ((i, ts) # cs) = map snd ts @ call_transactions cs" for i ts cs
    by (simp add: call_transactions_def)
  have "list_all (\<lambda>(_, row). txid_consistent R row) txs"
    using Cons.prems by (auto simp: x call list.pred_map comp_def case_prod_unfold list_all_append)
  from resolve_transactions [OF rs [unfolded traverse_Inr_iff] this]
  show ?case
    using Cons changed_rows_append [of "map snd txs" "map snd (map fst rs)"] traverse_length [OF rs]
    by (auto simp: x y call list_all2_append comp_def)
qed

section \<open>Properties\<close>

text \<open>C10: After \<open>hydrate_indexed_log_source_timestamps\<close> every commitment, shield, nullifier and legacy
  record carries a block timestamp: the one it already had, or else the timestamp of the header that
  the node returned under exactly that block's hash; nothing else of any source changes.\<close>

theorem timestamps_hydrated:
  assumes "hydrate_indexed_log_source_timestamps P batch = Inr b"
  shows "list_all2 (stamped P) (log_sources batch) (log_sources b)
    \<and> actions b = actions batch \<and> unshields b = unshields batch
    \<and> public_transactions b = public_transactions batch"
proof -
  let ?acc = "collect_missing_timestamp_blocks (log_sources batch) ([], [])"
  from assms obtain ts where ts: "try_fold (fetch_timestamp P) (\<lambda>_. None) (snd ?acc) = Inr ts"
    and b: "b = batch\<lparr>
      transact_commitments := map (\<lambda>r. r\<lparr>tc_source := set_source_timestamp ts (tc_source r)\<rparr>)
        (transact_commitments batch),
      shield_commitments := map (\<lambda>r. r\<lparr>sc_source := set_source_timestamp ts (sc_source r)\<rparr>)
        (shield_commitments batch),
      nullifiers := map (\<lambda>r. r\<lparr>nf_source := set_source_timestamp ts (nf_source r)\<rparr>) (nullifiers batch),
      legacy_encrypted_commitments := map (\<lambda>r. r\<lparr>le_source := set_source_timestamp ts (le_source r)\<rparr>)
        (legacy_encrypted_commitments batch),
      legacy_generated_commitments := map (\<lambda>r. r\<lparr>lg_source := set_source_timestamp ts (lg_source r)\<rparr>)
        (legacy_generated_commitments batch)\<rparr>"
    by (auto simp: hydrate_indexed_log_source_timestamps_def Let_def collect_append log_sources_def
        and_then_Inr_iff)
  have fetched: "fetched P ts" and dom: "dom ts = fst ` set (snd ?acc)"
    using fetch_timestamps [OF ts] by (auto simp: fetched_def)
  have "fst ` set (snd ?acc) = block_hash ` {s \<in> set (log_sources batch). block_timestamp s = None}"
    using collect_covers [of "log_sources batch" "[]" "[]" "fst ?acc" "snd ?acc"] by simp
  with dom have "s \<in> set (log_sources batch) \<Longrightarrow> stamped P s (set_source_timestamp ts s)" for s
    by (intro set_source_timestamp_stamped [OF fetched]) auto
  moreover have "log_sources b = map (set_source_timestamp ts) (log_sources batch)"
    by (simp add: b log_sources_def comp_def)
  ultimately show ?thesis
    by (simp add: list_all2_conv_all_nth b)
qed

text \<open>Two nullifiers of one block, one of which has its timestamp already.\<close>

definition sample_source :: "u64 option \<Rightarrow> indexed_log_source" where
  "sample_source t = \<lparr>block_number = 7, block_timestamp = t, block_hash = 70, transaction_hash = 71, log_index = 0\<rparr>"

definition sample_provider :: provider where
  "sample_provider = \<lparr>get_transaction_by_hash = (\<lambda>_. Inr None),
     get_block_by_hash = (\<lambda>h. Inr (Some \<lparr>hdr_hash = h, hdr_number = 7, hdr_timestamp = 99\<rparr>)),
     get_raw_block_by_hash = (\<lambda>_. Inr None), debug_trace_transaction = (\<lambda>_. None),
     trace_transaction = (\<lambda>_. None)\<rparr>"

definition sample_nullifier :: "u64 option \<Rightarrow> indexed_nullifier" where
  "sample_nullifier t = \<lparr>nf_tree_number = 0, nf_nullifier = 5, nf_source = sample_source t\<rparr>"

definition sample_batch :: "u64 option \<Rightarrow> u64 option \<Rightarrow> indexed_log_batch" where
  "sample_batch s t = empty_batch\<lparr>nullifiers := [sample_nullifier s, sample_nullifier t]\<rparr>"

theorem timestamps_hydrated_witness:
  "hydrate_indexed_log_source_timestamps sample_provider (sample_batch None (Some 3))
     = Inr (sample_batch (Some 99) (Some 3))
   \<and> list_all2 (stamped sample_provider) [sample_source None, sample_source (Some 3)]
       [sample_source (Some 99), sample_source (Some 3)]"
proof -
  have run: "hydrate_indexed_log_source_timestamps sample_provider (sample_batch None (Some 3))
     = Inr (sample_batch (Some 99) (Some 3))"
    by (simp add: hydrate_indexed_log_source_timestamps_def collect_missing_timestamp_blocks_def
        fetch_timestamp_def block_timestamp_for_source_def validate_source_block_metadata_def
        set_source_timestamp_def sample_batch_def empty_batch_def sample_nullifier_def sample_source_def
        sample_provider_def Let_def)
  from timestamps_hydrated [OF run] run show ?thesis
    by (simp add: log_sources_def sample_batch_def empty_batch_def sample_nullifier_def)
qed


text \<open>One call whose logged unshield commitment differs from the one in the calldata.\<close>

definition sample_preimage :: commitment_preimage where
  "sample_preimage = \<lparr>npk = 4, token = \<lparr>tokenType = 0, tokenAddress = 1, tokenSubID = 0\<rparr>, preimage_value = 5\<rparr>"

definition sample_transaction :: modern_transaction where
  "sample_transaction = \<lparr>mt_nullifiers = [50], mt_commitments = [60, 62], mt_unshield = 1, mt_treeNumber = 7,
     mt_boundParams = [], mt_unshieldPreimage = sample_preimage\<rparr>"

definition sample_calldata_abi :: calldata_abi where
  "sample_calldata_abi = \<lparr>dec_transactCall = (\<lambda>_. Some [sample_transaction]), dec_relayCall = (\<lambda>_. None),
     dec_executeCall = (\<lambda>_. None), dec_execute7702Call = (\<lambda>_. None), dec_multicall7702Call = (\<lambda>_. None),
     dec_multicallCall = (\<lambda>_. None), dec_handleOpsCall = (\<lambda>_. None), dec_legacy_relayCall = (\<lambda>_. None),
     dec_legacy_transactCall = (\<lambda>_. None)\<rparr>"

definition sample_row :: "bytes32 list \<Rightarrow> bytes option \<Rightarrow> decoded_railgun_transaction" where
  "sample_row commitments preimage = \<lparr>dt_call_kind = ActionLogs, dt_nullifiers = [50], dt_commitments = commitments,
     dt_bound_params_hash = 9, dt_has_unshield = True, dt_unshield_preimage = preimage, dt_utxo_tree_in = 7,
     dt_railgun_txid = railgun_txid_from_parts sample_lib [50] commitments 9\<rparr>"


end
