(* ===== verification/Byte_Codec.thy ===== *)
theory Byte_Codec
  imports Indexer_Prelude
begin

text \<open>
  The byte layer that the four chunk encoders share: appending integers in little-endian order,
  32-byte and 64-byte values, and length-prefixed data to a growing buffer.

  The sources only write. What a consumer sees is stated by readers that take a value off the front
  of a byte string, and \<open>wrote read v buf buf'\<close> says that the buffer grew by bytes from which
  \<open>read\<close> gives back \<open>v\<close> and the untouched rest. The interface \<open>record_writer\<close> is the
  contract of a record encoder; the loop that writes all records of a section keeps it.
\<close>

named_theorems wrote_intros \<open>what the writers append, and how readers compose over it\<close>

section \<open>Integers as bytes\<close>

text \<open>\<open>to_le_bytes\<close> and \<open>to_be_bytes\<close>.\<close>

definition le_bytes :: "'a::len word \<Rightarrow> u8 list" where
  "le_bytes w = map (\<lambda>i. ucast (drop_bit (8 * i) w)) [0..<LENGTH('a) div 8]"

definition be_bytes :: "'a::len word \<Rightarrow> u8 list" where
  "be_bytes w = rev (le_bytes w)"

fun le_value :: "u8 list \<Rightarrow> nat" where
  "le_value [] = 0"
| "le_value (b # bs) = unat b + 256 * le_value bs"

lemma length_le_bytes [simp]: "length (le_bytes (w :: 'a::len word)) = LENGTH('a) div 8"
  by (simp add: le_bytes_def)

lemma length_be_bytes [simp]: "length (be_bytes (w :: 'a::len word)) = LENGTH('a) div 8"
  by (simp add: be_bytes_def)

lemma le_value_snoc: "le_value (bs @ [b]) = le_value bs + 256 ^ length bs * unat b"
  by (induction bs) (simp_all add: algebra_simps)

lemma unat_byte: "unat (ucast (drop_bit k w) :: u8) = unat (w :: 'a::len word) div 2 ^ k mod 256"
proof -
  have "unat (ucast (drop_bit k w) :: u8) = take_bit 8 (unat (drop_bit k w))"
    by (simp add: unsigned_ucast_eq)
  also have "unat (drop_bit k w) = drop_bit k (unat w)"
    by (simp add: unsigned_drop_bit_eq)
      (metis drop_bit_take_bit take_bit_nat_eq_self unat_less_exp)
  finally show ?thesis
    by (simp add: take_bit_eq_mod drop_bit_eq_div)
qed

lemma le_value_prefix:
  "le_value (map (\<lambda>i. ucast (drop_bit (8 * i) w)) [0..<n]) = unat (w :: 'a::len word) mod 256 ^ n"
proof (induction n)
  case (Suc n)
  have "(2::nat) ^ (8 * n) = 256 ^ n" by (simp add: power_mult)
  moreover have "unat w mod 256 ^ Suc n = 256 ^ n * (unat w div 256 ^ n mod 256) + unat w mod 256 ^ n"
    using mod_mult2_eq [of "unat w" "256 ^ n" 256] by (simp add: mult.commute)
  ultimately show ?case
    using Suc by (simp add: le_value_snoc unat_byte)
qed simp

lemma le_value_le_bytes:
  assumes "8 dvd LENGTH('a)"
  shows "le_value (le_bytes w) = unat (w :: 'a::len word)"
proof -
  from assms obtain k where "LENGTH('a) = 8 * k" ..
  then have "(256::nat) ^ (LENGTH('a) div 8) = 2 ^ LENGTH('a)"
    by (simp add: power_mult)
  then show ?thesis
    unfolding le_bytes_def le_value_prefix by (simp add: unat_less_exp)
qed

section \<open>Readers\<close>

type_synonym 'v reader = "u8 list \<Rightarrow> ('v \<times> u8 list) option"

definition read_bytes :: "nat \<Rightarrow> u8 list reader" where
  "read_bytes n bs = (if length bs < n then None else Some (take n bs, drop n bs))"

definition read_then :: "'v reader \<Rightarrow> ('v \<Rightarrow> 'w reader) \<Rightarrow> 'w reader" where
  "read_then r k bs = (case r bs of None \<Rightarrow> None | Some (v, rest) \<Rightarrow> k v rest)"

definition read_return :: "'v \<Rightarrow> 'v reader" where
  "read_return v bs = Some (v, bs)"

definition read_le :: "('a::len word) reader" where
  "read_le = read_then (read_bytes (LENGTH('a) div 8)) (\<lambda>bs. read_return (word_of_nat (le_value bs)))"

definition read_be :: "('a::len word) reader" where
  "read_be =
     read_then (read_bytes (LENGTH('a) div 8)) (\<lambda>bs. read_return (word_of_nat (le_value (rev bs))))"

fun read_many :: "'v reader \<Rightarrow> nat \<Rightarrow> 'v list reader" where
  "read_many r 0 = read_return []"
| "read_many r (Suc n) = read_then r (\<lambda>v. read_then (read_many r n) (\<lambda>vs. read_return (v # vs)))"

text \<open>A counted section: the number of records, then the records.\<close>

definition read_section :: "'v reader \<Rightarrow> 'v list reader" where
  "read_section r = read_then (read_le :: u64 reader) (\<lambda>n. read_many r (unat n))"

definition wrote :: "'v reader \<Rightarrow> 'v \<Rightarrow> u8 list \<Rightarrow> u8 list \<Rightarrow> bool" where
  "wrote r v buf buf' \<longleftrightarrow> (\<exists>bs. buf' = buf @ bs \<and> (\<forall>rest. r (bs @ rest) = Some (v, rest)))"

lemma wroteI: "(\<And>rest. r (bs @ rest) = Some (v, rest)) \<Longrightarrow> wrote r v buf (buf @ bs)"
  by (auto simp: wrote_def)

lemma wrote_return [wrote_intros]: "wrote (read_return v) v buf buf"
  using wroteI [of "read_return v" "[]" v buf] by (simp add: read_return_def)

lemma wrote_return_eq: "v = w \<Longrightarrow> wrote (read_return v) w buf buf"
  by (simp add: wrote_return)

lemma wrote_then [wrote_intros]:
  assumes "wrote r v buf buf1" and "wrote (k v) w buf1 buf2"
  shows "wrote (read_then r k) w buf buf2"
proof -
  from assms obtain bs cs
    where "buf1 = buf @ bs" "\<forall>rest. r (bs @ rest) = Some (v, rest)"
      and "buf2 = buf1 @ cs" "\<forall>rest. k v (cs @ rest) = Some (w, rest)"
    by (auto simp: wrote_def)
  then show ?thesis
    using wroteI [of "read_then r k" "bs @ cs" w buf] by (simp add: read_then_def)
qed

lemma wrote_bytes [wrote_intros]: "wrote (read_bytes (length bs)) bs buf (buf @ bs)"
  by (rule wroteI) (simp add: read_bytes_def)

lemma wrote_bytes_len: "n = length bs \<Longrightarrow> wrote (read_bytes n) bs buf (buf @ bs)"
  by (simp add: wrote_bytes)

lemma wrote_le:
  "8 dvd LENGTH('a) \<Longrightarrow> wrote read_le (w :: 'a::len word) buf (buf @ le_bytes w)"
  unfolding read_le_def
  by (rule wrote_then [OF wrote_bytes_len [OF length_le_bytes [symmetric, of w]]])
    (simp add: le_value_le_bytes wrote_return)

lemma wrote_be:
  "8 dvd LENGTH('a) \<Longrightarrow> wrote read_be (w :: 'a::len word) buf (buf @ be_bytes w)"
  unfolding read_be_def
  by (rule wrote_then [OF wrote_bytes_len [OF length_be_bytes [symmetric, of w]]])
    (simp add: be_bytes_def le_value_le_bytes wrote_return)

lemma wrote_grows: "wrote r v buf buf' \<Longrightarrow> length buf \<le> length buf'"
  by (auto simp: wrote_def)

text \<open>What was written stays readable at its offset while the buffer grows further.\<close>

lemma wrote_at:
  assumes "wrote r v buf buf'"
  shows "r (drop (length buf) (buf' @ rest)) = Some (v, rest)"
  using assms by (auto simp: wrote_def)

lemma wrote_prefix: "wrote r v buf buf' \<Longrightarrow> \<exists>bs. buf' = buf @ bs"
  by (auto simp: wrote_def)

section \<open>Record encoders\<close>

lemma try_fold_Inr: "try_fold (\<lambda>s x. Inr (f s x)) s xs = Inr (foldl f s xs)"
  by (induction xs arbitrary: s) simp_all

locale record_writer =
  fixes put :: "u8 list \<Rightarrow> 'r \<Rightarrow> 'e + u8 list"
    and read :: "'v reader"
    and view :: "'r \<Rightarrow> 'v"
  assumes wrote_record: "put buf x = Inr buf' \<Longrightarrow> wrote read (view x) buf buf'"
begin

lemma wrote_all:
  "try_fold put buf xs = Inr buf' \<Longrightarrow> wrote (read_many read (length xs)) (map view xs) buf buf'"
proof (induction xs arbitrary: buf)
  case Nil
  then show ?case by (simp add: wrote_return)
next
  case (Cons x xs)
  then obtain buf1 where "put buf x = Inr buf1" "try_fold put buf1 xs = Inr buf'"
    by (auto simp: result_simps)
  then show ?case
    by (auto intro!: wrote_then [OF wrote_record] wrote_then [OF Cons.IH] wrote_return)
qed

lemma wrote_section:
  assumes "try_from_len (length xs) = Some (n :: u64)"
    and "try_fold put (buf @ le_bytes n) xs = Inr buf'"
  shows "wrote (read_section read) (map view xs) buf buf'"
proof -
  from assms(1) have "unat n = length xs" by (simp add: checked_simps)
  with wrote_all [OF assms(2)] show ?thesis
    unfolding read_section_def by (intro wrote_then [OF wrote_le [where w = n]]) simp_all
qed

end

end
