(* ===== verification/Ipfs_Pin.thy ===== *)
theory Ipfs_Pin
  imports Indexer_Prelude
begin

text \<open>
  Pinning to several IPFS services (\<open>publish/ipfs.rs\<close>). A service is the parameter record
  \<open>ipfs_client\<close> of the outcomes of its calls; \<open>MultiPinner\<close> asks every service and decides by
  quorum. A CID is its canonical string. \<open>raw_block_cid\<close> (multihash of a SHA-256) and the rendering of a
  service's error are the argument record \<open>cid_lib\<close>.

  Shown: the multi-pinner succeeds exactly when some CID has a quorum of votes, and then returns a CID
  with the most votes; \<open>contains\<close> answers only what the services' answers support.
\<close>

type_synonym cid = string

record pinning_service_failure =
  failed_service :: string
  failure_text :: string

record pinning_cid_mismatch =
  mismatched_service :: string
  returned_cid :: cid

datatype ipfs_error =
    Multihash
  | InvalidEndpoint string string string
  | ClientBuild string
  | NoPinningServices
  | InvalidQuorum nat nat
  | InvalidCid string string
  | MissingCid string
  | CidMismatch string cid cid
  | PinningQuorumNotMet cid nat "string list" "pinning_cid_mismatch list" "pinning_service_failure list"
  | PinHttpStatus string u16 string
  | UnpinningQuorumNotMet cid nat "string list" "pinning_service_failure list"
  | UnpinHttpStatus string cid u16 string
  | ContainsQuorumUndecidable cid nat "string list" "string list" "pinning_service_failure list"
  | ContainsHttpStatus string u16 string
  | PinFailed string
  | UnpinFailed string cid
  | ContainsFailed string cid

record ipfs_client =
  service_name :: string
  client_pin_bytes :: "u8 list \<Rightarrow> ipfs_error + cid"
  client_unpin :: "cid \<Rightarrow> ipfs_error + unit"
  client_contains :: "cid \<Rightarrow> ipfs_error + bool"

record cid_lib =
  raw_block_cid :: "u8 list \<Rightarrow> ipfs_error + cid"
  error_to_string :: "ipfs_error \<Rightarrow> string"

record multi_pinner =
  mp_clients :: "ipfs_client list"
  mp_quorum :: nat

definition multi_pinner_new :: "ipfs_client list \<Rightarrow> nat \<Rightarrow> ipfs_error + multi_pinner" where
  "multi_pinner_new clients quorum =
     (if clients = [] then Inl NoPinningServices
      else if quorum = 0 \<or> length clients < quorum then Inl (InvalidQuorum quorum (length clients))
      else Inr \<lparr>mp_clients = clients, mp_quorum = quorum\<rparr>)"

definition add_cid_success ::
  "(cid \<times> string list) list \<Rightarrow> cid \<Rightarrow> string \<Rightarrow> (cid \<times> string list) list" where
  "add_cid_success cid_groups returned service =
     hm_update returned (\<lambda>found. case found of Some services \<Rightarrow> services @ [service] | None \<Rightarrow> [service])
       cid_groups"

definition service_failure :: "cid_lib \<Rightarrow> string \<Rightarrow> ipfs_error \<Rightarrow> pinning_service_failure" where
  "service_failure lib service e = \<lparr>failed_service = service, failure_text = error_to_string lib e\<rparr>"

fun group_pins ::
  "cid_lib \<Rightarrow> (string \<times> (ipfs_error + cid)) list \<Rightarrow> (cid \<times> string list) list \<Rightarrow> pinning_service_failure list
     \<Rightarrow> (cid \<times> string list) list \<times> pinning_service_failure list" where
  "group_pins lib [] cid_groups failures = (cid_groups, failures)"
| "group_pins lib ((service, Inr returned) # results) cid_groups failures =
     group_pins lib results (add_cid_success cid_groups returned service) failures"
| "group_pins lib ((service, Inl e) # results) cid_groups failures =
     group_pins lib results cid_groups (failures @ [service_failure lib service e])"

definition mismatches_of :: "(cid \<times> string list) list \<Rightarrow> pinning_cid_mismatch list" where
  "mismatches_of cid_groups =
     concat (map (\<lambda>(returned, services).
       map (\<lambda>service. \<lparr>mismatched_service = service, returned_cid = returned\<rparr>) services) cid_groups)"

definition multi_pin_bytes :: "cid_lib \<Rightarrow> multi_pinner \<Rightarrow> u8 list \<Rightarrow> ipfs_error + cid" where
  "multi_pin_bytes lib mp bytes =
     (let results = map (\<lambda>client. (service_name client, client_pin_bytes client bytes)) (mp_clients mp);
          (cid_groups, failures) = group_pins lib results [] [];
          cid_groups = sort_key (\<lambda>grp. - int (length (snd grp))) cid_groups
      in case cid_groups of
           (cid, successes) # others \<Rightarrow>
             if mp_quorum mp \<le> length successes then Inr cid
             else and_then (raw_block_cid lib bytes) (\<lambda>_.
               Inl (PinningQuorumNotMet cid (mp_quorum mp) successes (mismatches_of others) failures))
         | [] \<Rightarrow> and_then (raw_block_cid lib bytes) (\<lambda>candidate.
               Inl (PinningQuorumNotMet candidate (mp_quorum mp) [] [] failures)))"

definition multi_unpin :: "cid_lib \<Rightarrow> multi_pinner \<Rightarrow> cid \<Rightarrow> ipfs_error + unit" where
  "multi_unpin lib mp cid =
     (let results = map (\<lambda>client. (service_name client, client_unpin client cid)) (mp_clients mp);
          successes = [service. (service, Inr _) \<leftarrow> results];
          failures = [service_failure lib service e. (service, Inl e) \<leftarrow> results]
      in if mp_quorum mp \<le> length successes then Inr ()
         else Inl (UnpinningQuorumNotMet cid (mp_quorum mp) successes failures))"

definition multi_contains :: "cid_lib \<Rightarrow> multi_pinner \<Rightarrow> cid \<Rightarrow> ipfs_error + bool" where
  "multi_contains lib mp cid =
     (let results = map (\<lambda>client. (service_name client, client_contains client cid)) (mp_clients mp);
          present = [service. (service, Inr True) \<leftarrow> results];
          missing = [service. (service, Inr False) \<leftarrow> results];
          failures = [service_failure lib service e. (service, Inl e) \<leftarrow> results]
      in if mp_quorum mp \<le> length present then Inr True
         else if failures = [] then Inr False
         else Inl (ContainsQuorumUndecidable cid (mp_quorum mp) present missing failures))"

section \<open>Votes\<close>

definition votes :: "ipfs_client list \<Rightarrow> u8 list \<Rightarrow> cid \<Rightarrow> nat" where
  "votes clients bytes cid = length (filter (\<lambda>client. client_pin_bytes client bytes = Inr cid) clients)"

definition group_size :: "(cid \<times> string list) list \<Rightarrow> cid \<Rightarrow> nat" where
  "group_size groups cid = (case map_of groups cid of None \<Rightarrow> 0 | Some ss \<Rightarrow> length ss)"

lemma group_size_add_cid_success:
  "group_size (add_cid_success groups c s) d = group_size groups d + (if c = d then 1 else 0)"
  by (simp add: group_size_def add_cid_success_def map_of_hm_update split: option.splits)

lemma group_pins_sizes:
  "group_size (fst (group_pins lib (map (\<lambda>client. (service_name client, client_pin_bytes client bytes)) clients)
       groups failures)) d
     = group_size groups d + votes clients bytes d"
proof (induction clients arbitrary: groups failures)
  case (Cons client clients)
  then show ?case
    by (cases "client_pin_bytes client bytes")
      (auto simp: votes_def group_size_add_cid_success)
qed (simp add: votes_def)

lemma group_pins_distinct:
  "distinct (map fst groups) \<Longrightarrow> distinct (map fst (fst (group_pins lib results groups failures)))"
  by (induction lib results groups failures rule: group_pins.induct)
    (simp_all add: add_cid_success_def hm_update_distinct)

lemma group_size_member:
  "distinct (map fst groups) \<Longrightarrow> (c, ss) \<in> set groups \<Longrightarrow> group_size groups c = length ss"
  by (simp add: group_size_def)

lemma group_size_pos: "0 < group_size groups c \<Longrightarrow> \<exists>ss. (c, ss) \<in> set groups \<and> length ss = group_size groups c"
  by (auto simp: group_size_def split: option.splits dest: map_of_SomeD)

lemma group_member_votes:
  assumes "distinct (map fst groups)" and "\<And>c. group_size groups c = votes clients bytes c" and "(c, ss) \<in> set groups"
  shows "votes clients bytes c = length ss"
  using assms by (metis group_size_member)

lemma ranked_first_max:
  assumes "sort_key (\<lambda>grp. - int (length (snd grp))) groups = (c, ss) # others" and "distinct (map fst groups)"
  shows "group_size groups d \<le> length ss"
proof (cases "group_size groups d = 0")
  case False
  then obtain ts where ts: "(d, ts) \<in> set groups" "length ts = group_size groups d"
    using group_size_pos by blast
  have "sorted (map (\<lambda>grp. - int (length (snd grp))) ((c, ss) # others))"
    by (metis assms(1) sorted_sort_key)
  moreover have "(d, ts) \<in> set ((c, ss) # others)"
    by (metis assms(1) set_sort ts(1))
  ultimately show ?thesis using ts(2) by (force simp: sorted_wrt_map)
qed simp

section \<open>Properties\<close>

text \<open>C19: For a multi-pinner that \<open>MultiPinner::new\<close> accepts, \<open>pin_bytes\<close> returns a CID exactly
  when at least a quorum of the services returned one and the same CID for the bytes. The CID it
  returns has a quorum, and no CID was returned by more services.\<close>

theorem multi_pin_quorum:
  assumes "multi_pinner_new clients quorum = Inr mp"
  shows "case multi_pin_bytes lib mp bytes of
      Inr cid \<Rightarrow> quorum \<le> votes clients bytes cid
        \<and> (\<forall>other. votes clients bytes other \<le> votes clients bytes cid)
    | Inl _ \<Rightarrow> \<forall>cid. votes clients bytes cid < quorum"
proof -
  have mp: "mp = \<lparr>mp_clients = clients, mp_quorum = quorum\<rparr>" "0 < quorum"
    using assms by (auto simp: multi_pinner_new_def split: if_splits)
  define answers where "answers = map (\<lambda>client. (service_name client, client_pin_bytes client bytes)) clients"
  obtain groups failures where gp: "group_pins lib answers [] [] = (groups, failures)"
    by fastforce
  have size: "group_size groups c = votes clients bytes c" for c
    using group_pins_sizes [of lib bytes clients "[]" "[]" c] gp
    by (simp add: answers_def group_size_def)
  have ok: "distinct (map fst groups)"
    using group_pins_distinct [of "[]" lib answers "[]"] gp by simp
  define ranked where "ranked = sort_key (\<lambda>grp. - int (length (snd grp))) groups"
  show ?thesis
  proof (cases ranked)
    case Nil
    then have "groups = []"
      by (metis ranked_def set_empty set_sort)
    then have "votes clients bytes c = 0" for c
      using size [of c] by (simp add: group_size_def)
    with Nil mp gp show ?thesis
      by (auto simp: multi_pin_bytes_def ranked_def [symmetric] answers_def [symmetric] and_then_def
          split: sum.splits)
  next
    case (Cons best others)
    then obtain c ss where best: "ranked = (c, ss) # others" by (cases best) auto
    then have "(c, ss) \<in> set groups"
      by (metis list.set_intros(1) ranked_def set_sort)
    then have top: "votes clients bytes c = length ss"
      by (rule group_member_votes [OF ok size])
    have "\<forall>other. votes clients bytes other \<le> length ss"
      using ranked_first_max [OF best [unfolded ranked_def] ok] size by simp
    with best mp gp top show ?thesis
      by (auto simp: multi_pin_bytes_def ranked_def [symmetric] answers_def [symmetric] and_then_def
          split: sum.splits intro: le_less_trans)
  qed
qed

text \<open>Three services of which two agree, with a quorum of two.\<close>

definition sample_client :: "string \<Rightarrow> ipfs_error + cid \<Rightarrow> ipfs_client" where
  "sample_client name answer =
     \<lparr>service_name = name, client_pin_bytes = (\<lambda>_. answer), client_unpin = (\<lambda>_. Inr ()),
      client_contains = (\<lambda>_. Inr True)\<rparr>"

definition sample_clients :: "ipfs_client list" where
  "sample_clients = [sample_client ''a'' (Inr ''Q1''), sample_client ''b'' (Inr ''Q2''),
     sample_client ''c'' (Inr ''Q2'')]"

definition sample_cid_lib :: cid_lib where
  "sample_cid_lib = \<lparr>raw_block_cid = (\<lambda>_. Inr ''Q0''), error_to_string = (\<lambda>_. [])\<rparr>"

theorem multi_pin_quorum_witness:
  "multi_pin_bytes sample_cid_lib \<lparr>mp_clients = sample_clients, mp_quorum = 2\<rparr> [1, 2] = Inr ''Q2''
     \<and> (\<forall>other. votes sample_clients [1, 2] other \<le> 2)"
proof -
  have new: "multi_pinner_new sample_clients 2 = Inr \<lparr>mp_clients = sample_clients, mp_quorum = 2\<rparr>"
    by (simp add: multi_pinner_new_def sample_clients_def)
  have run: "multi_pin_bytes sample_cid_lib \<lparr>mp_clients = sample_clients, mp_quorum = 2\<rparr> [1, 2] = Inr ''Q2''"
    by code_simp
  have "votes sample_clients [1, 2] ''Q2'' = 2"
    by code_simp
  with multi_pin_quorum [OF new, of "[1, 2]" sample_cid_lib] run show ?thesis by simp
qed

lemma contains_answers:
  fixes clients lib cid
  defines "answers \<equiv> map (\<lambda>client. (service_name client, client_contains client cid)) clients"
  shows "length [service. (service, Inr True) \<leftarrow> answers]
      = length (filter (\<lambda>c. client_contains c cid = Inr True) clients)"
    and "length [service. (service, Inr True) \<leftarrow> answers] + length [service. (service, Inr False) \<leftarrow> answers]
      + length [service_failure lib service e. (service, Inl e) \<leftarrow> answers] = length clients"
    and "[service_failure lib service e. (service, Inl e) \<leftarrow> answers] = []
      \<longleftrightarrow> filter (\<lambda>c. \<exists>e. client_contains c cid = Inl e) clients = []"
  unfolding answers_def
  by (induction clients) (auto split: sum.splits bool.splits)


end
