(* ===== verification/Store_Types.thy ===== *)
theory Store_Types
  imports Indexer_Prelude
begin

text \<open>
  The rows the store hands out (\<open>store.rs\<close>): POI events, chain progress, block headers, public
  transaction ids, wallet-scan rows and commitment-tree rows. Fixed byte arrays are words whose
  big-endian bytes they are; a \<open>String\<close> is the list of its UTF-8 bytes as characters.
\<close>

type_synonym bytes64 = "512 word"

record stored_chain_tip =
  tip_last_event_index :: u64
  last_tip_merkleroot :: "bytes32 option"

record stored_chain_indexing_progress =
  indexed_through_block :: u64
  indexed_through_block_hash :: bytes32

record stored_indexed_block_header =
  header_block_number :: u64
  header_block_hash :: bytes32
  header_parent_hash :: bytes32

record stored_public_txid_row =
  txid_index :: u64
  ptx_id :: string
  ptx_block_number :: u64
  ptx_block_timestamp :: u64
  ptx_block_hash :: bytes32
  ptx_transaction_hash :: bytes32
  first_log_index :: u64
  last_log_index :: u64
  ptx_nullifiers :: "bytes32 list"
  ptx_commitments :: "bytes32 list"
  ptx_bound_params_hash :: bytes32
  ptx_has_unshield :: bool
  ptx_unshield_preimage :: "u8 list option"
  ptx_utxo_tree_in :: u64
  ptx_utxo_tree_out :: u64
  ptx_utxo_batch_start_position_out :: u64

record stored_log_source_row =
  src_block_number :: u64
  src_block_timestamp :: "u64 option"
  src_block_hash :: bytes32
  src_transaction_hash :: bytes32
  src_log_index :: u64

record stored_transact_commitment_row =
  wt_source :: stored_log_source_row
  wt_tree_number :: u32
  wt_tree_position :: u64
  wt_commitment_hash :: bytes32
  wt_ciphertext :: "u8 list"

record stored_shield_commitment_row =
  wsh_source :: stored_log_source_row
  wsh_tree_number :: u32
  wsh_tree_position :: u64
  wsh_commitment_hash :: bytes32
  wsh_preimage :: "u8 list"
  wsh_shield_ciphertext :: "u8 list"

record stored_nullifier_row =
  wn_source :: stored_log_source_row
  wn_tree_number :: u32
  wn_nullifier :: bytes32

record stored_legacy_encrypted_commitment_row =
  we_source :: stored_log_source_row
  we_tree_number :: u32
  we_tree_position :: u64
  we_commitment_hash :: bytes32
  we_ciphertext :: "u8 list"

record stored_legacy_generated_commitment_row =
  wg_source :: stored_log_source_row
  wg_tree_number :: u32
  wg_tree_position :: u64
  wg_commitment_hash :: bytes32
  wg_preimage :: "u8 list"
  wg_encrypted_random :: bytes64

record stored_wallet_scan_rows =
  ws_transact_commitments :: "stored_transact_commitment_row list"
  ws_shield_commitments :: "stored_shield_commitment_row list"
  ws_nullifiers :: "stored_nullifier_row list"
  ws_legacy_encrypted_commitments :: "stored_legacy_encrypted_commitment_row list"
  ws_legacy_generated_commitments :: "stored_legacy_generated_commitment_row list"

definition wallet_scan_rows_is_empty :: "stored_wallet_scan_rows \<Rightarrow> bool" where
  "wallet_scan_rows_is_empty rows \<longleftrightarrow>
     ws_transact_commitments rows = [] \<and> ws_shield_commitments rows = [] \<and> ws_nullifiers rows = []
     \<and> ws_legacy_encrypted_commitments rows = [] \<and> ws_legacy_generated_commitments rows = []"

datatype stored_commitment_family =
  TransactRow | ShieldRow | LegacyEncryptedRow | LegacyGeneratedRow

record stored_commitment_row =
  cr_global_position :: u64
  cr_block_number :: u64
  cr_family :: stored_commitment_family
  cr_tree_number :: u32
  cr_tree_position :: u64
  cr_commitment_hash :: bytes32

record stored_commitment_tree_checkpoint =
  ck_tree_number :: u32
  ck_leaf_count :: u64
  ck_last_indexed_block :: u64
  ck_leaves :: "bytes32 list"

end
