(* ===== verification/Chunk_Format.thy ===== *)
theory Chunk_Format
  imports Byte_Codec Ipfs_Pin Store_Types
begin

text \<open>
  What the four dataset encoders share: ranges, sections, envelopes and descriptors of indexed
  artifacts, and the parameter record \<open>chunk_lib\<close> for the artifact crate and SHA-256, which are not
  part of this repository. \<open>decodes_published\<close> is what the indexer relies on: a chunk decodes, under
  a descriptor that states its envelope and its hash, to the envelope it was encoded from.
\<close>

datatype chain_type = Evm

record chain_scope =
  scope_chain_type :: chain_type
  scope_chain_id :: u64
  scope_railgun_contract :: address

datatype compression_algorithm = NoCompression | Zstd

datatype indexed_dataset_kind = WalletScan | Commitments | MerkleCheckpoint | PublicTxid

datatype artifact_range_kind = BlockRange | TxidIndexRange | TreePositionRange | PoiEventIndexRange

record artifact_range =
  range_kind :: artifact_range_kind
  range_start :: u64
  range_end :: u64

record chunk_section =
  section_id :: u16
  section_offset :: u64
  section_byte_length :: u64

datatype chunk_error =
    PayloadTooLarge
  | ChunkTooLarge u64 u64
  | StringTooLong string nat
  | OtherChunkError string

record chunk_envelope =
  env_dataset_kind :: indexed_dataset_kind
  env_scope :: chain_scope
  env_range :: artifact_range
  env_row_count :: u64
  env_payload_len :: u64
  env_sections :: "chunk_section list"
  env_payload :: "u8 list"

record descriptor_metadata =
  md_root :: "bytes32 option"
  md_checkpoint_block :: "u64 option"
  md_tree_number :: "u16 option"
  md_leaf_count :: "u64 option"
  md_start_block :: "u64 option"
  md_end_block :: "u64 option"
  md_last_indexed_block :: "u64 option"

definition default_metadata :: descriptor_metadata where
  "default_metadata = \<lparr>md_root = None, md_checkpoint_block = None, md_tree_number = None,
     md_leaf_count = None, md_start_block = None, md_end_block = None, md_last_indexed_block = None\<rparr>"

record artifact_descriptor =
  d_dataset_kind :: indexed_dataset_kind
  d_scope :: chain_scope
  d_range :: artifact_range
  d_row_count :: u64
  d_cid :: cid
  d_sha256 :: bytes32
  d_byte_size :: u64
  d_encoding_version :: u16
  d_compression :: compression_algorithm
  d_metadata :: descriptor_metadata

record published_chunk =
  descriptor :: artifact_descriptor
  compressed_bytes :: "u8 list"

record chunk_plan_item =
  plan_range :: artifact_range
  plan_row_count :: u64
  plan_compressed_byte_size :: u64

record chunk_lib =
  encode_chunk_bytes :: "chunk_envelope \<Rightarrow> compression_algorithm \<Rightarrow> chunk_error + u8 list"
  decode_chunk_bytes :: "artifact_descriptor \<Rightarrow> u8 list \<Rightarrow> chunk_error + chunk_envelope"
  sha256_digest :: "u8 list \<Rightarrow> bytes32"
  CHUNK_FORMAT_VERSION :: u16
  MAX_COMPRESSED_CHUNK_BYTES :: u64

abbreviation len_u64 :: "'a list \<Rightarrow> chunk_error + u64" where
  "len_u64 xs \<equiv> ok_or PayloadTooLarge (try_from_len (length xs))"

definition write_u16 :: "u8 list \<Rightarrow> u16 \<Rightarrow> u8 list" where
  "write_u16 bytes value = bytes @ le_bytes value"

definition write_u32 :: "u8 list \<Rightarrow> u32 \<Rightarrow> u8 list" where
  "write_u32 bytes value = bytes @ le_bytes value"

definition write_u64 :: "u8 list \<Rightarrow> u64 \<Rightarrow> u8 list" where
  "write_u64 bytes value = bytes @ le_bytes value"

definition write_len :: "u8 list \<Rightarrow> nat \<Rightarrow> chunk_error + u8 list" where
  "write_len bytes n_items =
     and_then (ok_or PayloadTooLarge (try_from_len n_items)) (\<lambda>n. Inr (write_u64 bytes n))"

definition write_bytes :: "u8 list \<Rightarrow> u8 list \<Rightarrow> chunk_error + u8 list" where
  "write_bytes bytes value =
     and_then (ok_or PayloadTooLarge (try_from_len (length value))) (\<lambda>n.
       Inr (write_u32 bytes n @ value))"

text \<open>\<open>Iterator::min\<close> and \<open>Iterator::max\<close>.\<close>

definition iter_min :: "'a::linorder list \<Rightarrow> 'a option" where
  "iter_min xs = (case xs of [] \<Rightarrow> None | x # rest \<Rightarrow> Some (fold min rest x))"

definition iter_max :: "'a::linorder list \<Rightarrow> 'a option" where
  "iter_max xs = (case xs of [] \<Rightarrow> None | x # rest \<Rightarrow> Some (fold max rest x))"

lemma iter_min_Some_iff: "iter_min xs = Some m \<longleftrightarrow> xs \<noteq> [] \<and> m = Min (set xs)"
  by (cases xs) (auto simp: iter_min_def simp del: Min_insert simp flip: Min.set_eq_fold)

lemma iter_max_Some_iff: "iter_max xs = Some m \<longleftrightarrow> xs \<noteq> [] \<and> m = Max (set xs)"
  by (cases xs) (auto simp: iter_max_def simp del: Max_insert simp flip: Max.set_eq_fold)

section \<open>What a published chunk promises\<close>

text \<open>The descriptor names exactly what the envelope says, and identifies the bytes.\<close>

definition describes :: "chunk_lib \<Rightarrow> artifact_descriptor \<Rightarrow> chunk_envelope \<Rightarrow> u8 list \<Rightarrow> bool" where
  "describes lib d env bytes \<longleftrightarrow>
     d_dataset_kind d = env_dataset_kind env \<and> d_scope d = env_scope env \<and> d_range d = env_range env
     \<and> d_row_count d = env_row_count env \<and> d_sha256 d = sha256_digest lib bytes
     \<and> unat (d_byte_size d) = length bytes \<and> d_byte_size d \<le> MAX_COMPRESSED_CHUNK_BYTES lib
     \<and> d_encoding_version d = CHUNK_FORMAT_VERSION lib"

definition decodes_published :: "chunk_lib \<Rightarrow> bool" where
  "decodes_published lib \<longleftrightarrow>
     (\<forall>env compression bytes d. encode_chunk_bytes lib env compression = Inr bytes
        \<longrightarrow> d_compression d = compression \<longrightarrow> describes lib d env bytes
        \<longrightarrow> decode_chunk_bytes lib d bytes = Inr env)"

text \<open>The bytes of a section of a payload.\<close>

definition section_bytes :: "chunk_section \<Rightarrow> u8 list \<Rightarrow> u8 list" where
  "section_bytes sec payload = take (unat (section_byte_length sec)) (drop (unat (section_offset sec)) payload)"

definition read_section_of :: "chunk_envelope \<Rightarrow> u16 \<Rightarrow> 'v reader \<Rightarrow> 'v option" where
  "read_section_of env sid r =
     (case find (\<lambda>sec. section_id sec = sid) (env_sections env) of
        None \<Rightarrow> None
      | Some sec \<Rightarrow>
          (case r (section_bytes sec (env_payload env)) of
             Some (v, []) \<Rightarrow> Some v
           | _ \<Rightarrow> None))"

lemma wrote_write_u16 [wrote_intros]: "wrote read_le v buf (write_u16 buf v)"
  by (simp add: write_u16_def wrote_le)

lemma wrote_write_u32 [wrote_intros]: "wrote read_le v buf (write_u32 buf v)"
  by (simp add: write_u32_def wrote_le)

lemma wrote_write_u64 [wrote_intros]: "wrote read_le v buf (write_u64 buf v)"
  by (simp add: write_u64_def wrote_le)

lemma wrote_bytes32 [wrote_intros]: "wrote read_be (v :: bytes32) buf (buf @ be_bytes v)"
  by (simp add: wrote_be)

lemma wrote_bytes64 [wrote_intros]: "wrote read_be (v :: bytes64) buf (buf @ be_bytes v)"
  by (simp add: wrote_be)

interpretation bytes32_writer: record_writer "\<lambda>buf v. Inr (buf @ be_bytes v)" "read_be :: bytes32 reader" id
  by unfold_locales (auto intro: wrote_bytes32)

lemma wrote_bytes32_list:
  "n = length vs \<Longrightarrow>
   wrote (read_many read_be n) vs buf (foldl (\<lambda>bytes v. bytes @ be_bytes (v :: bytes32)) buf vs)"
  using bytes32_writer.wrote_all [of buf vs] by (simp add: try_fold_Inr)

definition read_u8 :: "u8 reader" where
  "read_u8 bs = (case bs of [] \<Rightarrow> None | b # rest \<Rightarrow> Some (b, rest))"

lemma wrote_push [wrote_intros]: "wrote read_u8 b buf (buf @ [b])"
  by (rule wroteI) (simp add: read_u8_def)

definition read_length_prefixed :: "u8 list reader" where
  "read_length_prefixed = read_then (read_le :: u32 reader) (\<lambda>n. read_bytes (unat n))"

lemma wrote_write_bytes:
  assumes "write_bytes buf v = Inr buf'"
  shows "wrote read_length_prefixed v buf buf'"
proof -
  from assms obtain n :: u32 where n: "unat n = length v" "buf' = write_u32 buf n @ v"
    by (auto simp: write_bytes_def result_simps checked_simps)
  then show ?thesis
    unfolding read_length_prefixed_def
    by (auto intro!: wrote_then [OF wrote_write_u32] wrote_bytes_len)
qed

text \<open>A section written at the end of the payload so far reads back from the final payload.\<close>

lemma wrote_section_bytes:
  assumes "wrote r v payload payload'"
    and "unat offset = length payload" and "unat offset + unat len = length payload'"
  shows "r (section_bytes \<lparr>section_id = sid, section_offset = offset, section_byte_length = len\<rparr>
           (payload' @ later)) = Some (v, [])"
proof -
  from assms(1) obtain bs where bs: "payload' = payload @ bs" "\<forall>rest. r (bs @ rest) = Some (v, rest)"
    by (auto simp: wrote_def)
  with assms(2,3) have "section_bytes \<lparr>section_id = sid, section_offset = offset, section_byte_length = len\<rparr>
      (payload' @ later) = bs"
    by (simp add: section_bytes_def)
  with bs(2) show ?thesis by (metis append.right_neutral)
qed

lemma read_single_section:
  assumes "wrote r v [] payload" and "unat len = length payload"
    and "env_sections env = [\<lparr>section_id = sid, section_offset = 0, section_byte_length = len\<rparr>]"
    and "env_payload env = payload"
  shows "read_section_of env sid r = Some v"
  using wrote_section_bytes [OF assms(1), of 0 len sid "[]"] assms(2-4)
  by (simp add: read_section_of_def)

lemma published_decodes:
  assumes "decodes_published lib" and "encode_chunk_bytes lib env compression = Inr bytes"
    and "d_compression d = compression" and "describes lib d env bytes"
  shows "decode_chunk_bytes lib d bytes = Inr env"
  using assms by (auto simp: decodes_published_def)

text \<open>A small artifact library that encodes a single envelope.\<close>

definition sample_chunk_lib :: "chunk_envelope \<Rightarrow> chunk_lib" where
  "sample_chunk_lib env0 =
     \<lparr>encode_chunk_bytes = (\<lambda>env _. if env = env0 then Inr [1, 2, 3] else Inl PayloadTooLarge),
      decode_chunk_bytes = (\<lambda>_ bytes. if bytes = [1, 2, 3] then Inr env0 else Inl PayloadTooLarge),
      sha256_digest = (\<lambda>_. 7), CHUNK_FORMAT_VERSION = 1, MAX_COMPRESSED_CHUNK_BYTES = 100\<rparr>"

lemma sample_chunk_lib_decodes: "decodes_published (sample_chunk_lib env0)"
  by (simp add: decodes_published_def sample_chunk_lib_def)

definition sample_scope :: chain_scope where
  "sample_scope = \<lparr>scope_chain_type = Evm, scope_chain_id = 1, scope_railgun_contract = 2\<rparr>"

end
