(* ===== verification/Merkle_Checkpoint.thy ===== *)
theory Merkle_Checkpoint
  imports Chunk_Format
begin

text \<open>
  Commitment-tree checkpoints (\<open>merkle_checkpoint.rs\<close>): validation, the range of global positions, the
  payload, the root and the descriptor. Poseidon, the zero leaf and the tree's depth and leaf count
  come from other crates and are the parameter record \<open>tree_lib\<close>.

  The code computes the root layer by layer, padding a layer of odd length with the root of an empty
  subtree. \<open>tree_root\<close> is the definition of a Merkle root: the tree of full depth in which every leaf
  beyond the given ones is the zero leaf. The two agree on every checkpoint the code accepts.
\<close>

record tree_lib =
  poseidon2 :: "u256 \<Rightarrow> u256 \<Rightarrow> u256"
  MERKLE_ZERO_VALUE :: u256
  TREE_DEPTH :: nat
  TREE_LEAF_COUNT :: u64

datatype merkle_checkpoint_error =
    EmptyCheckpoint
  | LeafCountTooLarge u64 u64
  | LeafCountMismatch u64 u64
  | TreeNumberOutOfRange u32
  | RangeOverflow
  | MerkleChunk chunk_error
  | MerkleIpfs ipfs_error

definition validate_checkpoint ::
  "tree_lib \<Rightarrow> stored_commitment_tree_checkpoint \<Rightarrow> merkle_checkpoint_error + unit" where
  "validate_checkpoint t checkpoint =
     (if ck_leaf_count checkpoint = 0 then Inl EmptyCheckpoint
      else if ck_leaf_count checkpoint > TREE_LEAF_COUNT t
      then Inl (LeafCountTooLarge (ck_leaf_count checkpoint) (TREE_LEAF_COUNT t))
      else and_then (map_err MerkleChunk (len_u64 (ck_leaves checkpoint))) (\<lambda>leaf_len.
        if leaf_len \<noteq> ck_leaf_count checkpoint
        then Inl (LeafCountMismatch (ck_leaf_count checkpoint) leaf_len)
        else Inr ()))"

definition checkpoint_range ::
  "tree_lib \<Rightarrow> stored_commitment_tree_checkpoint \<Rightarrow> merkle_checkpoint_error + artifact_range" where
  "checkpoint_range t checkpoint =
     and_then (ok_or RangeOverflow
       (checked_mul (ucast (ck_tree_number checkpoint)) (TREE_LEAF_COUNT t))) (\<lambda>start.
     and_then (ok_or RangeOverflow (checked_add start (ck_leaf_count checkpoint - 1))) (\<lambda>last.
     Inr \<lparr>range_kind = TreePositionRange, range_start = start, range_end = last\<rparr>))"

definition encode_merkle_checkpoint ::
  "stored_commitment_tree_checkpoint \<Rightarrow> bytes32 \<Rightarrow> chunk_error + u8 list" where
  "encode_merkle_checkpoint checkpoint root =
     (let bytes = [];
          bytes = write_u32 bytes (ck_tree_number checkpoint);
          bytes = write_u64 bytes (ck_leaf_count checkpoint);
          bytes = bytes @ be_bytes root;
          bytes = write_u64 bytes (ck_last_indexed_block checkpoint);
          bytes = foldl (\<lambda>bytes leaf. bytes @ be_bytes leaf) bytes (ck_leaves checkpoint)
      in and_then (len_u64 bytes) (\<lambda>_. Inr bytes))"

text \<open>The parents of a layer, two children at a time (\<open>as_chunks\<close> leaves out an odd one), and the
  loop over the levels.\<close>

fun hash_pairs :: "('a \<Rightarrow> 'a \<Rightarrow> 'a) \<Rightarrow> 'a list \<Rightarrow> 'a list" where
  "hash_pairs h (x # y # rest) = h x y # hash_pairs h rest"
| "hash_pairs h _ = []"

definition pad_layer :: "'a \<Rightarrow> 'a list \<Rightarrow> 'a list" where
  "pad_layer empty_subtree_root layer =
     (if length layer mod 2 \<noteq> 0 then layer @ [empty_subtree_root] else layer)"

fun root_levels :: "('a \<Rightarrow> 'a \<Rightarrow> 'a) \<Rightarrow> nat \<Rightarrow> 'a list \<Rightarrow> 'a \<Rightarrow> 'a list" where
  "root_levels h 0 layer empty_subtree_root = layer"
| "root_levels h (Suc n) layer empty_subtree_root =
     root_levels h n (hash_pairs h (pad_layer empty_subtree_root layer))
       (h empty_subtree_root empty_subtree_root)"

definition checkpoint_root :: "tree_lib \<Rightarrow> stored_commitment_tree_checkpoint \<Rightarrow> bytes32" where
  "checkpoint_root t checkpoint =
     (case root_levels (poseidon2 t) (TREE_DEPTH t) (ck_leaves checkpoint) (MERKLE_ZERO_VALUE t) of
        [] \<Rightarrow> MERKLE_ZERO_VALUE t
      | root # _ \<Rightarrow> root)"

definition merkle_envelope ::
  "chain_scope \<Rightarrow> artifact_range \<Rightarrow> stored_commitment_tree_checkpoint \<Rightarrow> u64 \<Rightarrow> u8 list \<Rightarrow> chunk_envelope" where
  "merkle_envelope scope rng checkpoint payload_len payload =
     \<lparr>env_dataset_kind = MerkleCheckpoint, env_scope = scope, env_range = rng,
      env_row_count = ck_leaf_count checkpoint, env_payload_len = payload_len,
      env_sections = [\<lparr>section_id = 1, section_offset = 0, section_byte_length = payload_len\<rparr>],
      env_payload = payload\<rparr>"

definition prepare_merkle_checkpoint_artifact ::
  "chunk_lib \<Rightarrow> tree_lib \<Rightarrow> chain_scope \<Rightarrow> stored_commitment_tree_checkpoint \<Rightarrow> compression_algorithm
     \<Rightarrow> merkle_checkpoint_error + published_chunk" where
  "prepare_merkle_checkpoint_artifact lib t scope checkpoint compression =
     and_then (validate_checkpoint t checkpoint) (\<lambda>_.
     let root = checkpoint_root t checkpoint in
     and_then (checkpoint_range t checkpoint) (\<lambda>range.
     and_then (map_err MerkleChunk (encode_merkle_checkpoint checkpoint root)) (\<lambda>payload.
     and_then (map_err MerkleChunk (len_u64 payload)) (\<lambda>payload_len.
     let envelope = merkle_envelope scope range checkpoint payload_len payload in
     and_then (map_err MerkleChunk (encode_chunk_bytes lib envelope compression)) (\<lambda>compressed.
     and_then (map_err MerkleChunk (len_u64 compressed)) (\<lambda>byte_size.
     if byte_size > MAX_COMPRESSED_CHUNK_BYTES lib
     then Inl (MerkleChunk (ChunkTooLarge byte_size (MAX_COMPRESSED_CHUNK_BYTES lib)))
     else
     and_then (ok_or (TreeNumberOutOfRange (ck_tree_number checkpoint))
       (try_from_word (ck_tree_number checkpoint))) (\<lambda>tree_number.
     Inr \<lparr>descriptor =
       \<lparr>d_dataset_kind = MerkleCheckpoint, d_scope = scope, d_range = range,
        d_row_count = ck_leaf_count checkpoint, d_cid = [], d_sha256 = sha256_digest lib compressed,
        d_byte_size = byte_size, d_encoding_version = CHUNK_FORMAT_VERSION lib,
        d_compression = compression,
        d_metadata = default_metadata
          \<lparr>md_root := Some root, md_checkpoint_block := Some (ck_last_indexed_block checkpoint),
           md_tree_number := Some tree_number, md_leaf_count := Some (ck_leaf_count checkpoint),
           md_start_block := None, md_end_block := None,
           md_last_indexed_block := Some (ck_last_indexed_block checkpoint)\<rparr>\<rparr>,
       compressed_bytes = compressed\<rparr>)))))))"

definition publish_merkle_checkpoint_artifact ::
  "chunk_lib \<Rightarrow> tree_lib \<Rightarrow> ipfs_client \<Rightarrow> chain_scope \<Rightarrow> stored_commitment_tree_checkpoint
     \<Rightarrow> compression_algorithm \<Rightarrow> merkle_checkpoint_error + published_chunk" where
  "publish_merkle_checkpoint_artifact lib t client scope checkpoint compression =
     and_then (prepare_merkle_checkpoint_artifact lib t scope checkpoint compression) (\<lambda>published.
     and_then (map_err MerkleIpfs (client_pin_bytes client (compressed_bytes published))) (\<lambda>cid.
     Inr (published\<lparr>descriptor := (descriptor published)\<lparr>d_cid := cid\<rparr>\<rparr>)))"

definition decode_merkle_checkpoint_artifact ::
  "chunk_lib \<Rightarrow> artifact_descriptor \<Rightarrow> u8 list \<Rightarrow> chunk_error + chunk_envelope" where
  "decode_merkle_checkpoint_artifact lib d bytes = decode_chunk_bytes lib d bytes"

section \<open>The root of a checkpoint\<close>

text \<open>The Merkle root of depth \<open>n\<close> over the given leaves, every missing leaf being \<open>z\<close>.\<close>

fun tree_root :: "('a \<Rightarrow> 'a \<Rightarrow> 'a) \<Rightarrow> nat \<Rightarrow> 'a \<Rightarrow> 'a list \<Rightarrow> 'a" where
  "tree_root h 0 z leaves = (case leaves of [] \<Rightarrow> z | x # _ \<Rightarrow> x)"
| "tree_root h (Suc n) z leaves =
     h (tree_root h n z (take (2 ^ n) leaves)) (tree_root h n z (drop (2 ^ n) leaves))"

definition parents :: "('a \<Rightarrow> 'a \<Rightarrow> 'a) \<Rightarrow> 'a \<Rightarrow> 'a list \<Rightarrow> 'a list" where
  "parents h z layer = hash_pairs h (pad_layer z layer)"

lemma parents_simps [simp]:
  "parents h z [] = []"
  "parents h z [x] = [h x z]"
  "parents h z (x # y # rest) = h x y # parents h z rest"
  by (simp_all add: parents_def pad_layer_def)

lemma pair_cases:
  obtains (none) "xs = []" | (one) x where "xs = [x]" | (more) x y rest where "xs = x # y # rest"
  by (cases xs; cases "tl xs") auto

lemma parents_take_drop:
  "parents h z (take (2 * k) layer) = take k (parents h z layer)"
  "parents h z (drop (2 * k) layer) = drop k (parents h z layer)"
proof (induction k arbitrary: layer)
  case (Suc k)
  {
    case 1
    show ?case using Suc.IH(1) by (cases layer rule: pair_cases) auto
  next
    case 2
    show ?case using Suc.IH(2) by (cases layer rule: pair_cases) auto
  }
qed simp_all

lemma length_parents: "length (parents h z layer) = (length layer + 1) div 2"
  by (induction h layer rule: hash_pairs.induct) auto

lemma tree_root_parents: "tree_root h (Suc n) z leaves = tree_root h n (h z z) (parents h z leaves)"
proof (induction n arbitrary: leaves)
  case 0
  then show ?case
    by (cases leaves rule: pair_cases) (auto split: list.splits)
next
  case (Suc n)
  have "tree_root h (Suc (Suc n)) z leaves
      = h (tree_root h (Suc n) z (take (2 * 2 ^ n) leaves)) (tree_root h (Suc n) z (drop (2 * 2 ^ n) leaves))"
    by (subst tree_root.simps) simp
  then show ?case
    unfolding Suc.IH parents_take_drop by simp
qed

lemma root_levels_tree_root:
  assumes "leaves \<noteq> []" and "length leaves \<le> 2 ^ n"
  shows "root_levels h n leaves z = [tree_root h n z leaves]"
  using assms
proof (induction n arbitrary: leaves z)
  case 0
  then show ?case by (cases leaves) auto
next
  case (Suc n)
  have "length (parents h z leaves) \<le> 2 ^ n" "parents h z leaves \<noteq> []"
    using Suc.prems length_parents [of h z leaves] by (auto simp flip: length_greater_0_conv)
  with Suc.IH show ?case
    by (simp only: root_levels.simps tree_root_parents flip: parents_def)
qed

section \<open>What a consumer reads\<close>

definition read_checkpoint :: "(u32 \<times> u64 \<times> bytes32 \<times> u64 \<times> bytes32 list) reader" where
  "read_checkpoint =
     read_then read_le (\<lambda>tree.
     read_then read_le (\<lambda>n.
     read_then read_be (\<lambda>root.
     read_then read_le (\<lambda>block.
     read_then (read_many read_be (unat n)) (\<lambda>leaves.
     read_return (tree, n, root, block, leaves))))))"

lemma wrote_checkpoint:
  assumes "encode_merkle_checkpoint checkpoint root = Inr payload"
    and "unat (ck_leaf_count checkpoint) = length (ck_leaves checkpoint)"
  shows "wrote read_checkpoint (ck_tree_number checkpoint, ck_leaf_count checkpoint, root,
    ck_last_indexed_block checkpoint, ck_leaves checkpoint) [] payload"
  using assms unfolding read_checkpoint_def encode_merkle_checkpoint_def Let_def
  by (auto simp: result_simps intro!: wrote_then [OF wrote_write_u32] wrote_then [OF wrote_write_u64]
      wrote_then [OF wrote_bytes32] wrote_then [OF wrote_bytes32_list] wrote_return)

lemma validate_checkpoint_Inr:
  assumes "validate_checkpoint t checkpoint = Inr u"
  shows "0 < length (ck_leaves checkpoint)"
    and "unat (ck_leaf_count checkpoint) = length (ck_leaves checkpoint)"
    and "length (ck_leaves checkpoint) \<le> unat (TREE_LEAF_COUNT t)"
  using assms
  by (auto simp: validate_checkpoint_def result_simps checked_simps not_less word_le_nat_alt
      unat_eq_0 simp flip: length_greater_0_conv split: if_splits)

lemma checkpoint_range_Inr:
  assumes "checkpoint_range t checkpoint = Inr rng" and "0 < unat (ck_leaf_count checkpoint)"
  shows "unat (range_start rng) = unat (ck_tree_number checkpoint) * unat (TREE_LEAF_COUNT t)"
    and "unat (range_end rng) = unat (range_start rng) + unat (ck_leaf_count checkpoint) - 1"
proof -
  have "unat (ck_leaf_count checkpoint - 1) = unat (ck_leaf_count checkpoint) - 1"
    using assms(2) unat_sub_le [of 1 "ck_leaf_count checkpoint"] by simp
  with assms show "unat (range_start rng) = unat (ck_tree_number checkpoint) * unat (TREE_LEAF_COUNT t)"
    and "unat (range_end rng) = unat (range_start rng) + unat (ck_leaf_count checkpoint) - 1"
    by (auto simp: checkpoint_range_def result_simps checked_simps unat_ucast_up)
qed

text \<open>Everything a prepared checkpoint artifact is made of.\<close>

lemma prepare_merkle_checkpoint_Inr:
  assumes "prepare_merkle_checkpoint_artifact lib t scope checkpoint compression = Inr published"
    and "decodes_published lib"
  obtains env where
    "\<And>cid. decode_merkle_checkpoint_artifact lib ((descriptor published)\<lparr>d_cid := cid\<rparr>)
        (compressed_bytes published) = Inr env"
    and "read_section_of env 1 read_checkpoint = Some (ck_tree_number checkpoint, ck_leaf_count checkpoint,
        checkpoint_root t checkpoint, ck_last_indexed_block checkpoint, ck_leaves checkpoint)"
    and "checkpoint_range t checkpoint = Inr (d_range (descriptor published))"
    and "validate_checkpoint t checkpoint = Inr ()"
    and "md_root (d_metadata (descriptor published)) = Some (checkpoint_root t checkpoint)"
proof -
  from assms(1) obtain rng payload payload_len
    where v: "validate_checkpoint t checkpoint = Inr ()"
      and r: "checkpoint_range t checkpoint = Inr rng" "d_range (descriptor published) = rng"
      and p: "encode_merkle_checkpoint checkpoint (checkpoint_root t checkpoint) = Inr payload"
      and l: "unat (payload_len :: u64) = length payload"
      and c: "encode_chunk_bytes lib (merkle_envelope scope rng checkpoint payload_len payload) compression
        = Inr (compressed_bytes published)"
      and d: "d_compression (descriptor published) = compression"
        "describes lib (descriptor published) (merkle_envelope scope rng checkpoint payload_len payload)
          (compressed_bytes published)"
        "md_root (d_metadata (descriptor published)) = Some (checkpoint_root t checkpoint)"
    by (auto simp: prepare_merkle_checkpoint_artifact_def Let_def result_simps checked_simps not_less
        describes_def merkle_envelope_def split: if_splits)
  show thesis
  proof (rule that)
    show "decode_merkle_checkpoint_artifact lib ((descriptor published)\<lparr>d_cid := cid\<rparr>)
        (compressed_bytes published) = Inr (merkle_envelope scope rng checkpoint payload_len payload)" for cid
      unfolding decode_merkle_checkpoint_artifact_def
      using d by (auto intro!: published_decodes [OF assms(2) c] simp: describes_def)
    show "read_section_of (merkle_envelope scope rng checkpoint payload_len payload) 1 read_checkpoint
        = Some (ck_tree_number checkpoint, ck_leaf_count checkpoint, checkpoint_root t checkpoint,
            ck_last_indexed_block checkpoint, ck_leaves checkpoint)"
      using wrote_checkpoint [OF p validate_checkpoint_Inr(2) [OF v]] l
      by (auto intro: read_single_section simp: merkle_envelope_def)
  qed (use v r d in auto)
qed

section \<open>Properties\<close>

text \<open>C15: Publishing a checkpoint succeeds only for a non-empty tree that fits, and then a consumer who
  decodes the published bytes under the published descriptor reads back the tree number, the leaf
  count, the block and all leaves, together with their Merkle root: the root of the tree of full
  depth whose missing leaves are the zero leaf, which is also the root in the descriptor's metadata.
  The descriptor's range is the block of global positions the leaves occupy, and the descriptor
  carries the CID that pinning these bytes returned.\<close>

theorem merkle_checkpoint_published:
  assumes "publish_merkle_checkpoint_artifact lib t client scope checkpoint compression = Inr published"
    and "decodes_published lib"
    and "unat (TREE_LEAF_COUNT t) = 2 ^ TREE_DEPTH t"
  shows "\<exists>env root. decode_merkle_checkpoint_artifact lib (descriptor published) (compressed_bytes published) = Inr env
      \<and> read_section_of env 1 read_checkpoint = Some (ck_tree_number checkpoint, ck_leaf_count checkpoint,
          root, ck_last_indexed_block checkpoint, ck_leaves checkpoint)
      \<and> root = tree_root (poseidon2 t) (TREE_DEPTH t) (MERKLE_ZERO_VALUE t) (ck_leaves checkpoint)
      \<and> md_root (d_metadata (descriptor published)) = Some root
      \<and> 0 < length (ck_leaves checkpoint) \<and> length (ck_leaves checkpoint) \<le> 2 ^ TREE_DEPTH t
      \<and> unat (range_start (d_range (descriptor published)))
           = unat (ck_tree_number checkpoint) * unat (TREE_LEAF_COUNT t)
      \<and> unat (range_end (d_range (descriptor published)))
           = unat (ck_tree_number checkpoint) * unat (TREE_LEAF_COUNT t) + length (ck_leaves checkpoint) - 1
      \<and> client_pin_bytes client (compressed_bytes published) = Inr (d_cid (descriptor published))"
proof -
  from assms(1) obtain prepared cid
    where prep: "prepare_merkle_checkpoint_artifact lib t scope checkpoint compression = Inr prepared"
      and pin: "client_pin_bytes client (compressed_bytes prepared) = Inr cid"
      and pub: "published = prepared\<lparr>descriptor := (descriptor prepared)\<lparr>d_cid := cid\<rparr>\<rparr>"
    by (auto simp: publish_merkle_checkpoint_artifact_def result_simps)
  from prepare_merkle_checkpoint_Inr [OF prep assms(2)] obtain env
    where env: "decode_merkle_checkpoint_artifact lib ((descriptor prepared)\<lparr>d_cid := cid\<rparr>)
        (compressed_bytes prepared) = Inr env"
      and sec: "read_section_of env 1 read_checkpoint = Some (ck_tree_number checkpoint, ck_leaf_count checkpoint,
        checkpoint_root t checkpoint, ck_last_indexed_block checkpoint, ck_leaves checkpoint)"
      and rng: "checkpoint_range t checkpoint = Inr (d_range (descriptor prepared))"
      and val: "validate_checkpoint t checkpoint = Inr ()"
      and md: "md_root (d_metadata (descriptor prepared)) = Some (checkpoint_root t checkpoint)"
    by metis
  note valid = validate_checkpoint_Inr [OF val]
  have root: "checkpoint_root t checkpoint
      = tree_root (poseidon2 t) (TREE_DEPTH t) (MERKLE_ZERO_VALUE t) (ck_leaves checkpoint)"
    using valid assms(3) by (auto simp: checkpoint_root_def root_levels_tree_root)
  show ?thesis
    using env sec md root pub pin valid assms(3) checkpoint_range_Inr [OF rng] by auto
qed

text \<open>One leaf in a tree of depth one.\<close>

definition sample_tree_lib :: tree_lib where
  "sample_tree_lib = \<lparr>poseidon2 = (\<lambda>a b. 2 * a + b + 1), MERKLE_ZERO_VALUE = 5, TREE_DEPTH = 1, TREE_LEAF_COUNT = 2\<rparr>"

definition sample_checkpoint :: stored_commitment_tree_checkpoint where
  "sample_checkpoint = \<lparr>ck_tree_number = 3, ck_leaf_count = 1, ck_last_indexed_block = 9, ck_leaves = [11]\<rparr>"

definition sample_checkpoint_payload :: "u8 list" where
  "sample_checkpoint_payload =
     le_bytes (3 :: u32) @ le_bytes (1 :: u64) @ be_bytes (28 :: bytes32) @ le_bytes (9 :: u64) @ be_bytes (11 :: bytes32)"

definition sample_merkle_lib :: chunk_lib where
  "sample_merkle_lib = sample_chunk_lib (merkle_envelope sample_scope
     \<lparr>range_kind = TreePositionRange, range_start = 6, range_end = 6\<rparr> sample_checkpoint 84
     sample_checkpoint_payload)"

lemma sample_checkpoint_publishes:
  "\<exists>published. publish_merkle_checkpoint_artifact sample_merkle_lib sample_tree_lib
     (sample_client ''a'' (Inr ''Q1'')) sample_scope sample_checkpoint Zstd = Inr published"
proof -
  have e: "encode_merkle_checkpoint sample_checkpoint 28 = Inr sample_checkpoint_payload"
    by (simp add: encode_merkle_checkpoint_def sample_checkpoint_def sample_checkpoint_payload_def
        write_u32_def write_u64_def try_from_len_def)
  have r: "checkpoint_root sample_tree_lib sample_checkpoint = 28"
    by (simp add: checkpoint_root_def sample_tree_lib_def sample_checkpoint_def pad_layer_def)
  have l: "length sample_checkpoint_payload = 84"
    by (simp add: sample_checkpoint_payload_def)
  show ?thesis
    by (simp add: publish_merkle_checkpoint_artifact_def prepare_merkle_checkpoint_artifact_def e r l
        validate_checkpoint_def checkpoint_range_def try_from_len_def try_from_word_def checked_mul_def
        checked_add_def Let_def
        sample_merkle_lib_def sample_chunk_lib_def sample_client_def)
      (simp add: sample_tree_lib_def sample_checkpoint_def)
qed

theorem merkle_checkpoint_published_witness:
  "\<exists>published env. publish_merkle_checkpoint_artifact sample_merkle_lib sample_tree_lib
       (sample_client ''a'' (Inr ''Q1'')) sample_scope sample_checkpoint Zstd = Inr published
     \<and> decode_merkle_checkpoint_artifact sample_merkle_lib (descriptor published) (compressed_bytes published) = Inr env
     \<and> read_section_of env 1 read_checkpoint = Some (3, 1, 28, 9, [11])"
proof -
  obtain published where pub: "publish_merkle_checkpoint_artifact sample_merkle_lib sample_tree_lib
       (sample_client ''a'' (Inr ''Q1'')) sample_scope sample_checkpoint Zstd = Inr published"
    using sample_checkpoint_publishes by blast
  have "decodes_published sample_merkle_lib"
    by (simp add: sample_merkle_lib_def sample_chunk_lib_decodes)
  from merkle_checkpoint_published [OF pub this] pub show ?thesis
    by (auto simp: sample_tree_lib_def sample_checkpoint_def)
qed

end
