(* ===== verification/Commitment_Chunk.thy ===== *)
theory Commitment_Chunk
  imports Chunk_Format
begin

text \<open>
  The commitment dataset (\<open>commitments.rs\<close>): the range of a chunk, the layout of its records, the
  envelope, the plan item and the published chunk with its descriptor.
\<close>

datatype commitment_chunk_error =
    EmptyCommitmentChunk
  | NonIncreasingGlobalPosition u64 u64
  | GlobalPositionOverflow
  | CommitmentChunk chunk_error
  | CommitmentIpfs ipfs_error

definition commitment_range ::
  "stored_commitment_row list \<Rightarrow> commitment_chunk_error + artifact_range" where
  "commitment_range records =
     (case records of
        [] \<Rightarrow> Inl EmptyCommitmentChunk
      | first # rest \<Rightarrow>
          and_then (try_fold (\<lambda>previous record.
              if cr_global_position record \<le> previous
              then Inl (NonIncreasingGlobalPosition previous (cr_global_position record))
              else Inr (cr_global_position record))
            (cr_global_position first) rest) (\<lambda>previous.
          Inr \<lparr>range_kind = TreePositionRange, range_start = cr_global_position first,
               range_end = previous\<rparr>))"

fun commitment_family_id :: "stored_commitment_family \<Rightarrow> u8" where
  "commitment_family_id TransactRow = 0"
| "commitment_family_id ShieldRow = 1"
| "commitment_family_id LegacyEncryptedRow = 2"
| "commitment_family_id LegacyGeneratedRow = 3"

definition write_commitment_record :: "u8 list \<Rightarrow> stored_commitment_row \<Rightarrow> chunk_error + u8 list" where
  "write_commitment_record bytes record =
     (let bytes = write_u64 bytes (cr_global_position record);
          bytes = write_u64 bytes (cr_block_number record);
          bytes = bytes @ [commitment_family_id (cr_family record)];
          bytes = write_u32 bytes (cr_tree_number record);
          bytes = write_u64 bytes (cr_tree_position record)
      in Inr (bytes @ be_bytes (cr_commitment_hash record)))"

definition encode_commitment_records :: "stored_commitment_row list \<Rightarrow> chunk_error + u8 list" where
  "encode_commitment_records records =
     and_then (write_len [] (length records)) (\<lambda>bytes.
     and_then (try_fold write_commitment_record bytes records) (\<lambda>bytes.
     and_then (len_u64 bytes) (\<lambda>_. Inr bytes)))"

definition commitment_envelope ::
  "chain_scope \<Rightarrow> artifact_range \<Rightarrow> u64 \<Rightarrow> u64 \<Rightarrow> u8 list \<Rightarrow> chunk_envelope" where
  "commitment_envelope scope rng row_count payload_len payload =
     \<lparr>env_dataset_kind = Commitments, env_scope = scope, env_range = rng, env_row_count = row_count,
      env_payload_len = payload_len,
      env_sections = [\<lparr>section_id = 1, section_offset = 0, section_byte_length = payload_len\<rparr>],
      env_payload = payload\<rparr>"

definition encode_commitment_envelope ::
  "chunk_lib \<Rightarrow> chain_scope \<Rightarrow> artifact_range \<Rightarrow> u64 \<Rightarrow> u64 \<Rightarrow> u8 list \<Rightarrow> compression_algorithm
     \<Rightarrow> chunk_error + u8 list" where
  "encode_commitment_envelope lib scope rng row_count payload_len payload compression =
     encode_chunk_bytes lib (commitment_envelope scope rng row_count payload_len payload) compression"

definition commitment_chunk_plan_item ::
  "chunk_lib \<Rightarrow> chain_scope \<Rightarrow> stored_commitment_row list \<Rightarrow> compression_algorithm
     \<Rightarrow> commitment_chunk_error + chunk_plan_item" where
  "commitment_chunk_plan_item lib scope records compression =
     and_then (commitment_range records) (\<lambda>rng.
     and_then (map_err CommitmentChunk (encode_commitment_records records)) (\<lambda>payload.
     and_then (map_err CommitmentChunk (len_u64 payload)) (\<lambda>payload_len.
     and_then (map_err CommitmentChunk (len_u64 records)) (\<lambda>row_count.
     and_then (map_err CommitmentChunk
       (encode_commitment_envelope lib scope rng row_count payload_len payload compression)) (\<lambda>compressed.
     and_then (map_err CommitmentChunk (len_u64 compressed)) (\<lambda>byte_size.
     Inr \<lparr>plan_range = rng, plan_row_count = row_count, plan_compressed_byte_size = byte_size\<rparr>))))))"

definition prepare_commitment_chunk ::
  "chunk_lib \<Rightarrow> chain_scope \<Rightarrow> stored_commitment_row list \<Rightarrow> compression_algorithm
     \<Rightarrow> commitment_chunk_error + published_chunk" where
  "prepare_commitment_chunk lib scope records compression =
     and_then (commitment_range records) (\<lambda>rng.
     and_then (map_err CommitmentChunk (encode_commitment_records records)) (\<lambda>payload.
     and_then (map_err CommitmentChunk (len_u64 payload)) (\<lambda>payload_len.
     and_then (map_err CommitmentChunk (len_u64 records)) (\<lambda>row_count.
     and_then (ok_or EmptyCommitmentChunk (iter_min (map cr_block_number records))) (\<lambda>min_block.
     and_then (ok_or EmptyCommitmentChunk (iter_max (map cr_block_number records))) (\<lambda>max_block.
     and_then (map_err CommitmentChunk
       (encode_commitment_envelope lib scope rng row_count payload_len payload compression)) (\<lambda>compressed.
     and_then (map_err CommitmentChunk (len_u64 compressed)) (\<lambda>byte_size.
     if byte_size > MAX_COMPRESSED_CHUNK_BYTES lib
     then Inl (CommitmentChunk (ChunkTooLarge byte_size (MAX_COMPRESSED_CHUNK_BYTES lib)))
     else Inr \<lparr>descriptor =
       \<lparr>d_dataset_kind = Commitments, d_scope = scope, d_range = rng, d_row_count = row_count,
        d_cid = [], d_sha256 = sha256_digest lib compressed, d_byte_size = byte_size,
        d_encoding_version = CHUNK_FORMAT_VERSION lib, d_compression = compression,
        d_metadata = default_metadata
          \<lparr>md_checkpoint_block := Some max_block, md_start_block := Some min_block,
           md_end_block := Some max_block, md_last_indexed_block := Some max_block\<rparr>\<rparr>,
       compressed_bytes = compressed\<rparr>))))))))"

definition publish_commitment_chunk ::
  "chunk_lib \<Rightarrow> ipfs_client \<Rightarrow> chain_scope \<Rightarrow> stored_commitment_row list \<Rightarrow> compression_algorithm
     \<Rightarrow> commitment_chunk_error + published_chunk" where
  "publish_commitment_chunk lib client scope records compression =
     and_then (prepare_commitment_chunk lib scope records compression) (\<lambda>published.
     and_then (map_err CommitmentIpfs (client_pin_bytes client (compressed_bytes published))) (\<lambda>cid.
     Inr (published\<lparr>descriptor := (descriptor published)\<lparr>d_cid := cid\<rparr>\<rparr>)))"

definition decode_commitment_chunk ::
  "chunk_lib \<Rightarrow> artifact_descriptor \<Rightarrow> u8 list \<Rightarrow> chunk_error + chunk_envelope" where
  "decode_commitment_chunk lib d bytes = decode_chunk_bytes lib d bytes"

section \<open>Reading the records\<close>

definition read_family :: "stored_commitment_family reader" where
  "read_family = read_then read_u8 (\<lambda>b.
     if b = 0 then read_return TransactRow else if b = 1 then read_return ShieldRow
     else if b = 2 then read_return LegacyEncryptedRow else if b = 3 then read_return LegacyGeneratedRow
     else (\<lambda>_. None))"

lemma wrote_family: "wrote read_family f buf (buf @ [commitment_family_id f])"
  unfolding read_family_def by (rule wrote_then [OF wrote_push [of "commitment_family_id f"]]) (cases f; simp add: wrote_return)

definition read_commitment :: "stored_commitment_row reader" where
  "read_commitment =
     read_then read_le (\<lambda>global_position.
     read_then read_le (\<lambda>block_number.
     read_then read_family (\<lambda>family.
     read_then read_le (\<lambda>tree_number.
     read_then read_le (\<lambda>tree_position.
     read_then read_be (\<lambda>hash.
     read_return \<lparr>cr_global_position = global_position, cr_block_number = block_number, cr_family = family,
       cr_tree_number = tree_number, cr_tree_position = tree_position, cr_commitment_hash = hash\<rparr>))))))"

interpretation commitment_writer: record_writer write_commitment_record read_commitment id
proof
  fix buf buf' and x :: stored_commitment_row
  assume "write_commitment_record buf x = Inr buf'"
  then have "buf' = write_u64 (write_u32 (write_u64 (write_u64 buf (cr_global_position x)) (cr_block_number x)
      @ [commitment_family_id (cr_family x)]) (cr_tree_number x)) (cr_tree_position x)
      @ be_bytes (cr_commitment_hash x)"
    by (simp add: write_commitment_record_def Let_def)
  then show "wrote read_commitment (id x) buf buf'"
    unfolding read_commitment_def
    by (auto intro!: wrote_then [OF wrote_write_u64] wrote_then [OF wrote_write_u32]
        wrote_then [OF wrote_family] wrote_then [OF wrote_bytes32] wrote_return_eq)
qed

lemma wrote_commitment_records:
  assumes "encode_commitment_records records = Inr payload"
  shows "wrote (read_section read_commitment) records [] payload"
proof -
  from assms obtain n :: u64 where "try_from_len (length records) = Some n"
    and "try_fold write_commitment_record ([] @ le_bytes n) records = Inr payload"
    by (auto simp: encode_commitment_records_def write_len_def write_u64_def result_simps)
  from commitment_writer.wrote_section [OF this] show ?thesis by simp
qed

text \<open>The range exists exactly for a non-empty strictly increasing list, and spans it.\<close>

lemma strictly_increasing_loop:
  "try_fold (\<lambda>previous record.
       if cr_global_position record \<le> previous
       then Inl (NonIncreasingGlobalPosition previous (cr_global_position record))
       else Inr (cr_global_position record)) p records = Inr q
   \<longleftrightarrow> sorted_wrt (<) (p # map cr_global_position records) \<and> q = last (p # map cr_global_position records)"
proof (induction records arbitrary: p)
  case Nil
  then show ?case by auto
next
  case (Cons r records)
  have "sorted_wrt (<) (p # map cr_global_position (r # records)) \<longleftrightarrow>
      p < cr_global_position r \<and> sorted_wrt (<) (cr_global_position r # map cr_global_position records)"
    by (auto intro: less_trans)
  moreover have "cr_global_position r \<le> p \<longleftrightarrow> \<not> p < cr_global_position r" by auto
  ultimately show ?case
    by (cases "p < cr_global_position r") (auto simp: Cons.IH simp del: sorted_wrt.simps)
qed

lemma commitment_range_iff:
  "commitment_range records = Inr rng \<longleftrightarrow> records \<noteq> [] \<and> sorted_wrt (<) (map cr_global_position records)
     \<and> rng = \<lparr>range_kind = TreePositionRange, range_start = cr_global_position (hd records),
              range_end = cr_global_position (last records)\<rparr>"
  by (cases records)
    (auto simp: commitment_range_def and_then_Inr_iff strictly_increasing_loop last_map last_ConsR
      simp del: sorted_wrt.simps split: if_splits)

lemma prepare_commitment_chunk_Inr:
  assumes "prepare_commitment_chunk lib scope records compression = Inr published"
  obtains rng row_count payload_len payload where
    "commitment_range records = Inr rng" and "d_range (descriptor published) = rng"
    and "unat row_count = length records" and "d_row_count (descriptor published) = row_count"
    and "encode_commitment_records records = Inr payload" and "unat payload_len = length payload"
    and "encode_chunk_bytes lib (commitment_envelope scope rng row_count payload_len payload) compression
      = Inr (compressed_bytes published)"
    and "d_compression (descriptor published) = compression"
    and "describes lib (descriptor published) (commitment_envelope scope rng row_count payload_len payload)
      (compressed_bytes published)"
    and "md_start_block (d_metadata (descriptor published)) = Some (Min (set (map cr_block_number records)))"
    and "md_end_block (d_metadata (descriptor published)) = Some (Max (set (map cr_block_number records)))"
  using assms
  by (auto simp: prepare_commitment_chunk_def encode_commitment_envelope_def commitment_envelope_def result_simps
      checked_simps iter_min_Some_iff iter_max_Some_iff not_less describes_def split: if_splits)

section \<open>Properties\<close>

text \<open>C18: A published commitment chunk decodes, under its descriptor, to an envelope whose record
  section reads back exactly the rows it was made of. The rows were not empty and strictly increasing
  in their global position; the descriptor's range is that of the first and last row, its row count
  their number, its block bounds the least and greatest block among them, and its CID the one that
  pinning the bytes returned.\<close>

theorem commitment_chunk_published:
  assumes "publish_commitment_chunk lib client scope records compression = Inr published"
    and "decodes_published lib"
  shows "(\<exists>env. decode_commitment_chunk lib (descriptor published) (compressed_bytes published) = Inr env
        \<and> read_section_of env 1 (read_section read_commitment) = Some records)
      \<and> records \<noteq> [] \<and> sorted_wrt (<) (map cr_global_position records)
      \<and> range_start (d_range (descriptor published)) = cr_global_position (hd records)
      \<and> range_end (d_range (descriptor published)) = cr_global_position (last records)
      \<and> unat (d_row_count (descriptor published)) = length records
      \<and> md_start_block (d_metadata (descriptor published)) = Some (Min (set (map cr_block_number records)))
      \<and> md_end_block (d_metadata (descriptor published)) = Some (Max (set (map cr_block_number records)))
      \<and> client_pin_bytes client (compressed_bytes published) = Inr (d_cid (descriptor published))"
proof -
  from assms(1) obtain prepared cid
    where prep: "prepare_commitment_chunk lib scope records compression = Inr prepared"
      and pin: "client_pin_bytes client (compressed_bytes prepared) = Inr cid"
      and pub: "published = prepared\<lparr>descriptor := (descriptor prepared)\<lparr>d_cid := cid\<rparr>\<rparr>"
    by (auto simp: publish_commitment_chunk_def result_simps)
  from prep show ?thesis
  proof (rule prepare_commitment_chunk_Inr)
    fix rng row_count payload_len payload
    let ?env = "commitment_envelope scope rng row_count payload_len payload"
    assume facts: "commitment_range records = Inr rng" "d_range (descriptor prepared) = rng"
      "unat row_count = length records" "d_row_count (descriptor prepared) = row_count"
      and enc: "encode_commitment_records records = Inr payload" "unat payload_len = length payload"
      and chunk: "encode_chunk_bytes lib ?env compression = Inr (compressed_bytes prepared)"
      and d: "d_compression (descriptor prepared) = compression"
        "describes lib (descriptor prepared) ?env (compressed_bytes prepared)"
      and md: "md_start_block (d_metadata (descriptor prepared)) = Some (Min (set (map cr_block_number records)))"
        "md_end_block (d_metadata (descriptor prepared)) = Some (Max (set (map cr_block_number records)))"
    have "decode_commitment_chunk lib (descriptor published) (compressed_bytes published) = Inr ?env"
      using d pub unfolding decode_commitment_chunk_def
      by (auto intro!: published_decodes [OF assms(2) chunk] simp: describes_def)
    moreover have "read_section_of ?env 1 (read_section read_commitment) = Some records"
      using wrote_commitment_records [OF enc(1)] enc(2)
      by (auto intro: read_single_section simp: commitment_envelope_def)
    ultimately show ?thesis
      using facts md pin pub by (auto simp: commitment_range_iff)
  qed
qed

definition sample_commitment :: stored_commitment_row where
  "sample_commitment = \<lparr>cr_global_position = 5, cr_block_number = 100, cr_family = ShieldRow, cr_tree_number = 0,
     cr_tree_position = 5, cr_commitment_hash = 77\<rparr>"

definition sample_commitment_lib :: chunk_lib where
  "sample_commitment_lib = sample_chunk_lib (commitment_envelope sample_scope
     \<lparr>range_kind = TreePositionRange, range_start = 5, range_end = 5\<rparr> 1 69
     (le_bytes (1 :: u64) @ le_bytes (5 :: u64) @ le_bytes (100 :: u64) @ [1] @ le_bytes (0 :: u32)
        @ le_bytes (5 :: u64) @ be_bytes (77 :: bytes32)))"

theorem commitment_chunk_published_witness:
  "\<exists>published env. publish_commitment_chunk sample_commitment_lib (sample_client ''a'' (Inr ''Q1''))
       sample_scope [sample_commitment] Zstd = Inr published
     \<and> decode_commitment_chunk sample_commitment_lib (descriptor published) (compressed_bytes published) = Inr env
     \<and> read_section_of env 1 (read_section read_commitment) = Some [sample_commitment]"
proof -
  have "\<exists>published. publish_commitment_chunk sample_commitment_lib (sample_client ''a'' (Inr ''Q1''))
       sample_scope [sample_commitment] Zstd = Inr published"
    by (simp add: publish_commitment_chunk_def prepare_commitment_chunk_def commitment_range_def
        encode_commitment_records_def write_len_def write_commitment_record_def write_u64_def write_u32_def
        iter_min_def iter_max_def encode_commitment_envelope_def sample_commitment_lib_def sample_chunk_lib_def
        sample_commitment_def sample_client_def try_from_len_def Let_def)
  then obtain published where pub: "publish_commitment_chunk sample_commitment_lib
      (sample_client ''a'' (Inr ''Q1'')) sample_scope [sample_commitment] Zstd = Inr published" ..
  have "decodes_published sample_commitment_lib"
    by (simp add: sample_commitment_lib_def sample_chunk_lib_decodes)
  from commitment_chunk_published [OF pub this] pub show ?thesis by auto
qed

end
