(* ===== verification/Wallet_Scan_Chunk.thy ===== *)
theory Wallet_Scan_Chunk
  imports Chunk_Format
begin

text \<open>
  The wallet-scan dataset (\<open>wallet_scan.rs\<close>): five sections of records for one range of blocks, with
  the checks that every record lies in the range and carries a block timestamp.

  A record's source keeps its block number, timestamp and transaction hash; the block hash and the log
  index are not part of the format. The views below are what a reader gets back.
\<close>

datatype wallet_scan_chunk_error =
    InvalidBlockRange u64 u64
  | RecordOutOfRange string u64 u64 u64
  | MissingBlockTimestamp string u64
  | WalletScanChunk chunk_error
  | WalletScanIpfs ipfs_error

definition validate_source_in_range ::
  "string \<Rightarrow> stored_log_source_row \<Rightarrow> u64 \<Rightarrow> u64 \<Rightarrow> wallet_scan_chunk_error + unit" where
  "validate_source_in_range sect src start_block end_block =
     (if src_block_number src < start_block \<or> src_block_number src > end_block
      then Inl (RecordOutOfRange sect (src_block_number src) start_block end_block)
      else Inr ())"

definition validate_rows_in_range ::
  "stored_wallet_scan_rows \<Rightarrow> u64 \<Rightarrow> u64 \<Rightarrow> wallet_scan_chunk_error + unit" where
  "validate_rows_in_range rows start_block end_block =
     and_then (try_fold (\<lambda>_ record. validate_source_in_range ''transact'' (wt_source record) start_block end_block)
       () (ws_transact_commitments rows)) (\<lambda>_.
     and_then (try_fold (\<lambda>_ record. validate_source_in_range ''shield'' (wsh_source record) start_block end_block)
       () (ws_shield_commitments rows)) (\<lambda>_.
     and_then (try_fold (\<lambda>_ record. validate_source_in_range ''nullifier'' (wn_source record) start_block end_block)
       () (ws_nullifiers rows)) (\<lambda>_.
     and_then (try_fold (\<lambda>_ record. validate_source_in_range ''legacy_encrypted'' (we_source record)
         start_block end_block) () (ws_legacy_encrypted_commitments rows)) (\<lambda>_.
     and_then (try_fold (\<lambda>_ record. validate_source_in_range ''legacy_generated'' (wg_source record)
         start_block end_block) () (ws_legacy_generated_commitments rows)) (\<lambda>_.
     Inr ())))))"

definition write_source ::
  "u8 list \<Rightarrow> string \<Rightarrow> stored_log_source_row \<Rightarrow> wallet_scan_chunk_error + u8 list" where
  "write_source bytes sect src =
     and_then (ok_or (MissingBlockTimestamp sect (src_block_number src)) (src_block_timestamp src)) (\<lambda>timestamp.
       let bytes = write_u64 bytes (src_block_number src);
           bytes = write_u64 bytes timestamp
       in Inr (bytes @ be_bytes (src_transaction_hash src)))"

definition write_transact_record ::
  "u8 list \<Rightarrow> stored_transact_commitment_row \<Rightarrow> wallet_scan_chunk_error + u8 list" where
  "write_transact_record bytes record =
     and_then (write_source bytes ''transact'' (wt_source record)) (\<lambda>bytes.
       let bytes = write_u32 bytes (wt_tree_number record);
           bytes = write_u64 bytes (wt_tree_position record);
           bytes = bytes @ be_bytes (wt_commitment_hash record)
       in map_err WalletScanChunk (write_bytes bytes (wt_ciphertext record)))"

definition write_shield_record ::
  "u8 list \<Rightarrow> stored_shield_commitment_row \<Rightarrow> wallet_scan_chunk_error + u8 list" where
  "write_shield_record bytes record =
     and_then (write_source bytes ''shield'' (wsh_source record)) (\<lambda>bytes.
       let bytes = write_u32 bytes (wsh_tree_number record);
           bytes = write_u64 bytes (wsh_tree_position record);
           bytes = bytes @ be_bytes (wsh_commitment_hash record)
       in and_then (map_err WalletScanChunk (write_bytes bytes (wsh_preimage record))) (\<lambda>bytes.
            map_err WalletScanChunk (write_bytes bytes (wsh_shield_ciphertext record))))"

definition write_nullifier_record ::
  "u8 list \<Rightarrow> stored_nullifier_row \<Rightarrow> wallet_scan_chunk_error + u8 list" where
  "write_nullifier_record bytes record =
     and_then (write_source bytes ''nullifier'' (wn_source record)) (\<lambda>bytes.
       let bytes = write_u32 bytes (wn_tree_number record)
       in Inr (bytes @ be_bytes (wn_nullifier record)))"

definition write_legacy_encrypted_record ::
  "u8 list \<Rightarrow> stored_legacy_encrypted_commitment_row \<Rightarrow> wallet_scan_chunk_error + u8 list" where
  "write_legacy_encrypted_record bytes record =
     and_then (write_source bytes ''legacy_encrypted'' (we_source record)) (\<lambda>bytes.
       let bytes = write_u32 bytes (we_tree_number record);
           bytes = write_u64 bytes (we_tree_position record);
           bytes = bytes @ be_bytes (we_commitment_hash record)
       in map_err WalletScanChunk (write_bytes bytes (we_ciphertext record)))"

definition write_legacy_generated_record ::
  "u8 list \<Rightarrow> stored_legacy_generated_commitment_row \<Rightarrow> wallet_scan_chunk_error + u8 list" where
  "write_legacy_generated_record bytes record =
     and_then (write_source bytes ''legacy_generated'' (wg_source record)) (\<lambda>bytes.
       let bytes = write_u32 bytes (wg_tree_number record);
           bytes = write_u64 bytes (wg_tree_position record);
           bytes = bytes @ be_bytes (wg_commitment_hash record)
       in and_then (map_err WalletScanChunk (write_bytes bytes (wg_preimage record))) (\<lambda>bytes.
            Inr (bytes @ be_bytes (wg_encrypted_random record))))"

text \<open>The \<open>write_*_records\<close> functions differ only in the record they write.\<close>

definition write_records ::
  "(u8 list \<Rightarrow> 'r \<Rightarrow> wallet_scan_chunk_error + u8 list) \<Rightarrow> 'r list \<Rightarrow> u8 list
     \<Rightarrow> wallet_scan_chunk_error + u8 list" where
  "write_records write_record records bytes =
     and_then (map_err WalletScanChunk (write_len bytes (length records))) (\<lambda>bytes.
       try_fold write_record bytes records)"

definition append_section ::
  "u16 \<Rightarrow> (u8 list \<Rightarrow> wallet_scan_chunk_error + u8 list) \<Rightarrow> u8 list \<times> chunk_section list
     \<Rightarrow> wallet_scan_chunk_error + u8 list \<times> chunk_section list" where
  "append_section sid write_section = (\<lambda>(payload, sections).
     and_then (map_err WalletScanChunk (len_u64 payload)) (\<lambda>offset.
     and_then (write_section payload) (\<lambda>payload.
     and_then (map_err WalletScanChunk (len_u64 payload)) (\<lambda>last.
     and_then (map_err WalletScanChunk (ok_or PayloadTooLarge (checked_sub last offset))) (\<lambda>byte_length.
     Inr (payload,
       sections @ [\<lparr>section_id = sid, section_offset = offset, section_byte_length = byte_length\<rparr>]))))))"

definition encode_wallet_scan_records ::
  "stored_wallet_scan_rows \<Rightarrow> wallet_scan_chunk_error + u8 list \<times> chunk_section list \<times> u64" where
  "encode_wallet_scan_records rows =
     and_then (append_section 1 (write_records write_transact_record (ws_transact_commitments rows)) ([], [])) (\<lambda>acc.
     and_then (append_section 2 (write_records write_shield_record (ws_shield_commitments rows)) acc) (\<lambda>acc.
     and_then (append_section 3 (write_records write_nullifier_record (ws_nullifiers rows)) acc) (\<lambda>acc.
     and_then (append_section 4
       (write_records write_legacy_encrypted_record (ws_legacy_encrypted_commitments rows)) acc) (\<lambda>acc.
     and_then (append_section 5
       (write_records write_legacy_generated_record (ws_legacy_generated_commitments rows)) acc) (\<lambda>(payload, sections).
     and_then (try_fold (\<lambda>total n.
         and_then (map_err WalletScanChunk (ok_or PayloadTooLarge (try_from_len n))) (\<lambda>n.
           map_err WalletScanChunk (ok_or PayloadTooLarge (checked_add total n)))) 0
       [length (ws_transact_commitments rows), length (ws_shield_commitments rows), length (ws_nullifiers rows),
        length (ws_legacy_encrypted_commitments rows), length (ws_legacy_generated_commitments rows)]) (\<lambda>row_count.
     Inr (payload, sections, row_count)))))))"

definition wallet_scan_envelope ::
  "chain_scope \<Rightarrow> artifact_range \<Rightarrow> u64 \<Rightarrow> u64 \<Rightarrow> chunk_section list \<Rightarrow> u8 list \<Rightarrow> chunk_envelope" where
  "wallet_scan_envelope scope rng row_count payload_len sections payload =
     \<lparr>env_dataset_kind = WalletScan, env_scope = scope, env_range = rng, env_row_count = row_count,
      env_payload_len = payload_len, env_sections = sections, env_payload = payload\<rparr>"

definition encode_wallet_scan_envelope ::
  "chunk_lib \<Rightarrow> chain_scope \<Rightarrow> artifact_range \<Rightarrow> u64 \<Rightarrow> u64 \<Rightarrow> chunk_section list \<Rightarrow> u8 list
     \<Rightarrow> compression_algorithm \<Rightarrow> chunk_error + u8 list" where
  "encode_wallet_scan_envelope lib scope rng row_count payload_len sections payload compression =
     encode_chunk_bytes lib (wallet_scan_envelope scope rng row_count payload_len sections payload) compression"

definition wallet_scan_chunk_plan_item ::
  "chunk_lib \<Rightarrow> chain_scope \<Rightarrow> u64 \<Rightarrow> u64 \<Rightarrow> stored_wallet_scan_rows \<Rightarrow> compression_algorithm
     \<Rightarrow> wallet_scan_chunk_error + chunk_plan_item" where
  "wallet_scan_chunk_plan_item lib scope start_block end_block rows compression =
     (if start_block > end_block then Inl (InvalidBlockRange start_block end_block)
      else
     and_then (validate_rows_in_range rows start_block end_block) (\<lambda>_.
     and_then (encode_wallet_scan_records rows) (\<lambda>(payload, sections, row_count).
     and_then (map_err WalletScanChunk (len_u64 payload)) (\<lambda>payload_len.
     let rng = \<lparr>range_kind = BlockRange, range_start = start_block, range_end = end_block\<rparr> in
     and_then (map_err WalletScanChunk (encode_wallet_scan_envelope lib scope rng row_count payload_len
       sections payload compression)) (\<lambda>compressed.
     and_then (map_err WalletScanChunk (len_u64 compressed)) (\<lambda>byte_size.
     Inr \<lparr>plan_range = rng, plan_row_count = row_count, plan_compressed_byte_size = byte_size\<rparr>))))))"

definition prepare_wallet_scan_chunk ::
  "chunk_lib \<Rightarrow> chain_scope \<Rightarrow> u64 \<Rightarrow> u64 \<Rightarrow> stored_wallet_scan_rows \<Rightarrow> compression_algorithm
     \<Rightarrow> wallet_scan_chunk_error + published_chunk" where
  "prepare_wallet_scan_chunk lib scope start_block end_block rows compression =
     (if start_block > end_block then Inl (InvalidBlockRange start_block end_block)
      else
     and_then (validate_rows_in_range rows start_block end_block) (\<lambda>_.
     and_then (encode_wallet_scan_records rows) (\<lambda>(payload, sections, row_count).
     and_then (map_err WalletScanChunk (len_u64 payload)) (\<lambda>payload_len.
     let rng = \<lparr>range_kind = BlockRange, range_start = start_block, range_end = end_block\<rparr>;
         root = sha256_digest lib payload in
     and_then (map_err WalletScanChunk (encode_wallet_scan_envelope lib scope rng row_count payload_len
       sections payload compression)) (\<lambda>compressed.
     and_then (map_err WalletScanChunk (len_u64 compressed)) (\<lambda>byte_size.
     if byte_size > MAX_COMPRESSED_CHUNK_BYTES lib
     then Inl (WalletScanChunk (ChunkTooLarge byte_size (MAX_COMPRESSED_CHUNK_BYTES lib)))
     else Inr \<lparr>descriptor =
       \<lparr>d_dataset_kind = WalletScan, d_scope = scope, d_range = rng, d_row_count = row_count,
        d_cid = [], d_sha256 = sha256_digest lib compressed, d_byte_size = byte_size,
        d_encoding_version = CHUNK_FORMAT_VERSION lib, d_compression = compression,
        d_metadata = default_metadata
          \<lparr>md_root := Some root, md_checkpoint_block := Some end_block,
           md_last_indexed_block := Some end_block\<rparr>\<rparr>,
       compressed_bytes = compressed\<rparr>))))))"

definition publish_wallet_scan_chunk ::
  "chunk_lib \<Rightarrow> ipfs_client \<Rightarrow> chain_scope \<Rightarrow> u64 \<Rightarrow> u64 \<Rightarrow> stored_wallet_scan_rows \<Rightarrow> compression_algorithm
     \<Rightarrow> wallet_scan_chunk_error + published_chunk" where
  "publish_wallet_scan_chunk lib client scope start_block end_block rows compression =
     and_then (prepare_wallet_scan_chunk lib scope start_block end_block rows compression) (\<lambda>published.
     and_then (map_err WalletScanIpfs (client_pin_bytes client (compressed_bytes published))) (\<lambda>cid.
     Inr (published\<lparr>descriptor := (descriptor published)\<lparr>d_cid := cid\<rparr>\<rparr>)))"

definition decode_wallet_scan_chunk ::
  "chunk_lib \<Rightarrow> artifact_descriptor \<Rightarrow> u8 list \<Rightarrow> chunk_error + chunk_envelope" where
  "decode_wallet_scan_chunk lib d bytes = decode_chunk_bytes lib d bytes"

section \<open>Reading the sections\<close>

type_synonym source_view = "u64 \<times> u64 option \<times> bytes32"

definition view_source :: "stored_log_source_row \<Rightarrow> source_view" where
  "view_source src = (src_block_number src, src_block_timestamp src, src_transaction_hash src)"

definition view_transact where
  "view_transact r = (view_source (wt_source r), wt_tree_number r, wt_tree_position r, wt_commitment_hash r,
     wt_ciphertext r)"

definition view_shield where
  "view_shield r = (view_source (wsh_source r), wsh_tree_number r, wsh_tree_position r, wsh_commitment_hash r,
     wsh_preimage r, wsh_shield_ciphertext r)"

definition view_nullifier where
  "view_nullifier r = (view_source (wn_source r), wn_tree_number r, wn_nullifier r)"

definition view_legacy_encrypted where
  "view_legacy_encrypted r = (view_source (we_source r), we_tree_number r, we_tree_position r,
     we_commitment_hash r, we_ciphertext r)"

definition view_legacy_generated where
  "view_legacy_generated r = (view_source (wg_source r), wg_tree_number r, wg_tree_position r,
     wg_commitment_hash r, wg_preimage r, wg_encrypted_random r)"

definition read_source :: "source_view reader" where
  "read_source =
     read_then read_le (\<lambda>block. read_then read_le (\<lambda>timestamp. read_then read_be (\<lambda>tx.
       read_return (block, Some timestamp, tx))))"

definition read_transact :: "(source_view \<times> u32 \<times> u64 \<times> bytes32 \<times> u8 list) reader" where
  "read_transact =
     read_then read_source (\<lambda>src. read_then read_le (\<lambda>tree. read_then read_le (\<lambda>position.
     read_then read_be (\<lambda>hash. read_then read_length_prefixed (\<lambda>ciphertext.
       read_return (src, tree, position, hash, ciphertext))))))"

definition read_shield :: "(source_view \<times> u32 \<times> u64 \<times> bytes32 \<times> u8 list \<times> u8 list) reader" where
  "read_shield =
     read_then read_source (\<lambda>src. read_then read_le (\<lambda>tree. read_then read_le (\<lambda>position.
     read_then read_be (\<lambda>hash. read_then read_length_prefixed (\<lambda>preimage.
     read_then read_length_prefixed (\<lambda>ciphertext.
       read_return (src, tree, position, hash, preimage, ciphertext)))))))"

definition read_nullifier :: "(source_view \<times> u32 \<times> bytes32) reader" where
  "read_nullifier =
     read_then read_source (\<lambda>src. read_then read_le (\<lambda>tree. read_then read_be (\<lambda>nullifier.
       read_return (src, tree, nullifier))))"

definition read_legacy_generated ::
  "(source_view \<times> u32 \<times> u64 \<times> bytes32 \<times> u8 list \<times> bytes64) reader" where
  "read_legacy_generated =
     read_then read_source (\<lambda>src. read_then read_le (\<lambda>tree. read_then read_le (\<lambda>position.
     read_then read_be (\<lambda>hash. read_then read_length_prefixed (\<lambda>preimage.
     read_then read_be (\<lambda>random.
       read_return (src, tree, position, hash, preimage, random)))))))"

lemma wrote_source:
  assumes "write_source buf sect src = Inr buf'"
  shows "wrote read_source (view_source src) buf buf'"
proof -
  from assms obtain t where "src_block_timestamp src = Some t"
    and "buf' = write_u64 (write_u64 buf (src_block_number src)) t @ be_bytes (src_transaction_hash src)"
    by (auto simp: write_source_def result_simps Let_def)
  then show ?thesis
    unfolding read_source_def view_source_def
    by (auto intro!: wrote_then [OF wrote_write_u64] wrote_then [OF wrote_bytes32] wrote_return_eq)
qed

lemmas wrote_steps = wrote_then [OF wrote_source] wrote_then [OF wrote_write_u64]
  wrote_then [OF wrote_write_u32] wrote_then [OF wrote_bytes32] wrote_then [OF wrote_bytes64]
  wrote_then [OF wrote_write_bytes]

interpretation transact_writer: record_writer write_transact_record read_transact view_transact
  by unfold_locales
    (auto simp: write_transact_record_def view_transact_def read_transact_def result_simps Let_def
      intro!: wrote_steps wrote_return_eq)

interpretation shield_writer: record_writer write_shield_record read_shield view_shield
  by unfold_locales
    (auto simp: write_shield_record_def view_shield_def read_shield_def result_simps Let_def
      intro!: wrote_steps wrote_return_eq)

interpretation nullifier_writer: record_writer write_nullifier_record read_nullifier view_nullifier
  by unfold_locales
    (auto simp: write_nullifier_record_def view_nullifier_def read_nullifier_def result_simps Let_def
      intro!: wrote_steps wrote_return_eq)

interpretation legacy_encrypted_writer:
  record_writer write_legacy_encrypted_record read_transact view_legacy_encrypted
  by unfold_locales
    (auto simp: write_legacy_encrypted_record_def view_legacy_encrypted_def read_transact_def result_simps Let_def
      intro!: wrote_steps wrote_return_eq)

interpretation legacy_generated_writer:
  record_writer write_legacy_generated_record read_legacy_generated view_legacy_generated
  by unfold_locales
    (auto simp: write_legacy_generated_record_def view_legacy_generated_def read_legacy_generated_def
      result_simps Let_def intro!: wrote_steps wrote_return_eq)

text \<open>A section of a payload that reads back as given, also when the payload grows.\<close>

definition holds_section :: "u8 list \<Rightarrow> chunk_section \<Rightarrow> u16 \<Rightarrow> 'v reader \<Rightarrow> 'v \<Rightarrow> bool" where
  "holds_section payload sec sid r v \<longleftrightarrow>
     section_id sec = sid \<and> (\<forall>later. r (section_bytes sec (payload @ later)) = Some (v, []))"

lemma append_section_Inr:
  assumes "append_section sid w (payload, sections) = Inr acc"
    and "\<And>payload'. w payload = Inr payload' \<Longrightarrow> wrote r v payload payload'"
  obtains bs sec where "acc = (payload @ bs, sections @ [sec])" and "holds_section (payload @ bs) sec sid r v"
proof -
  from assms(1) obtain offset payload' upto len
    where offset: "try_from_len (length payload) = Some (offset :: u64)" and w: "w payload = Inr payload'"
      and upto: "try_from_len (length payload') = Some (upto :: u64)" "checked_sub upto offset = Some len"
      and acc: "acc = (payload', sections @ [\<lparr>section_id = sid, section_offset = offset, section_byte_length = len\<rparr>])"
    by (auto simp: append_section_def result_simps)
  from wrote_prefix [OF assms(2) [OF w]] obtain bs where bs: "payload' = payload @ bs" ..
  have "holds_section payload' \<lparr>section_id = sid, section_offset = offset, section_byte_length = len\<rparr> sid r v"
    using wrote_section_bytes [OF assms(2) [OF w], of offset len sid] offset upto
    by (simp add: holds_section_def checked_simps)
  with acc bs show thesis by (intro that [of bs]) simp_all
qed

lemma append_records:
  assumes "record_writer put read view"
    and "append_section sid (write_records put xs) (payload, sections) = Inr acc"
  shows "\<exists>bs sec. acc = (payload @ bs, sections @ [sec])
    \<and> holds_section (payload @ bs) sec sid (read_section read) (map view xs)"
proof -
  have wrote: "wrote (read_section read) (map view xs) payload payload'"
    if "write_records put xs payload = Inr payload'" for payload'
  proof -
    from that obtain n :: u64 where "try_from_len (length xs) = Some n"
      and "try_fold put (payload @ le_bytes n) xs = Inr payload'"
      by (auto simp: write_records_def write_len_def write_u64_def result_simps)
    then show ?thesis by (rule record_writer.wrote_section [OF assms(1)])
  qed
  show ?thesis
    by (rule append_section_Inr [OF assms(2) wrote]) blast+
qed

lemma holds_section_later: "holds_section payload sec sid r v \<Longrightarrow> holds_section (payload @ later) sec sid r v"
  by (simp add: holds_section_def)

lemma row_count_sum:
  assumes "try_fold (\<lambda>total n.
      and_then (map_err WalletScanChunk (ok_or PayloadTooLarge (try_from_len n))) (\<lambda>n.
        map_err WalletScanChunk (ok_or PayloadTooLarge (checked_add total n)))) (acc :: u64) ns = Inr row_count"
  shows "unat row_count = unat acc + sum_list ns"
  using assms
  by (induction ns arbitrary: acc) (auto simp: result_simps checked_simps)

lemma encode_wallet_scan_records_Inr:
  assumes "encode_wallet_scan_records rows = Inr (payload, sections, row_count)"
  obtains s1 s2 s3 s4 s5 where "sections = [s1, s2, s3, s4, s5]"
    and "holds_section payload s1 1 (read_section read_transact) (map view_transact (ws_transact_commitments rows))"
    and "holds_section payload s2 2 (read_section read_shield) (map view_shield (ws_shield_commitments rows))"
    and "holds_section payload s3 3 (read_section read_nullifier) (map view_nullifier (ws_nullifiers rows))"
    and "holds_section payload s4 4 (read_section read_transact)
      (map view_legacy_encrypted (ws_legacy_encrypted_commitments rows))"
    and "holds_section payload s5 5 (read_section read_legacy_generated)
      (map view_legacy_generated (ws_legacy_generated_commitments rows))"
    and "unat row_count = length (ws_transact_commitments rows) + length (ws_shield_commitments rows)
      + length (ws_nullifiers rows) + length (ws_legacy_encrypted_commitments rows)
      + length (ws_legacy_generated_commitments rows)"
proof -
  from assms obtain acc1 acc2 acc3 acc4
    where a1: "append_section 1 (write_records write_transact_record (ws_transact_commitments rows)) ([], []) = Inr acc1"
      and a2: "append_section 2 (write_records write_shield_record (ws_shield_commitments rows)) acc1 = Inr acc2"
      and a3: "append_section 3 (write_records write_nullifier_record (ws_nullifiers rows)) acc2 = Inr acc3"
      and a4: "append_section 4 (write_records write_legacy_encrypted_record
        (ws_legacy_encrypted_commitments rows)) acc3 = Inr acc4"
      and a5: "append_section 5 (write_records write_legacy_generated_record
        (ws_legacy_generated_commitments rows)) acc4 = Inr (payload, sections)"
      and fold: "try_fold (\<lambda>total n.
         and_then (map_err WalletScanChunk (ok_or PayloadTooLarge (try_from_len n))) (\<lambda>n.
           map_err WalletScanChunk (ok_or PayloadTooLarge (checked_add total n)))) 0
       [length (ws_transact_commitments rows), length (ws_shield_commitments rows), length (ws_nullifiers rows),
        length (ws_legacy_encrypted_commitments rows), length (ws_legacy_generated_commitments rows)] = Inr row_count"
    by (auto simp: encode_wallet_scan_records_def and_then_Inr_iff simp del: try_fold.simps)
  note n = row_count_sum [OF fold]
  from append_records [OF transact_writer.record_writer_axioms a1] obtain b1 s1
    where 1: "acc1 = (b1, [s1])"
      "holds_section b1 s1 1 (read_section read_transact) (map view_transact (ws_transact_commitments rows))"
    by auto
  from append_records [OF shield_writer.record_writer_axioms a2 [unfolded 1(1)]] obtain b2 s2
    where 2: "acc2 = (b1 @ b2, [s1, s2])"
      "holds_section (b1 @ b2) s2 2 (read_section read_shield) (map view_shield (ws_shield_commitments rows))"
    by auto
  from append_records [OF nullifier_writer.record_writer_axioms a3 [unfolded 2(1)]] obtain b3 s3
    where 3: "acc3 = (b1 @ b2 @ b3, [s1, s2, s3])"
      "holds_section (b1 @ b2 @ b3) s3 3 (read_section read_nullifier) (map view_nullifier (ws_nullifiers rows))"
    by auto
  from append_records [OF legacy_encrypted_writer.record_writer_axioms a4 [unfolded 3(1)]] obtain b4 s4
    where 4: "acc4 = (b1 @ b2 @ b3 @ b4, [s1, s2, s3, s4])"
      "holds_section (b1 @ b2 @ b3 @ b4) s4 4 (read_section read_transact)
         (map view_legacy_encrypted (ws_legacy_encrypted_commitments rows))"
    by auto
  from append_records [OF legacy_generated_writer.record_writer_axioms a5 [unfolded 4(1)]] obtain b5 s5
    where 5: "payload = b1 @ b2 @ b3 @ b4 @ b5" "sections = [s1, s2, s3, s4, s5]"
      "holds_section payload s5 5 (read_section read_legacy_generated)
         (map view_legacy_generated (ws_legacy_generated_commitments rows))"
    by auto
  show thesis
    using holds_section_later [OF 1(2), of "b2 @ b3 @ b4 @ b5"] holds_section_later [OF 2(2), of "b3 @ b4 @ b5"]
      holds_section_later [OF 3(2), of "b4 @ b5"] holds_section_later [OF 4(2), of b5] 5(1,3) n
    by (intro that [OF 5(2)]) simp_all
qed

section \<open>What the checks guarantee\<close>

lemma list_all_conj: "list_all (\<lambda>x. P x \<and> Q x) xs \<longleftrightarrow> list_all P xs \<and> list_all Q xs"
  by (auto simp: list_all_iff)

lemma try_fold_each: "try_fold f s xs = Inr t \<Longrightarrow> x \<in> set xs \<Longrightarrow> \<exists>a b. f a x = Inr b"
  by (induction xs arbitrary: s) (auto simp: and_then_Inr_iff)

definition row_sources :: "stored_wallet_scan_rows \<Rightarrow> stored_log_source_row list" where
  "row_sources rows = map wt_source (ws_transact_commitments rows) @ map wsh_source (ws_shield_commitments rows)
     @ map wn_source (ws_nullifiers rows) @ map we_source (ws_legacy_encrypted_commitments rows)
     @ map wg_source (ws_legacy_generated_commitments rows)"

definition in_blocks :: "u64 \<Rightarrow> u64 \<Rightarrow> stored_log_source_row \<Rightarrow> bool" where
  "in_blocks first_block last_block src \<longleftrightarrow> first_block \<le> src_block_number src \<and> src_block_number src \<le> last_block"

lemma validate_in_blocks:
  "validate_source_in_range sect src a b =
     (if in_blocks a b src then Inr () else Inl (RecordOutOfRange sect (src_block_number src) a b))"
  by (auto simp: validate_source_in_range_def in_blocks_def not_less)

text \<open>A check that accepts exactly sources in range, and names an offending one otherwise.\<close>

definition checks ::
  "u64 \<Rightarrow> u64 \<Rightarrow> stored_log_source_row list \<Rightarrow> wallet_scan_chunk_error + unit \<Rightarrow> bool" where
  "checks a b srcs r \<longleftrightarrow>
     (case r of
        Inr _ \<Rightarrow> list_all (in_blocks a b) srcs
      | Inl e \<Rightarrow> \<exists>sect. \<exists>src \<in> set srcs. \<not> in_blocks a b src
          \<and> e = RecordOutOfRange sect (src_block_number src) a b)"

lemma checks_return: "checks a b [] (Inr ())"
  by (simp add: checks_def)

lemma checks_then: "checks a b xs r \<Longrightarrow> checks a b ys r' \<Longrightarrow> checks a b (xs @ ys) (and_then r (\<lambda>_. r'))"
  by (cases r; cases r') (auto simp: checks_def)

lemma checks_each:
  "checks a b (map source_of records)
     (try_fold (\<lambda>_ record. validate_source_in_range sect (source_of record) a b) () records)"
proof (induction records)
  case Nil
  show ?case by (simp add: checks_return)
next
  case (Cons r records)
  have "checks a b [source_of r] (validate_source_in_range sect (source_of r) a b)"
    by (auto simp: checks_def validate_in_blocks)
  from checks_then [OF this Cons.IH] show ?case by simp
qed

lemma checks_rows: "checks a b (row_sources rows) (validate_rows_in_range rows a b)"
  unfolding validate_rows_in_range_def row_sources_def
  using checks_then [OF checks_each checks_return]
  by (intro checks_then checks_each) simp

lemma write_source_timestamp: "write_source buf sect src = Inr buf' \<Longrightarrow> src_block_timestamp src \<noteq> None"
  by (auto simp: write_source_def result_simps)

lemma records_timestamped:
  assumes "append_section sid (write_records put records) acc = Inr acc'"
    and "\<And>buf r buf'. put buf r = Inr buf' \<Longrightarrow> src_block_timestamp (source_of r) \<noteq> None"
  shows "list_all (\<lambda>src. src_block_timestamp src \<noteq> None) (map source_of records)"
proof -
  from assms(1) obtain buf buf' where loop: "try_fold put buf records = Inr buf'"
    by (cases acc) (auto simp: append_section_def write_records_def result_simps)
  have "src_block_timestamp (source_of r) \<noteq> None" if "r \<in> set records" for r
    using try_fold_each [OF loop that] assms(2) by blast
  then show ?thesis by (simp add: list_all_iff)
qed

lemma encode_wallet_scan_records_timestamped:
  assumes "encode_wallet_scan_records rows = Inr res"
  shows "list_all (\<lambda>src. src_block_timestamp src \<noteq> None) (row_sources rows)"
proof -
  from assms obtain acc1 acc2 acc3 acc4 acc5
    where "append_section 1 (write_records write_transact_record (ws_transact_commitments rows)) ([], []) = Inr acc1"
      and "append_section 2 (write_records write_shield_record (ws_shield_commitments rows)) acc1 = Inr acc2"
      and "append_section 3 (write_records write_nullifier_record (ws_nullifiers rows)) acc2 = Inr acc3"
      and "append_section 4 (write_records write_legacy_encrypted_record
        (ws_legacy_encrypted_commitments rows)) acc3 = Inr acc4"
      and "append_section 5 (write_records write_legacy_generated_record
        (ws_legacy_generated_commitments rows)) acc4 = Inr acc5"
    by (auto simp: encode_wallet_scan_records_def and_then_Inr_iff simp del: try_fold.simps)
  note timestamped = this [THEN records_timestamped]
  show ?thesis
    unfolding row_sources_def list_all_append
    by (intro conjI timestamped)
      (auto simp: write_transact_record_def write_shield_record_def write_nullifier_record_def
        write_legacy_encrypted_record_def write_legacy_generated_record_def and_then_Inr_iff
        dest: write_source_timestamp)
qed

lemma prepare_wallet_scan_chunk_Inr:
  assumes "prepare_wallet_scan_chunk lib scope a b rows compression = Inr published"
  obtains payload sections row_count payload_len where
    "a \<le> b" and "validate_rows_in_range rows a b = Inr ()"
    and "encode_wallet_scan_records rows = Inr (payload, sections, row_count)"
    and "encode_chunk_bytes lib (wallet_scan_envelope scope
      \<lparr>range_kind = BlockRange, range_start = a, range_end = b\<rparr> row_count payload_len sections payload) compression
      = Inr (compressed_bytes published)"
    and "d_compression (descriptor published) = compression"
    and "describes lib (descriptor published) (wallet_scan_envelope scope
      \<lparr>range_kind = BlockRange, range_start = a, range_end = b\<rparr> row_count payload_len sections payload)
      (compressed_bytes published)"
    and "md_root (d_metadata (descriptor published)) = Some (sha256_digest lib payload)"
  using assms
  by (auto simp: prepare_wallet_scan_chunk_def encode_wallet_scan_envelope_def wallet_scan_envelope_def
      result_simps checked_simps not_less describes_def Let_def split: if_splits prod.splits)

lemma read_held_section:
  assumes "holds_section (env_payload env) sec sid r v"
    and "find (\<lambda>s. section_id s = sid) (env_sections env) = Some sec"
  shows "read_section_of env sid r = Some v"
proof -
  from assms(1) have "r (section_bytes sec (env_payload env @ [])) = Some (v, [])"
    unfolding holds_section_def by blast
  with assms(2) show ?thesis by (simp add: read_section_of_def)
qed

lemma wallet_scan_sections:
  assumes "encode_wallet_scan_records rows = Inr (payload, sections, row_count)"
    and "env_payload env = payload" and "env_sections env = sections"
  shows "read_section_of env 1 (read_section read_transact) = Some (map view_transact (ws_transact_commitments rows))"
    and "read_section_of env 2 (read_section read_shield) = Some (map view_shield (ws_shield_commitments rows))"
    and "read_section_of env 3 (read_section read_nullifier) = Some (map view_nullifier (ws_nullifiers rows))"
    and "read_section_of env 4 (read_section read_transact)
      = Some (map view_legacy_encrypted (ws_legacy_encrypted_commitments rows))"
    and "read_section_of env 5 (read_section read_legacy_generated)
      = Some (map view_legacy_generated (ws_legacy_generated_commitments rows))"
    and "unat row_count = length (row_sources rows)"
proof -
  from assms(1) obtain s1 s2 s3 s4 s5 where secs: "sections = [s1, s2, s3, s4, s5]"
    and h: "holds_section payload s1 1 (read_section read_transact) (map view_transact (ws_transact_commitments rows))"
      "holds_section payload s2 2 (read_section read_shield) (map view_shield (ws_shield_commitments rows))"
      "holds_section payload s3 3 (read_section read_nullifier) (map view_nullifier (ws_nullifiers rows))"
      "holds_section payload s4 4 (read_section read_transact)
        (map view_legacy_encrypted (ws_legacy_encrypted_commitments rows))"
      "holds_section payload s5 5 (read_section read_legacy_generated)
        (map view_legacy_generated (ws_legacy_generated_commitments rows))"
    and n: "unat row_count = length (ws_transact_commitments rows) + length (ws_shield_commitments rows)
      + length (ws_nullifiers rows) + length (ws_legacy_encrypted_commitments rows)
      + length (ws_legacy_generated_commitments rows)"
    by (rule encode_wallet_scan_records_Inr)
  have ids: "section_id s1 = 1" "section_id s2 = 2" "section_id s3 = 3" "section_id s4 = 4" "section_id s5 = 5"
    using h by (simp_all add: holds_section_def)
  note held = h [folded assms(2), THEN read_held_section]
  show "read_section_of env 1 (read_section read_transact) = Some (map view_transact (ws_transact_commitments rows))"
    by (rule held(1)) (simp add: assms(3) secs ids)
  show "read_section_of env 2 (read_section read_shield) = Some (map view_shield (ws_shield_commitments rows))"
    by (rule held(2)) (simp add: assms(3) secs ids)
  show "read_section_of env 3 (read_section read_nullifier) = Some (map view_nullifier (ws_nullifiers rows))"
    by (rule held(3)) (simp add: assms(3) secs ids)
  show "read_section_of env 4 (read_section read_transact)
      = Some (map view_legacy_encrypted (ws_legacy_encrypted_commitments rows))"
    by (rule held(4)) (simp add: assms(3) secs ids)
  show "read_section_of env 5 (read_section read_legacy_generated)
      = Some (map view_legacy_generated (ws_legacy_generated_commitments rows))"
    by (rule held(5)) (simp add: assms(3) secs ids)
  show "unat row_count = length (row_sources rows)"
    using n by (simp add: row_sources_def)
qed

section \<open>Properties\<close>

text \<open>C16: A published wallet-scan chunk decodes, under its descriptor, to an envelope from whose five
  sections a reader gets back every record: of each source the block number, the timestamp and the
  transaction hash, and all other fields. Every record lies in the chunk's block range and carries a
  timestamp; the row count is the number of all records, and the root in the metadata is the SHA-256
  of the payload.\<close>

theorem wallet_scan_chunk_published:
  assumes "publish_wallet_scan_chunk lib client scope start_block end_block rows compression = Inr published"
    and "decodes_published lib"
  shows "(\<exists>env. decode_wallet_scan_chunk lib (descriptor published) (compressed_bytes published) = Inr env
        \<and> read_section_of env 1 (read_section read_transact) = Some (map view_transact (ws_transact_commitments rows))
        \<and> read_section_of env 2 (read_section read_shield) = Some (map view_shield (ws_shield_commitments rows))
        \<and> read_section_of env 3 (read_section read_nullifier) = Some (map view_nullifier (ws_nullifiers rows))
        \<and> read_section_of env 4 (read_section read_transact)
            = Some (map view_legacy_encrypted (ws_legacy_encrypted_commitments rows))
        \<and> read_section_of env 5 (read_section read_legacy_generated)
            = Some (map view_legacy_generated (ws_legacy_generated_commitments rows))
        \<and> md_root (d_metadata (descriptor published)) = Some (sha256_digest lib (env_payload env)))
      \<and> list_all (\<lambda>src. in_blocks start_block end_block src \<and> src_block_timestamp src \<noteq> None) (row_sources rows)
      \<and> unat (d_row_count (descriptor published)) = length (row_sources rows)
      \<and> client_pin_bytes client (compressed_bytes published) = Inr (d_cid (descriptor published))"
proof -
  from assms(1) obtain prepared cid
    where prep: "prepare_wallet_scan_chunk lib scope start_block end_block rows compression = Inr prepared"
      and pin: "client_pin_bytes client (compressed_bytes prepared) = Inr cid"
      and pub: "published = prepared\<lparr>descriptor := (descriptor prepared)\<lparr>d_cid := cid\<rparr>\<rparr>"
    by (auto simp: publish_wallet_scan_chunk_def result_simps)
  from prep show ?thesis
  proof (rule prepare_wallet_scan_chunk_Inr)
    fix payload sections row_count payload_len
    let ?env = "wallet_scan_envelope scope \<lparr>range_kind = BlockRange, range_start = start_block, range_end = end_block\<rparr>
      row_count payload_len sections payload"
    assume val: "validate_rows_in_range rows start_block end_block = Inr ()"
      and enc: "encode_wallet_scan_records rows = Inr (payload, sections, row_count)"
      and chunk: "encode_chunk_bytes lib ?env compression = Inr (compressed_bytes prepared)"
      and d: "d_compression (descriptor prepared) = compression"
        "describes lib (descriptor prepared) ?env (compressed_bytes prepared)"
      and md: "md_root (d_metadata (descriptor prepared)) = Some (sha256_digest lib payload)"
    have dec: "decode_wallet_scan_chunk lib (descriptor published) (compressed_bytes published) = Inr ?env"
      using d pub unfolding decode_wallet_scan_chunk_def
      by (auto intro!: published_decodes [OF assms(2) chunk] simp: describes_def)
    have ok: "list_all (in_blocks start_block end_block) (row_sources rows)"
      using checks_rows [of start_block end_block rows] val by (simp add: checks_def)
    have stamped: "list_all (\<lambda>src. src_block_timestamp src \<noteq> None) (row_sources rows)"
      by (rule encode_wallet_scan_records_timestamped [OF enc])
    have count: "d_row_count (descriptor prepared) = row_count"
      using d(2) by (simp add: describes_def wallet_scan_envelope_def)
    have env: "env_payload ?env = payload" "env_sections ?env = sections"
      by (simp_all add: wallet_scan_envelope_def)
    from wallet_scan_sections [OF enc env] dec md env(1) pub
    have "\<exists>env. decode_wallet_scan_chunk lib (descriptor published) (compressed_bytes published) = Inr env
        \<and> read_section_of env 1 (read_section read_transact) = Some (map view_transact (ws_transact_commitments rows))
        \<and> read_section_of env 2 (read_section read_shield) = Some (map view_shield (ws_shield_commitments rows))
        \<and> read_section_of env 3 (read_section read_nullifier) = Some (map view_nullifier (ws_nullifiers rows))
        \<and> read_section_of env 4 (read_section read_transact)
            = Some (map view_legacy_encrypted (ws_legacy_encrypted_commitments rows))
        \<and> read_section_of env 5 (read_section read_legacy_generated)
            = Some (map view_legacy_generated (ws_legacy_generated_commitments rows))
        \<and> md_root (d_metadata (descriptor published)) = Some (sha256_digest lib (env_payload env))"
      by (intro exI [of _ ?env]) simp
    with wallet_scan_sections(6) [OF enc env] ok stamped pin pub count show ?thesis
      by (simp add: list_all_conj)
  qed
qed

definition sample_source_row :: stored_log_source_row where
  "sample_source_row = \<lparr>src_block_number = 100, src_block_timestamp = Some 9, src_block_hash = 1,
     src_transaction_hash = 2, src_log_index = 3\<rparr>"

definition sample_rows :: stored_wallet_scan_rows where
  "sample_rows = \<lparr>ws_transact_commitments = [], ws_shield_commitments = [],
     ws_nullifiers = [\<lparr>wn_source = sample_source_row, wn_tree_number = 4, wn_nullifier = 5\<rparr>],
     ws_legacy_encrypted_commitments = [], ws_legacy_generated_commitments = []\<rparr>"

definition sample_rows_payload :: "u8 list" where
  "sample_rows_payload = le_bytes (0 :: u64) @ le_bytes (0 :: u64)
     @ le_bytes (1 :: u64) @ le_bytes (100 :: u64) @ le_bytes (9 :: u64) @ be_bytes (2 :: bytes32)
     @ le_bytes (4 :: u32) @ be_bytes (5 :: bytes32) @ le_bytes (0 :: u64) @ le_bytes (0 :: u64)"

definition sample_sections :: "chunk_section list" where
  "sample_sections =
     [\<lparr>section_id = 1, section_offset = 0, section_byte_length = 8\<rparr>,
      \<lparr>section_id = 2, section_offset = 8, section_byte_length = 8\<rparr>,
      \<lparr>section_id = 3, section_offset = 16, section_byte_length = 92\<rparr>,
      \<lparr>section_id = 4, section_offset = 108, section_byte_length = 8\<rparr>,
      \<lparr>section_id = 5, section_offset = 116, section_byte_length = 8\<rparr>]"

definition sample_rows_lib :: chunk_lib where
  "sample_rows_lib = sample_chunk_lib (wallet_scan_envelope sample_scope
     \<lparr>range_kind = BlockRange, range_start = 90, range_end = 110\<rparr> 1 124 sample_sections sample_rows_payload)"

lemma sample_rows_encode: "encode_wallet_scan_records sample_rows = Inr (sample_rows_payload, sample_sections, 1)"
  by (simp add: encode_wallet_scan_records_def append_section_def write_records_def write_len_def
      write_nullifier_record_def write_source_def sample_rows_def sample_source_row_def write_u64_def
      write_u32_def try_from_len_def checked_sub_def checked_add_def Let_def sample_rows_payload_def
      sample_sections_def)

lemma sample_rows_publish:
  "\<exists>published. publish_wallet_scan_chunk sample_rows_lib (sample_client ''a'' (Inr ''Q1''))
     sample_scope 90 110 sample_rows Zstd = Inr published"
proof -
  have "length sample_rows_payload = 124" by (simp add: sample_rows_payload_def)
  moreover have "validate_rows_in_range sample_rows 90 110 = Inr ()"
    by (simp add: validate_rows_in_range_def validate_source_in_range_def sample_rows_def sample_source_row_def)
  ultimately show ?thesis
    by (simp add: publish_wallet_scan_chunk_def prepare_wallet_scan_chunk_def sample_rows_encode
        encode_wallet_scan_envelope_def sample_rows_lib_def sample_chunk_lib_def sample_client_def
        try_from_len_def Let_def)
qed

theorem wallet_scan_chunk_published_witness:
  "\<exists>published env. publish_wallet_scan_chunk sample_rows_lib (sample_client ''a'' (Inr ''Q1''))
       sample_scope 90 110 sample_rows Zstd = Inr published
     \<and> decode_wallet_scan_chunk sample_rows_lib (descriptor published) (compressed_bytes published) = Inr env
     \<and> read_section_of env 3 (read_section read_nullifier) = Some [((100, Some 9, 2), 4, 5)]"
proof -
  obtain published where pub: "publish_wallet_scan_chunk sample_rows_lib (sample_client ''a'' (Inr ''Q1''))
       sample_scope 90 110 sample_rows Zstd = Inr published"
    using sample_rows_publish by blast
  have "decodes_published sample_rows_lib"
    by (simp add: sample_rows_lib_def sample_chunk_lib_decodes)
  from wallet_scan_chunk_published [OF pub this] pub show ?thesis
    by (auto simp: sample_rows_def view_nullifier_def view_source_def sample_source_row_def)
qed

text \<open>C20: A record outside the block range is never published: preparing the chunk fails, whatever the
  encoder would do, with \<open>RecordOutOfRange\<close> naming the block of a record that is indeed outside the
  range and the range itself; the same holds for planning the chunk.\<close>

theorem wallet_scan_rejects_out_of_range:
  assumes "start_block \<le> end_block"
    and "src \<in> set (row_sources rows)" and "\<not> in_blocks start_block end_block src"
  shows "\<exists>sect src'. src' \<in> set (row_sources rows) \<and> \<not> in_blocks start_block end_block src'
    \<and> prepare_wallet_scan_chunk lib scope start_block end_block rows compression
        = Inl (RecordOutOfRange sect (src_block_number src') start_block end_block)
    \<and> wallet_scan_chunk_plan_item lib scope start_block end_block rows compression
        = Inl (RecordOutOfRange sect (src_block_number src') start_block end_block)"
proof (cases "validate_rows_in_range rows start_block end_block")
  case (Inl e)
  with checks_rows [of start_block end_block rows] obtain sect src'
    where "src' \<in> set (row_sources rows)" "\<not> in_blocks start_block end_block src'"
      and "e = RecordOutOfRange sect (src_block_number src') start_block end_block"
    by (auto simp: checks_def)
  with Inl assms(1) show ?thesis
    by (auto simp: prepare_wallet_scan_chunk_def wallet_scan_chunk_plan_item_def not_less)
next
  case (Inr u)
  with checks_rows [of start_block end_block rows] assms(2,3) show ?thesis
    by (auto simp: checks_def list_all_iff)
qed

theorem wallet_scan_rejects_out_of_range_witness:
  "\<exists>sect. prepare_wallet_scan_chunk sample_rows_lib sample_scope 0 99 sample_rows Zstd
     = Inl (RecordOutOfRange sect 100 0 99)"
proof -
  have "sample_source_row \<in> set (row_sources sample_rows)" "\<not> in_blocks 0 99 sample_source_row"
    by (simp_all add: row_sources_def sample_rows_def in_blocks_def sample_source_row_def)
  from wallet_scan_rejects_out_of_range [OF _ this, of sample_rows_lib sample_scope Zstd] show ?thesis
    by (auto simp: row_sources_def sample_rows_def sample_source_row_def)
qed

end
