(* ===== verification/Public_Txid_Chunk.thy ===== *)
theory Public_Txid_Chunk
  imports Chunk_Format
begin

text \<open>
  The public-transaction-id dataset (\<open>public_txid.rs\<close>): contiguous indexes within one TXID tree, the
  record layout, the optional section of unshield preimages, the leaf hashes and the checkpoint root.

  The ABI of \<open>CommitmentPreimage\<close>, the TXID hash functions and the dense Merkle tree are other
  crates' and form the parameter record \<open>txid_lib\<close>, over the type of preimages.
\<close>

record 'p txid_lib =
  preimage_abi_decode :: "u8 list \<Rightarrow> 'p option"
  preimage_abi_encode :: "'p \<Rightarrow> u8 list"
  preimage_commitment_hash :: "'p \<Rightarrow> u256"
  compute_railgun_txid_parts :: "u256 list \<Rightarrow> u256 list \<Rightarrow> u256 \<Rightarrow> u256"
  txid_leaf_hash_with_output_start :: "u256 \<Rightarrow> u64 \<Rightarrow> u256 \<Rightarrow> u256"
  dense_merkle_root :: "u256 list \<Rightarrow> u64 \<Rightarrow> u256"
  TXID_TREE_LEAF_COUNT :: u64

datatype public_txid_chunk_error =
    EmptyTxidChunk
  | NonContiguousTxidIndex u64 u64
  | TxidIndexOverflow
  | CrossesTxidTreeBoundary u64 u64
  | CheckpointDoesNotStartAtTreePrefix u64
  | UnexpectedUnshieldPreimage u64
  | InvalidUnshieldPreimage u64
  | MissingUnshieldCommitment u64
  | UnshieldCommitmentMismatch u64
  | TxidChunk chunk_error
  | TxidIpfs ipfs_error

definition public_txid_range :: "stored_public_txid_row list \<Rightarrow> public_txid_chunk_error + artifact_range" where
  "public_txid_range records =
     (case records of
        [] \<Rightarrow> Inl EmptyTxidChunk
      | first # _ \<Rightarrow>
          and_then (try_fold (\<lambda>expected_index record.
              if txid_index record \<noteq> expected_index
              then Inl (NonContiguousTxidIndex expected_index (txid_index record))
              else ok_or TxidIndexOverflow (checked_add expected_index 1))
            (txid_index first) records) (\<lambda>_.
          Inr \<lparr>range_kind = TxidIndexRange, range_start = txid_index first,
               range_end = txid_index (last records)\<rparr>))"

definition validate_single_txid_tree :: "'p txid_lib \<Rightarrow> artifact_range \<Rightarrow> public_txid_chunk_error + unit" where
  "validate_single_txid_tree lib rng =
     (if range_start rng div TXID_TREE_LEAF_COUNT lib \<noteq> range_end rng div TXID_TREE_LEAF_COUNT lib
      then Inl (CrossesTxidTreeBoundary (range_start rng) (range_end rng))
      else Inr ())"

definition string_bytes :: "string \<Rightarrow> u8 list" where
  "string_bytes s = map (\<lambda>c. word_of_nat (of_char c)) s"

definition write_string :: "u8 list \<Rightarrow> string \<Rightarrow> chunk_error + u8 list" where
  "write_string bytes str =
     and_then (ok_or (StringTooLong ''public_txid.id'' (length str)) (try_from_len (length str))) (\<lambda>n.
       Inr (write_u16 bytes n @ string_bytes str))"

definition write_fixed_bytes_vec :: "u8 list \<Rightarrow> bytes32 list \<Rightarrow> chunk_error + u8 list" where
  "write_fixed_bytes_vec bytes vals =
     and_then (ok_or PayloadTooLarge (try_from_len (length vals))) (\<lambda>n.
       Inr (foldl (\<lambda>bytes v. bytes @ be_bytes v) (write_u32 bytes n) vals))"

definition write_public_txid_record :: "u8 list \<Rightarrow> stored_public_txid_row \<Rightarrow> chunk_error + u8 list" where
  "write_public_txid_record bytes record =
     and_then (write_string (write_u64 bytes (txid_index record)) (ptx_id record)) (\<lambda>bytes.
       let bytes = write_u64 bytes (ptx_block_number record);
           bytes = write_u64 bytes (ptx_block_timestamp record);
           bytes = bytes @ be_bytes (ptx_block_hash record);
           bytes = bytes @ be_bytes (ptx_transaction_hash record);
           bytes = write_u64 bytes (first_log_index record);
           bytes = write_u64 bytes (last_log_index record)
       in and_then (write_fixed_bytes_vec bytes (ptx_nullifiers record)) (\<lambda>bytes.
          and_then (write_fixed_bytes_vec bytes (ptx_commitments record)) (\<lambda>bytes.
            let bytes = bytes @ be_bytes (ptx_bound_params_hash record);
                bytes = bytes @ [if ptx_has_unshield record then 1 else 0];
                bytes = write_u64 bytes (ptx_utxo_tree_in record);
                bytes = write_u64 bytes (ptx_utxo_tree_out record)
            in Inr (write_u64 bytes (ptx_utxo_batch_start_position_out record)))))"

definition encode_public_txid_records :: "stored_public_txid_row list \<Rightarrow> chunk_error + u8 list" where
  "encode_public_txid_records records =
     and_then (try_fold write_public_txid_record [] records) (\<lambda>bytes.
     and_then (len_u64 bytes) (\<lambda>_. Inr bytes))"

definition write_unshield_preimage ::
  "'p txid_lib \<Rightarrow> u8 list \<times> bool \<Rightarrow> stored_public_txid_row \<Rightarrow> public_txid_chunk_error + u8 list \<times> bool" where
  "write_unshield_preimage lib = (\<lambda>(bytes, missing) record.
     case ptx_unshield_preimage record of
       None \<Rightarrow> Inr (bytes, if ptx_has_unshield record then True else missing)
     | Some encoded \<Rightarrow>
         if \<not> ptx_has_unshield record then Inl (UnexpectedUnshieldPreimage (txid_index record))
         else
         and_then (ok_or (InvalidUnshieldPreimage (txid_index record)) (preimage_abi_decode lib encoded)) (\<lambda>preimage.
         if ptx_commitments record = [] then Inl (MissingUnshieldCommitment (txid_index record))
         else if preimage_commitment_hash lib preimage \<noteq> last (ptx_commitments record)
         then Inl (UnshieldCommitmentMismatch (txid_index record))
         else
         let encoded = preimage_abi_encode lib preimage;
             bytes = write_u64 bytes (txid_index record) in
         and_then (map_err TxidChunk (ok_or PayloadTooLarge (try_from_len (length encoded)))) (\<lambda>n.
           Inr (write_u16 bytes n @ encoded, missing))))"

definition encode_public_txid_unshield_preimages ::
  "'p txid_lib \<Rightarrow> stored_public_txid_row list \<Rightarrow> public_txid_chunk_error + u8 list option" where
  "encode_public_txid_unshield_preimages lib records =
     and_then (map_err TxidChunk (ok_or PayloadTooLarge
       (try_from_len (length (filter ptx_has_unshield records))))) (\<lambda>n.
     and_then (try_fold (write_unshield_preimage lib) (write_u32 [] n, False) records) (\<lambda>(bytes, missing).
     Inr (if \<not> missing then Some bytes else None)))"

definition public_txid_sections :: "u64 \<Rightarrow> u64 \<Rightarrow> u8 list option \<Rightarrow> chunk_section list" where
  "public_txid_sections record_payload_len unshield_payload_len unshield_payload =
     [\<lparr>section_id = 3, section_offset = 0, section_byte_length = record_payload_len\<rparr>]
     @ (if unshield_payload \<noteq> None
        then [\<lparr>section_id = 2, section_offset = record_payload_len, section_byte_length = unshield_payload_len\<rparr>]
        else [])"

definition encode_public_txid_envelope ::
  "chunk_lib \<Rightarrow> chain_scope \<Rightarrow> artifact_range \<Rightarrow> u64 \<Rightarrow> u8 list \<Rightarrow> u8 list option \<Rightarrow> compression_algorithm
     \<Rightarrow> chunk_error + u8 list" where
  "encode_public_txid_envelope lib scope rng row_count record_payload unshield_payload compression =
     and_then (len_u64 record_payload) (\<lambda>record_payload_len.
     and_then (case unshield_payload of None \<Rightarrow> Inr 0 | Some payload \<Rightarrow> len_u64 payload) (\<lambda>unshield_payload_len.
     and_then (ok_or PayloadTooLarge (checked_add record_payload_len unshield_payload_len)) (\<lambda>payload_len.
     encode_chunk_bytes lib
       \<lparr>env_dataset_kind = PublicTxid, env_scope = scope, env_range = rng, env_row_count = row_count,
        env_payload_len = payload_len,
        env_sections = public_txid_sections record_payload_len unshield_payload_len unshield_payload,
        env_payload = record_payload @ (case unshield_payload of None \<Rightarrow> [] | Some payload \<Rightarrow> payload)\<rparr>
       compression)))"

definition public_txid_chunk_plan_item ::
  "chunk_lib \<Rightarrow> 'p txid_lib \<Rightarrow> chain_scope \<Rightarrow> stored_public_txid_row list \<Rightarrow> compression_algorithm
     \<Rightarrow> public_txid_chunk_error + chunk_plan_item" where
  "public_txid_chunk_plan_item lib txl scope records compression =
     and_then (public_txid_range records) (\<lambda>rng.
     and_then (validate_single_txid_tree txl rng) (\<lambda>_.
     and_then (map_err TxidChunk (encode_public_txid_records records)) (\<lambda>record_payload.
     and_then (encode_public_txid_unshield_preimages txl records) (\<lambda>unshield_payload.
     and_then (map_err TxidChunk (len_u64 records)) (\<lambda>row_count.
     and_then (map_err TxidChunk
       (encode_public_txid_envelope lib scope rng row_count record_payload unshield_payload compression)) (\<lambda>compressed.
     and_then (map_err TxidChunk (len_u64 compressed)) (\<lambda>byte_size.
     Inr \<lparr>plan_range = rng, plan_row_count = row_count, plan_compressed_byte_size = byte_size\<rparr>)))))))"

definition prepare_public_txid_chunk ::
  "chunk_lib \<Rightarrow> 'p txid_lib \<Rightarrow> chain_scope \<Rightarrow> stored_public_txid_row list \<Rightarrow> bytes32 \<Rightarrow> compression_algorithm
     \<Rightarrow> public_txid_chunk_error + published_chunk" where
  "prepare_public_txid_chunk lib txl scope records root compression =
     and_then (public_txid_range records) (\<lambda>rng.
     and_then (validate_single_txid_tree txl rng) (\<lambda>_.
     and_then (map_err TxidChunk (encode_public_txid_records records)) (\<lambda>record_payload.
     and_then (encode_public_txid_unshield_preimages txl records) (\<lambda>unshield_payload.
     and_then (map_err TxidChunk (len_u64 records)) (\<lambda>row_count.
     and_then (ok_or EmptyTxidChunk (iter_max (map ptx_block_number records))) (\<lambda>max_block.
     and_then (map_err TxidChunk
       (encode_public_txid_envelope lib scope rng row_count record_payload unshield_payload compression)) (\<lambda>compressed.
     and_then (map_err TxidChunk (len_u64 compressed)) (\<lambda>byte_size.
     if byte_size > MAX_COMPRESSED_CHUNK_BYTES lib
     then Inl (TxidChunk (ChunkTooLarge byte_size (MAX_COMPRESSED_CHUNK_BYTES lib)))
     else Inr \<lparr>descriptor =
       \<lparr>d_dataset_kind = PublicTxid, d_scope = scope, d_range = rng, d_row_count = row_count,
        d_cid = [], d_sha256 = sha256_digest lib compressed, d_byte_size = byte_size,
        d_encoding_version = CHUNK_FORMAT_VERSION lib, d_compression = compression,
        d_metadata = default_metadata
          \<lparr>md_root := Some root, md_checkpoint_block := Some max_block,
           md_last_indexed_block := Some max_block\<rparr>\<rparr>,
       compressed_bytes = compressed\<rparr>))))))))"

definition publish_public_txid_chunk ::
  "chunk_lib \<Rightarrow> 'p txid_lib \<Rightarrow> ipfs_client \<Rightarrow> chain_scope \<Rightarrow> stored_public_txid_row list \<Rightarrow> bytes32
     \<Rightarrow> compression_algorithm \<Rightarrow> public_txid_chunk_error + published_chunk" where
  "publish_public_txid_chunk lib txl client scope records root compression =
     and_then (prepare_public_txid_chunk lib txl scope records root compression) (\<lambda>published.
     and_then (map_err TxidIpfs (client_pin_bytes client (compressed_bytes published))) (\<lambda>cid.
     Inr (published\<lparr>descriptor := (descriptor published)\<lparr>d_cid := cid\<rparr>\<rparr>)))"

definition txid_output_start :: "u64 \<Rightarrow> stored_public_txid_row \<Rightarrow> u128" where
  "txid_output_start leaf_count record =
     saturating_add (saturating_mul (ucast (ptx_utxo_tree_out record)) (ucast leaf_count))
       (ucast (ptx_utxo_batch_start_position_out record))"

definition public_txid_leaf_hash :: "'p txid_lib \<Rightarrow> stored_public_txid_row \<Rightarrow> u256" where
  "public_txid_leaf_hash lib record =
     (let railgun_txid = compute_railgun_txid_parts lib (ptx_nullifiers record) (ptx_commitments record)
            (ptx_bound_params_hash record)
      in txid_leaf_hash_with_output_start lib railgun_txid (ptx_utxo_tree_in record)
           (ucast (txid_output_start (TXID_TREE_LEAF_COUNT lib) record)))"

definition public_txid_checkpoint_root ::
  "'p txid_lib \<Rightarrow> stored_public_txid_row list \<Rightarrow> public_txid_chunk_error + bytes32" where
  "public_txid_checkpoint_root lib records =
     and_then (public_txid_range records) (\<lambda>rng.
     and_then (validate_single_txid_tree lib rng) (\<lambda>_.
     if range_start rng mod TXID_TREE_LEAF_COUNT lib \<noteq> 0
     then Inl (CheckpointDoesNotStartAtTreePrefix (range_start rng))
     else Inr (dense_merkle_root lib (map (public_txid_leaf_hash lib) records) (word_of_nat (length records)))))"

section \<open>Reading the records\<close>

definition read_string :: "string reader" where
  "read_string = read_then (read_le :: u16 reader) (\<lambda>n. read_then (read_bytes (unat n)) (\<lambda>bs.
     read_return (map (\<lambda>b. char_of (unat b)) bs)))"

definition read_fixed_bytes_vec :: "bytes32 list reader" where
  "read_fixed_bytes_vec = read_then (read_le :: u32 reader) (\<lambda>n. read_many read_be (unat n))"

definition read_flag :: "bool reader" where
  "read_flag = read_then read_u8 (\<lambda>b. read_return (b = 1))"

definition read_public_txid :: "stored_public_txid_row reader" where
  "read_public_txid =
     read_then read_le (\<lambda>index. read_then read_string (\<lambda>str.
     read_then read_le (\<lambda>block. read_then read_le (\<lambda>timestamp.
     read_then read_be (\<lambda>block_hash. read_then read_be (\<lambda>tx_hash.
     read_then read_le (\<lambda>first_log. read_then read_le (\<lambda>last_log.
     read_then read_fixed_bytes_vec (\<lambda>nullifiers. read_then read_fixed_bytes_vec (\<lambda>commitments.
     read_then read_be (\<lambda>bound. read_then read_flag (\<lambda>unshield.
     read_then read_le (\<lambda>tree_in. read_then read_le (\<lambda>tree_out. read_then read_le (\<lambda>position.
     read_return \<lparr>txid_index = index, ptx_id = str, ptx_block_number = block, ptx_block_timestamp = timestamp,
       ptx_block_hash = block_hash, ptx_transaction_hash = tx_hash, first_log_index = first_log,
       last_log_index = last_log, ptx_nullifiers = nullifiers, ptx_commitments = commitments,
       ptx_bound_params_hash = bound, ptx_has_unshield = unshield, ptx_unshield_preimage = None,
       ptx_utxo_tree_in = tree_in, ptx_utxo_tree_out = tree_out,
       ptx_utxo_batch_start_position_out = position\<rparr>)))))))))))))))"

lemma string_bytes_inverse: "map (\<lambda>b. char_of (unat b)) (string_bytes s) = s"
proof -
  have "char_of (unat (word_of_nat (of_char c) :: u8)) = c" for c
    using nat_of_char_less_256 [of c] by (simp add: unat_word_of_nat)
  then show ?thesis by (simp add: string_bytes_def comp_def)
qed

lemma length_string_bytes: "length (string_bytes s) = length s"
  by (simp add: string_bytes_def)

lemma wrote_string:
  assumes "write_string buf s = Inr buf'"
  shows "wrote read_string s buf buf'"
proof -
  from assms obtain n :: u16 where n: "unat n = length s" "buf' = write_u16 buf n @ string_bytes s"
    by (auto simp: write_string_def result_simps checked_simps)
  have "wrote (read_then (read_bytes (unat n)) (\<lambda>bs. read_return (map (\<lambda>b. char_of (unat b)) bs))) s
      (write_u16 buf n) (write_u16 buf n @ string_bytes s)"
    by (rule wrote_then [OF wrote_bytes_len [where bs = "string_bytes s"]])
      (simp_all add: n length_string_bytes string_bytes_inverse wrote_return del: map_map)
  then show ?thesis
    unfolding n(2) read_string_def by (rule wrote_then [OF wrote_write_u16])
qed

lemma wrote_fixed_bytes_vec:
  assumes "write_fixed_bytes_vec buf vs = Inr buf'"
  shows "wrote read_fixed_bytes_vec vs buf buf'"
proof -
  from assms obtain n :: u32 where n: "unat n = length vs"
    "buf' = foldl (\<lambda>bytes v. bytes @ be_bytes v) (write_u32 buf n) vs"
    by (auto simp: write_fixed_bytes_vec_def result_simps checked_simps)
  show ?thesis
    unfolding n(2) read_fixed_bytes_vec_def
    by (rule wrote_then [OF wrote_write_u32]) (rule wrote_bytes32_list [OF n(1)])
qed

lemma wrote_flag: "wrote read_flag b buf (buf @ [if b then 1 else 0])"
  unfolding read_flag_def
  by (rule wrote_then [OF wrote_push [where b = "if b then 1 else 0"]]) (simp add: wrote_return)

lemmas wrote_txid_steps = wrote_then [OF wrote_write_u64] wrote_then [OF wrote_bytes32]
  wrote_then [OF wrote_string] wrote_then [OF wrote_fixed_bytes_vec] wrote_then [OF wrote_flag]

text \<open>All of a row but the preimage, which has a section of its own.\<close>

definition without_preimage :: "stored_public_txid_row \<Rightarrow> stored_public_txid_row" where
  "without_preimage record = record\<lparr>ptx_unshield_preimage := None\<rparr>"

interpretation txid_writer: record_writer write_public_txid_record read_public_txid without_preimage
proof
  fix buf buf' and x :: stored_public_txid_row
  assume "write_public_txid_record buf x = Inr buf'"
  then show "wrote read_public_txid (without_preimage x) buf buf'"
    unfolding write_public_txid_record_def Let_def and_then_Inr_iff read_public_txid_def without_preimage_def
    by (elim exE conjE) (auto intro!: wrote_txid_steps wrote_return_eq simp del: append_assoc split del: if_split)
qed

lemma encode_public_txid_records_Inr:
  assumes "encode_public_txid_records records = Inr payload"
  shows "wrote (read_many read_public_txid (length records)) (map without_preimage records) [] payload"
  using assms by (auto simp: encode_public_txid_records_def result_simps intro: txid_writer.wrote_all)

section \<open>Unshield preimages\<close>

definition read_unshield :: "(u64 \<times> u8 list) reader" where
  "read_unshield = read_then read_le (\<lambda>index. read_then (read_le :: u16 reader) (\<lambda>n.
     read_then (read_bytes (unat n)) (\<lambda>encoded. read_return (index, encoded))))"

definition read_unshields :: "(u64 \<times> u8 list) list reader" where
  "read_unshields = read_then (read_le :: u32 reader) (\<lambda>n. read_many read_unshield (unat n))"

definition unshield_entry :: "'p txid_lib \<Rightarrow> stored_public_txid_row \<Rightarrow> u64 \<times> u8 list" where
  "unshield_entry lib r =
     (txid_index r, preimage_abi_encode lib (the (preimage_abi_decode lib (the (ptx_unshield_preimage r)))))"

text \<open>The preimage of a row opens the row's last commitment.\<close>

definition preimage_fits :: "'p txid_lib \<Rightarrow> stored_public_txid_row \<Rightarrow> bool" where
  "preimage_fits lib r \<longleftrightarrow> ptx_has_unshield r \<and> ptx_commitments r \<noteq> []
     \<and> (case ptx_unshield_preimage r of None \<Rightarrow> False
        | Some encoded \<Rightarrow> \<exists>preimage. preimage_abi_decode lib encoded = Some preimage
            \<and> preimage_commitment_hash lib preimage = last (ptx_commitments r))"

definition lacks_preimage :: "stored_public_txid_row \<Rightarrow> bool" where
  "lacks_preimage r \<longleftrightarrow> ptx_has_unshield r \<and> ptx_unshield_preimage r = None"

definition plain_row :: "stored_public_txid_row \<Rightarrow> bool" where
  "plain_row r \<longleftrightarrow> \<not> ptx_has_unshield r \<and> ptx_unshield_preimage r = None"

lemma write_unshield_preimage_Inr:
  assumes "write_unshield_preimage lib (buf, m) r = Inr (buf', m')"
  shows "if preimage_fits lib r then wrote read_unshield (unshield_entry lib r) buf buf' \<and> m' = m
    else buf' = buf \<and> (if lacks_preimage r then m' else plain_row r \<and> m' = m)"
proof (cases "ptx_unshield_preimage r")
  case None
  with assms show ?thesis
    by (auto simp: write_unshield_preimage_def preimage_fits_def lacks_preimage_def plain_row_def split: if_splits)
next
  case (Some encoded)
  with assms obtain p and n :: u16 where p: "preimage_abi_decode lib encoded = Some p"
    "preimage_commitment_hash lib p = last (ptx_commitments r)" "ptx_has_unshield r" "ptx_commitments r \<noteq> []"
    and n: "unat n = length (preimage_abi_encode lib p)"
      "buf' = write_u16 (write_u64 buf (txid_index r)) n @ preimage_abi_encode lib p" "m' = m"
    by (auto simp: write_unshield_preimage_def result_simps checked_simps Let_def split: if_splits)
  have "wrote read_unshield (txid_index r, preimage_abi_encode lib p) buf buf'"
    unfolding n(2) read_unshield_def
    by (rule wrote_then [OF wrote_write_u64], rule wrote_then [OF wrote_write_u16],
        rule wrote_then [OF wrote_bytes_len [OF n(1)]], rule wrote_return)
  with Some p n(3) show ?thesis
    by (simp add: preimage_fits_def unshield_entry_def)
qed

lemma unshield_loop:
  assumes "try_fold (write_unshield_preimage lib) (buf, m) records = Inr (buf', m')"
  shows "wrote (read_many read_unshield (length (filter (preimage_fits lib) records)))
      (map (unshield_entry lib) (filter (preimage_fits lib) records)) buf buf'
    \<and> m' = (m \<or> list_ex lacks_preimage records)
    \<and> list_all (\<lambda>r. preimage_fits lib r \<or> lacks_preimage r \<or> plain_row r) records"
  using assms
proof (induction records arbitrary: buf m)
  case Nil
  then show ?case by (simp add: wrote_return)
next
  case (Cons r records)
  then obtain buf1 m1 where step: "write_unshield_preimage lib (buf, m) r = Inr (buf1, m1)"
    and rest: "try_fold (write_unshield_preimage lib) (buf1, m1) records = Inr (buf', m')"
    by (auto simp: and_then_Inr_iff)
  note IH = Cons.IH [OF rest]
  have excl: "preimage_fits lib r \<Longrightarrow> \<not> lacks_preimage r"
    by (auto simp: preimage_fits_def lacks_preimage_def split: option.splits)
  show ?case
  proof (cases "preimage_fits lib r")
    case True
    with write_unshield_preimage_Inr [OF step] IH excl show ?thesis
      by (auto intro!: wrote_then [of read_unshield "unshield_entry lib r" buf buf1] wrote_then wrote_return)
  next
    case False
    with write_unshield_preimage_Inr [OF step] IH show ?thesis
      by (auto split: if_splits)
  qed
qed

lemma encode_unshields_Inr:
  assumes "encode_public_txid_unshield_preimages lib records = Inr result"
  shows "if list_ex lacks_preimage records then result = None
    else \<exists>payload. result = Some payload
      \<and> wrote read_unshields (map (unshield_entry lib) (filter ptx_has_unshield records)) [] payload"
    and "list_all (\<lambda>r. preimage_fits lib r \<or> lacks_preimage r \<or> plain_row r) records"
proof -
  from assms obtain n bytes missing where n: "unat (n :: u32) = length (filter ptx_has_unshield records)"
    and loop: "try_fold (write_unshield_preimage lib) (write_u32 [] n, False) records = Inr (bytes, missing)"
    and result: "result = (if \<not> missing then Some bytes else None)"
    by (auto simp: encode_public_txid_unshield_preimages_def result_simps checked_simps)
  note loop = unshield_loop [OF loop]
  show "list_all (\<lambda>r. preimage_fits lib r \<or> lacks_preimage r \<or> plain_row r) records"
    using loop by simp
  show "if list_ex lacks_preimage records then result = None
    else \<exists>payload. result = Some payload
      \<and> wrote read_unshields (map (unshield_entry lib) (filter ptx_has_unshield records)) [] payload"
  proof (cases "list_ex lacks_preimage records")
    case True
    with loop result show ?thesis by simp
  next
    case False
    with loop have "filter (preimage_fits lib) records = filter ptx_has_unshield records"
      by (intro filter_cong)
        (auto simp: list_all_iff list_ex_iff preimage_fits_def plain_row_def)
    with loop n have "wrote (read_many read_unshield (unat n))
        (map (unshield_entry lib) (filter ptx_has_unshield records)) (write_u32 [] n) bytes"
      by simp
    then have "wrote read_unshields (map (unshield_entry lib) (filter ptx_has_unshield records)) [] bytes"
      unfolding read_unshields_def by (rule wrote_then [OF wrote_write_u32])
    with False loop result show ?thesis by simp
  qed
qed

section \<open>Ranges\<close>

lemma contiguous_loop:
  assumes "try_fold (\<lambda>expected_index record.
      if txid_index record \<noteq> expected_index
      then Inl (NonContiguousTxidIndex expected_index (txid_index record))
      else ok_or TxidIndexOverflow (checked_add expected_index 1)) e records = Inr e'"
    and "i < length records"
  shows "unat (txid_index (records ! i)) = unat e + i"
  using assms
proof (induction records arbitrary: e i)
  case (Cons r records)
  from Cons.prems(1) obtain e1 where "txid_index r = e" "unat e1 = unat e + 1"
    and "try_fold (\<lambda>expected_index record.
      if txid_index record \<noteq> expected_index
      then Inl (NonContiguousTxidIndex expected_index (txid_index record))
      else ok_or TxidIndexOverflow (checked_add expected_index 1)) e1 records = Inr e'"
    by (auto simp: result_simps checked_simps split: if_splits)
  with Cons show ?case by (cases i) auto
qed simp

lemma public_txid_range_Inr:
  assumes "public_txid_range records = Inr rng"
  shows "records \<noteq> []"
    and "i < length records \<Longrightarrow> unat (txid_index (records ! i)) = unat (range_start rng) + i"
    and "range_start rng = txid_index (hd records)" and "range_end rng = txid_index (last records)"
  using assms contiguous_loop [of "txid_index (hd records)" records]
  by (auto simp: public_txid_range_def and_then_Inr_iff split: list.splits)

section \<open>Envelopes\<close>

definition txid_payload :: "u8 list \<Rightarrow> u8 list option \<Rightarrow> u8 list" where
  "txid_payload record_payload unshield_payload =
     record_payload @ (case unshield_payload of None \<Rightarrow> [] | Some payload \<Rightarrow> payload)"

lemma encode_public_txid_envelope_Inr:
  assumes "encode_public_txid_envelope lib scope rng row_count record_payload unshield_payload compression = Inr bytes"
  obtains env where "encode_chunk_bytes lib env compression = Inr bytes"
    and "env_dataset_kind env = PublicTxid" and "env_scope env = scope" and "env_range env = rng"
    and "env_row_count env = row_count"
    and "wrote r v [] record_payload \<Longrightarrow> read_section_of env 3 r = Some v"
    and "unshield_payload = None \<Longrightarrow> read_section_of env 2 r2 = None"
    and "\<And>payload. unshield_payload = Some payload \<Longrightarrow> wrote r2 v2 [] payload \<Longrightarrow> read_section_of env 2 r2 = Some v2"
proof -
  from assms obtain rl ul pl
    where rl: "unat (rl :: u64) = length record_payload"
      and ul: "case unshield_payload of None \<Rightarrow> ul = 0 | Some payload \<Rightarrow> unat (ul :: u64) = length payload"
      and enc: "encode_chunk_bytes lib
       \<lparr>env_dataset_kind = PublicTxid, env_scope = scope, env_range = rng, env_row_count = row_count,
        env_payload_len = pl, env_sections = public_txid_sections rl ul unshield_payload,
        env_payload = txid_payload record_payload unshield_payload\<rparr> compression = Inr bytes"
    by (cases unshield_payload)
      (auto simp: encode_public_txid_envelope_def result_simps checked_simps txid_payload_def)
  let ?env = "\<lparr>env_dataset_kind = PublicTxid, env_scope = scope, env_range = rng, env_row_count = row_count,
        env_payload_len = pl, env_sections = public_txid_sections rl ul unshield_payload,
        env_payload = txid_payload record_payload unshield_payload\<rparr>"
  have records: "read_section_of ?env 3 r = Some v" if w: "wrote r v [] record_payload"
    using wrote_section_bytes [OF w, of 0 rl 3] rl
    by (simp add: read_section_of_def public_txid_sections_def txid_payload_def)
  have unshields: "read_section_of ?env 2 r2 = Some v2"
    if u: "unshield_payload = Some payload" and w: "wrote r2 v2 [] payload" for payload
  proof -
    have "wrote r2 v2 record_payload (record_payload @ payload)"
      using w by (auto simp: wrote_def)
    from wrote_section_bytes [OF this rl, of ul 2 "[]"] rl ul u show ?thesis
      by (simp add: read_section_of_def public_txid_sections_def txid_payload_def)
  qed
  show thesis
    using enc records unshields
    by (intro that [of ?env]) (auto simp: read_section_of_def public_txid_sections_def)
qed

lemma prepare_public_txid_chunk_Inr:
  assumes "prepare_public_txid_chunk lib txl scope records root compression = Inr published"
  obtains rng row_count record_payload unshield_payload where
    "public_txid_range records = Inr rng" and "d_range (descriptor published) = rng"
    and "validate_single_txid_tree txl rng = Inr ()"
    and "encode_public_txid_records records = Inr record_payload"
    and "encode_public_txid_unshield_preimages txl records = Inr unshield_payload"
    and "unat row_count = length records"
    and "encode_public_txid_envelope lib scope rng row_count record_payload unshield_payload compression
      = Inr (compressed_bytes published)"
    and "d_compression (descriptor published) = compression"
    and "d_dataset_kind (descriptor published) = PublicTxid" and "d_scope (descriptor published) = scope"
    and "d_row_count (descriptor published) = row_count"
    and "d_sha256 (descriptor published) = sha256_digest lib (compressed_bytes published)"
    and "unat (d_byte_size (descriptor published)) = length (compressed_bytes published)"
    and "d_byte_size (descriptor published) \<le> MAX_COMPRESSED_CHUNK_BYTES lib"
    and "d_encoding_version (descriptor published) = CHUNK_FORMAT_VERSION lib"
    and "md_root (d_metadata (descriptor published)) = Some root"
  using assms
  by (auto simp: prepare_public_txid_chunk_def result_simps checked_simps not_less split: if_splits)

section \<open>Properties\<close>

text \<open>C17: A published public-TXID chunk decodes, under its descriptor, to an envelope whose section 3 reads
  back all rows. Section 2 is present exactly when no unshielding row lacks its preimage, and then it
  lists, for the unshielding rows in order, the index and the canonical encoding of a preimage that
  opens the row's last commitment. The rows' indexes are contiguous and lie in one TXID tree.\<close>

theorem public_txid_chunk_published:
  assumes "publish_public_txid_chunk lib txl client scope records root compression = Inr published"
    and "decodes_published lib"
  shows "(\<exists>env. decode_chunk_bytes lib (descriptor published) (compressed_bytes published) = Inr env
        \<and> read_section_of env 3 (read_many read_public_txid (length records)) = Some (map without_preimage records)
        \<and> read_section_of env 2 read_unshields =
            (if list_ex lacks_preimage records then None
             else Some (map (unshield_entry txl) (filter ptx_has_unshield records))))
      \<and> list_all (\<lambda>r. preimage_fits txl r \<or> lacks_preimage r \<or> plain_row r) records
      \<and> records \<noteq> []
      \<and> (\<forall>i < length records. unat (txid_index (records ! i)) = unat (txid_index (hd records)) + i)
      \<and> txid_index (hd records) div TXID_TREE_LEAF_COUNT txl = txid_index (last records) div TXID_TREE_LEAF_COUNT txl
      \<and> unat (d_row_count (descriptor published)) = length records
      \<and> client_pin_bytes client (compressed_bytes published) = Inr (d_cid (descriptor published))"
proof -
  from assms(1) obtain prepared cid
    where prep: "prepare_public_txid_chunk lib txl scope records root compression = Inr prepared"
      and pin: "client_pin_bytes client (compressed_bytes prepared) = Inr cid"
      and pub: "published = prepared\<lparr>descriptor := (descriptor prepared)\<lparr>d_cid := cid\<rparr>\<rparr>"
    by (auto simp: publish_public_txid_chunk_def result_simps)
  from prep obtain rng row_count record_payload unshield_payload
    where rng: "public_txid_range records = Inr rng" "d_range (descriptor prepared) = rng"
      and tree: "validate_single_txid_tree txl rng = Inr ()"
      and recs: "encode_public_txid_records records = Inr record_payload"
      and unsh: "encode_public_txid_unshield_preimages txl records = Inr unshield_payload"
      and n: "unat row_count = length records" "d_row_count (descriptor prepared) = row_count"
      and enc: "encode_public_txid_envelope lib scope rng row_count record_payload unshield_payload compression
        = Inr (compressed_bytes prepared)"
      and d: "d_compression (descriptor prepared) = compression"
        "d_dataset_kind (descriptor prepared) = PublicTxid" "d_scope (descriptor prepared) = scope"
        "d_sha256 (descriptor prepared) = sha256_digest lib (compressed_bytes prepared)"
        "unat (d_byte_size (descriptor prepared)) = length (compressed_bytes prepared)"
        "d_byte_size (descriptor prepared) \<le> MAX_COMPRESSED_CHUNK_BYTES lib"
        "d_encoding_version (descriptor prepared) = CHUNK_FORMAT_VERSION lib"
    by (rule prepare_public_txid_chunk_Inr)
  note range_facts = public_txid_range_Inr [OF rng(1)]
  from enc obtain env where chunk: "encode_chunk_bytes lib env compression = Inr (compressed_bytes prepared)"
    and envf: "env_dataset_kind env = PublicTxid" "env_scope env = scope" "env_range env = rng"
      "env_row_count env = row_count"
    and sec3: "wrote (read_many read_public_txid (length records)) (map without_preimage records) [] record_payload
      \<Longrightarrow> read_section_of env 3 (read_many read_public_txid (length records)) = Some (map without_preimage records)"
    and sec2: "unshield_payload = None \<Longrightarrow> read_section_of env 2 read_unshields = None"
      "\<And>payload. unshield_payload = Some payload
        \<Longrightarrow> wrote read_unshields (map (unshield_entry txl) (filter ptx_has_unshield records)) [] payload
        \<Longrightarrow> read_section_of env 2 read_unshields = Some (map (unshield_entry txl) (filter ptx_has_unshield records))"
    by (rule encode_public_txid_envelope_Inr) blast
  have "decode_chunk_bytes lib (descriptor published) (compressed_bytes published) = Inr env"
    using d pub envf rng(2) n(2)
    by (auto intro!: published_decodes [OF assms(2) chunk] simp: describes_def)
  moreover have "read_section_of env 2 read_unshields =
      (if list_ex lacks_preimage records then None
       else Some (map (unshield_entry txl) (filter ptx_has_unshield records)))"
    using encode_unshields_Inr(1) [OF unsh] sec2 by (auto split: if_splits)
  moreover have "txid_index (hd records) div TXID_TREE_LEAF_COUNT txl
      = txid_index (last records) div TXID_TREE_LEAF_COUNT txl"
    using tree range_facts(3,4) by (simp add: validate_single_txid_tree_def split: if_splits)
  ultimately show ?thesis
    using sec3 [OF encode_public_txid_records_Inr [OF recs]] encode_unshields_Inr(2) [OF unsh] range_facts n pin pub
    by auto
qed

definition sample_txid_row :: stored_public_txid_row where
  "sample_txid_row = \<lparr>txid_index = 7, ptx_id = ''a'', ptx_block_number = 100, ptx_block_timestamp = 9,
     ptx_block_hash = 1, ptx_transaction_hash = 2, first_log_index = 3, last_log_index = 4,
     ptx_nullifiers = [5], ptx_commitments = [6, 8], ptx_bound_params_hash = 10, ptx_has_unshield = True,
     ptx_unshield_preimage = Some [8], ptx_utxo_tree_in = 0, ptx_utxo_tree_out = 1,
     ptx_utxo_batch_start_position_out = 12\<rparr>"

definition sample_txid_lib :: "u8 txid_lib" where
  "sample_txid_lib = \<lparr>preimage_abi_decode = (\<lambda>bs. case bs of [b] \<Rightarrow> Some b | _ \<Rightarrow> None),
     preimage_abi_encode = (\<lambda>b. [b]), preimage_commitment_hash = ucast,
     compute_railgun_txid_parts = (\<lambda>_ _ b. b), txid_leaf_hash_with_output_start = (\<lambda>t _ _. t),
     dense_merkle_root = (\<lambda>_ _. 0), TXID_TREE_LEAF_COUNT = 16\<rparr>"

definition sample_txid_payload :: "u8 list" where
  "sample_txid_payload = le_bytes (7 :: u64) @ le_bytes (1 :: u16) @ string_bytes ''a'' @ le_bytes (100 :: u64)
     @ le_bytes (9 :: u64) @ be_bytes (1 :: bytes32) @ be_bytes (2 :: bytes32) @ le_bytes (3 :: u64)
     @ le_bytes (4 :: u64) @ le_bytes (1 :: u32) @ be_bytes (5 :: bytes32) @ le_bytes (2 :: u32)
     @ be_bytes (6 :: bytes32) @ be_bytes (8 :: bytes32) @ be_bytes (10 :: bytes32) @ [1]
     @ le_bytes (0 :: u64) @ le_bytes (1 :: u64) @ le_bytes (12 :: u64)"

definition sample_unshield_payload :: "u8 list" where
  "sample_unshield_payload = le_bytes (1 :: u32) @ le_bytes (7 :: u64) @ le_bytes (1 :: u16) @ [8]"

definition sample_txid_chunk_lib :: chunk_lib where
  "sample_txid_chunk_lib = sample_chunk_lib
     \<lparr>env_dataset_kind = PublicTxid, env_scope = sample_scope,
      env_range = \<lparr>range_kind = TxidIndexRange, range_start = 7, range_end = 7\<rparr>, env_row_count = 1,
      env_payload_len = 283, env_sections = public_txid_sections 268 15 (Some sample_unshield_payload),
      env_payload = sample_txid_payload @ sample_unshield_payload\<rparr>"

lemma sample_txid_parts:
  "encode_public_txid_records [sample_txid_row] = Inr sample_txid_payload"
  "encode_public_txid_unshield_preimages sample_txid_lib [sample_txid_row] = Inr (Some sample_unshield_payload)"
  "length sample_txid_payload = 268" "length sample_unshield_payload = 15"
  by (simp_all add: encode_public_txid_records_def write_public_txid_record_def write_string_def
      write_fixed_bytes_vec_def write_u16_def write_u32_def write_u64_def try_from_len_def Let_def
      sample_txid_row_def sample_txid_payload_def encode_public_txid_unshield_preimages_def
      write_unshield_preimage_def sample_txid_lib_def sample_unshield_payload_def length_string_bytes)

lemma sample_txid_publishes:
  "\<exists>published. publish_public_txid_chunk sample_txid_chunk_lib sample_txid_lib
     (sample_client ''a'' (Inr ''Q1'')) sample_scope [sample_txid_row] 13 Zstd = Inr published"
proof -
  have "public_txid_range [sample_txid_row]
      = Inr \<lparr>range_kind = TxidIndexRange, range_start = 7, range_end = 7\<rparr>"
    by (simp add: public_txid_range_def checked_add_def sample_txid_row_def)
  then show ?thesis
    by (simp add: publish_public_txid_chunk_def prepare_public_txid_chunk_def validate_single_txid_tree_def
        sample_txid_parts encode_public_txid_envelope_def try_from_len_def checked_add_def iter_max_def
        sample_txid_chunk_lib_def sample_chunk_lib_def sample_client_def)
qed

theorem public_txid_chunk_published_witness:
  "\<exists>published env. publish_public_txid_chunk sample_txid_chunk_lib sample_txid_lib
       (sample_client ''a'' (Inr ''Q1'')) sample_scope [sample_txid_row] 13 Zstd = Inr published
     \<and> decode_chunk_bytes sample_txid_chunk_lib (descriptor published) (compressed_bytes published) = Inr env
     \<and> read_section_of env 2 read_unshields = Some [(7, [8])]"
proof -
  obtain published where pub: "publish_public_txid_chunk sample_txid_chunk_lib sample_txid_lib
       (sample_client ''a'' (Inr ''Q1'')) sample_scope [sample_txid_row] 13 Zstd = Inr published"
    using sample_txid_publishes by blast
  have "decodes_published sample_txid_chunk_lib"
    by (simp add: sample_txid_chunk_lib_def sample_chunk_lib_decodes)
  from public_txid_chunk_published [OF pub this] pub show ?thesis
    by (auto simp: lacks_preimage_def sample_txid_row_def unshield_entry_def sample_txid_lib_def)
qed

text \<open>C22: The output start that enters a TXID leaf hash is exact: with 64-bit fields the two saturating
  128-bit operations never saturate, so the value is tree times leaf count plus position.\<close>

theorem txid_output_start_exact:
  "unat (txid_output_start leaf_count record)
     = unat (ptx_utxo_tree_out record) * unat leaf_count + unat (ptx_utxo_batch_start_position_out record)"
proof -
  let ?t = "unat (ptx_utxo_tree_out record)" and ?p = "unat (ptx_utxo_batch_start_position_out record)"
  have bounds: "?t \<le> 2 ^ 64 - 1" "unat leaf_count \<le> 2 ^ 64 - 1" "?p \<le> 2 ^ 64 - 1"
    using unat_less_exp [of "ptx_utxo_tree_out record"] unat_less_exp [of leaf_count]
      unat_less_exp [of "ptx_utxo_batch_start_position_out record"] by simp_all
  have "?t * unat leaf_count \<le> (2 ^ 64 - 1) * (2 ^ 64 - 1)"
    using bounds(1,2) by (rule mult_le_mono)
  with bounds(3) have "?t * unat leaf_count + ?p < 2 ^ 128" "?t * unat leaf_count < 2 ^ 128"
    by simp_all
  then show ?thesis
    by (simp add: txid_output_start_def unat_saturating_add unat_saturating_mul unat_ucast_up)
qed

end
