(* ===== verification/Sql_Table.thy ===== *)
theory Sql_Table
  imports Indexer_Prelude
begin

text \<open>
  The SQL statements the store and the audit log are written in, as functions on tables.

  A table with a primary key is the list of its rows by key; \<open>keyed\<close> says that no key occurs
  twice, and looking a row up is \<^const>\<open>map_of\<close>. Every statement that writes returns the new table
  and the number of rows affected:
  \<^item> \<open>insert_on_conflict k v upd\<close> is \<open>INSERT .. ON CONFLICT (k) DO UPDATE SET .. WHERE ..\<close>, where
    \<open>upd old\<close> is \<open>None\<close> if the row that is there fails the \<open>WHERE\<close>, and \<open>DO NOTHING\<close> when it is
    \<open>None\<close> always;
  \<^item> \<open>update_where P f\<close> and \<open>delete_where P\<close> are \<open>UPDATE .. SET f WHERE P\<close> and
    \<open>DELETE .. WHERE P\<close>;
  \<^item> \<open>select_where P\<close> with \<^const>\<open>sort_key\<close> is \<open>SELECT .. WHERE P ORDER BY ..\<close>.

  \<open>BIGINT\<close> columns are integers; \<open>bigint_ok\<close> is their range, which the sources check before they
  bind a \<open>u64\<close>. A transaction is a function from the database to an error or the new database:
  one that fails is rolled back, so its caller keeps the database it had.
\<close>

named_theorems sql_simps \<open>what looking up gives after each statement\<close>

type_synonym ('k, 'v) tbl = "('k \<times> 'v) list"
type_synonym i64 = int

definition keyed :: "('k, 'v) tbl \<Rightarrow> bool" where
  "keyed t \<longleftrightarrow> distinct (map fst t)"

definition insert_on_conflict ::
  "'k \<Rightarrow> 'v \<Rightarrow> ('v \<Rightarrow> 'v option) \<Rightarrow> ('k, 'v) tbl \<Rightarrow> ('k, 'v) tbl \<times> nat" where
  "insert_on_conflict k v upd t =
     (case map_of t k of
        None \<Rightarrow> (t @ [(k, v)], 1)
      | Some old \<Rightarrow>
          (case upd old of
             None \<Rightarrow> (t, 0)
           | Some new \<Rightarrow> (hm_update k (\<lambda>_. new) t, 1)))"

definition update_where ::
  "('k \<Rightarrow> 'v \<Rightarrow> bool) \<Rightarrow> ('v \<Rightarrow> 'v) \<Rightarrow> ('k, 'v) tbl \<Rightarrow> ('k, 'v) tbl \<times> nat" where
  "update_where P f t =
     (map (\<lambda>(k, v). (k, if P k v then f v else v)) t, length (filter (\<lambda>(k, v). P k v) t))"

definition delete_where :: "('k \<Rightarrow> 'v \<Rightarrow> bool) \<Rightarrow> ('k, 'v) tbl \<Rightarrow> ('k, 'v) tbl \<times> nat" where
  "delete_where P t =
     (filter (\<lambda>(k, v). \<not> P k v) t, length (filter (\<lambda>(k, v). P k v) t))"

definition select_where :: "('k \<Rightarrow> 'v \<Rightarrow> bool) \<Rightarrow> ('k, 'v) tbl \<Rightarrow> ('k, 'v) tbl" where
  "select_where P t = filter (\<lambda>(k, v). P k v) t"

definition exists_where :: "('k \<Rightarrow> 'v \<Rightarrow> bool) \<Rightarrow> ('k, 'v) tbl \<Rightarrow> bool" where
  "exists_where P t \<longleftrightarrow> (\<exists>(k, v) \<in> set t. P k v)"

definition bigint_ok :: "int \<Rightarrow> bool" where
  "bigint_ok x \<longleftrightarrow> - (2 ^ 63) \<le> x \<and> x < 2 ^ 63"

text \<open>\<open>i64::try_from(u64)\<close>, \<open>u64::try_from(i64)\<close> and \<open>u32::try_from(i64)\<close>.\<close>

definition i64_of_u64 :: "u64 \<Rightarrow> i64 option" where
  "i64_of_u64 w = (if unat w < 2 ^ 63 then Some (int (unat w)) else None)"

definition word_of_i64 :: "i64 \<Rightarrow> 'a::len word option" where
  "word_of_i64 x = (if 0 \<le> x then try_from_len (nat x) else None)"

lemma i64_of_u64_iff [checked_simps]:
  "i64_of_u64 w = Some x \<longleftrightarrow> x = int (unat w) \<and> unat w < 2 ^ 63"
  "i64_of_u64 w = None \<longleftrightarrow> 2 ^ 63 \<le> unat w"
  by (auto simp: i64_of_u64_def)

lemma word_of_i64_iff [checked_simps]: "word_of_i64 x = Some w \<longleftrightarrow> x = int (unat w)"
  by (auto simp: word_of_i64_def checked_simps) (metis int_nat_eq uint_nat)

lemma word_of_i64_int [simp]: "word_of_i64 (int (unat w)) = Some w"
  by (simp add: checked_simps)

text \<open>The errors a statement can end with because of the schema or of \<open>BIGINT\<close> arithmetic.\<close>

datatype sql_error = CheckViolation | UniqueViolation | NumericOutOfRange

definition show_int :: "int \<Rightarrow> string" where
  "show_int x = (if x < 0 then CHR ''-'' # show_nat (nat (- x)) else show_nat (nat x))"

section \<open>Looking up after each statement\<close>

lemma keyed_Nil [simp]: "keyed []"
  by (simp add: keyed_def)

lemma keyed_lookup: "keyed t \<Longrightarrow> (k, v) \<in> set t \<longleftrightarrow> map_of t k = Some v"
  by (simp add: keyed_def)

lemma insert_lookup [sql_simps]:
  "map_of (fst (insert_on_conflict k v upd t)) k' =
     (if k' = k then
        Some (case map_of t k of None \<Rightarrow> v | Some old \<Rightarrow> (case upd old of None \<Rightarrow> old | Some new \<Rightarrow> new))
      else map_of t k')"
  by (auto simp: insert_on_conflict_def map_of_hm_update map_add_def split: option.splits)

lemma insert_affected:
  "snd (insert_on_conflict k v upd t) = 0 \<longleftrightarrow> (\<exists>old. map_of t k = Some old \<and> upd old = None)"
  by (auto simp: insert_on_conflict_def split: option.splits)

lemma insert_untouched:
  "snd (insert_on_conflict k v upd t) = 0 \<Longrightarrow> fst (insert_on_conflict k v upd t) = t"
  by (auto simp: insert_on_conflict_def split: option.splits)

lemma insert_keyed [simp]: "keyed t \<Longrightarrow> keyed (fst (insert_on_conflict k v upd t))"
  by (auto simp: insert_on_conflict_def keyed_def hm_update_distinct map_of_eq_None_iff
      split: option.splits)

lemma update_keys [simp]: "map fst (fst (update_where P f t)) = map fst t"
  by (simp add: update_where_def split_def comp_def)

lemma update_keyed [simp]: "keyed (fst (update_where P f t)) \<longleftrightarrow> keyed t"
  by (simp add: keyed_def)

lemma update_lookup [sql_simps]:
  "map_of (fst (update_where P f t)) k =
     map_option (\<lambda>v. if P k v then f v else v) (map_of t k)"
  by (induction t) (auto simp: update_where_def)

lemma update_affected: "snd (update_where P f t) = 0 \<longleftrightarrow> \<not> exists_where P t"
  by (auto simp: update_where_def exists_where_def filter_empty_conv)

lemma in_update_where:
  "(k, w) \<in> set (fst (update_where P f t)) \<longleftrightarrow>
     (\<exists>v. (k, v) \<in> set t \<and> w = (if P k v then f v else v))"
  by (simp add: update_where_def image_iff Bex_def split_paired_Ex split del: if_split)

lemma delete_keyed [simp]: "keyed t \<Longrightarrow> keyed (fst (delete_where P t))"
  by (auto simp: delete_where_def keyed_def distinct_map intro: inj_on_subset)

lemma delete_lookup [sql_simps]:
  "keyed t \<Longrightarrow> map_of (fst (delete_where P t)) k =
     (case map_of t k of None \<Rightarrow> None | Some v \<Rightarrow> if P k v then None else Some v)"
proof (induction t)
  case (Cons x t)
  then show ?case
    by (cases x) (auto simp: delete_where_def keyed_def map_of_eq_None_iff split: option.splits)
qed (simp add: delete_where_def)

lemma in_delete_where: "(k, v) \<in> set (fst (delete_where P t)) \<longleftrightarrow> (k, v) \<in> set t \<and> \<not> P k v"
  by (auto simp: delete_where_def)

lemma in_select_where [simp]: "(k, v) \<in> set (select_where P t) \<longleftrightarrow> (k, v) \<in> set t \<and> P k v"
  by (auto simp: select_where_def)

lemma exists_where_iff: "exists_where P t \<longleftrightarrow> (\<exists>k v. (k, v) \<in> set t \<and> P k v)"
  by (auto simp: exists_where_def)

lemma exists_where_update:
  "exists_where Q (fst (update_where P f t)) \<longleftrightarrow>
     exists_where (\<lambda>k v. Q k (if P k v then f v else v)) t"
  by (simp only: exists_where_iff in_update_where) blast

lemma exists_where_const: "exists_where (\<lambda>k v. P k v \<and> Q) t \<longleftrightarrow> exists_where P t \<and> Q"
  by (auto simp: exists_where_iff)

lemma exists_where_kept:
  "(\<And>k v. Q k (if P k v then f v else v) = Q k v) \<Longrightarrow>
   exists_where Q (fst (update_where P f t)) = exists_where Q t"
  by (simp add: exists_where_update)

lemma exists_where_none:
  "(\<And>k v. \<not> Q k (if P k v then f v else v)) \<Longrightarrow> \<not> exists_where Q (fst (update_where P f t))"
  by (simp only: exists_where_update) (simp add: exists_where_iff)

lemma update_where_cong:
  "(\<And>k v. (k, v) \<in> set t \<Longrightarrow> P k v = Q k v) \<Longrightarrow> update_where P f t = update_where Q f t"
  by (auto simp: update_where_def intro!: arg_cong [where f = length] filter_cong)

lemma in_insert:
  "keyed t \<Longrightarrow> (k', w) \<in> set (fst (insert_on_conflict k v upd t)) \<longleftrightarrow>
     (if k' = k then
        w = (case map_of t k of None \<Rightarrow> v | Some old \<Rightarrow> (case upd old of None \<Rightarrow> old | Some new \<Rightarrow> new))
      else (k', w) \<in> set t)"
  using keyed_lookup [OF insert_keyed [of t k v upd], of k' w] keyed_lookup [of t k' w]
  by (auto simp: insert_lookup)

text \<open>Tables in which every row that was there is still there, up to \<open>R\<close>.\<close>

definition rows_grow :: "('v \<Rightarrow> 'v \<Rightarrow> bool) \<Rightarrow> ('k, 'v) tbl \<Rightarrow> ('k, 'v) tbl \<Rightarrow> bool" where
  "rows_grow R t t' \<longleftrightarrow> (\<forall>k r. map_of t k = Some r \<longrightarrow> (\<exists>r'. map_of t' k = Some r' \<and> R r r'))"

lemma rows_growD: "rows_grow R t t' \<Longrightarrow> map_of t k = Some r \<Longrightarrow> \<exists>r'. map_of t' k = Some r' \<and> R r r'"
  by (simp add: rows_grow_def)

lemma rows_grow_refl: "(\<And>r. R r r) \<Longrightarrow> rows_grow R t t"
  by (simp add: rows_grow_def)

lemma rows_grow_trans:
  assumes "\<And>a b c. R a b \<Longrightarrow> R b c \<Longrightarrow> R a c" and "rows_grow R t t'" and "rows_grow R t' t''"
  shows "rows_grow R t t''"
  unfolding rows_grow_def
proof (intro allI impI)
  fix k r assume "map_of t k = Some r"
  then obtain r' where r': "map_of t' k = Some r'" "R r r'" using rows_growD [OF assms(2)] by blast
  then obtain r'' where "map_of t'' k = Some r''" "R r' r''" using rows_growD [OF assms(3)] by blast
  with r'(2) assms(1) show "\<exists>r''. map_of t'' k = Some r'' \<and> R r r''" by blast
qed

lemma rows_grow_insert:
  "(\<And>r. R r r) \<Longrightarrow> (\<And>old new. map_of t k = Some old \<Longrightarrow> upd old = Some new \<Longrightarrow> R old new) \<Longrightarrow>
   rows_grow R t (fst (insert_on_conflict k v upd t))"
  by (auto simp: rows_grow_def insert_lookup split: option.splits)

lemma rows_grow_upd:
  "map_of t' = (map_of t)(k \<mapsto> v) \<Longrightarrow> (\<And>r. R r r) \<Longrightarrow> (\<And>old. map_of t k = Some old \<Longrightarrow> R old v) \<Longrightarrow>
   rows_grow R t t'"
  by (simp add: rows_grow_def)

section \<open>Loops that write one row per item\<close>

text \<open>
  The contract of a loop body that writes the row of one item into one table of the database and
  leaves the other rows of that table alone. After the loop over a list of items, a key holds the
  row that the last item with that key made, and every other key holds what it held.
\<close>

locale row_writer =
  fixes step :: "'db \<Rightarrow> 'i \<Rightarrow> 'e + 'db"
    and table :: "'db \<Rightarrow> ('k, 'v) tbl"
    and key :: "'i \<Rightarrow> 'k"
    and row :: "'i \<Rightarrow> 'v"
  assumes step_keyed: "step db i = Inr db' \<Longrightarrow> keyed (table db) \<Longrightarrow> keyed (table db')"
    and step_lookup: "step db i = Inr db' \<Longrightarrow> map_of (table db') = (map_of (table db))(key i \<mapsto> row i)"
begin

lemma steps_keyed: "try_fold step db is = Inr db' \<Longrightarrow> keyed (table db) \<Longrightarrow> keyed (table db')"
  by (rule try_fold_invariant [where P = "\<lambda>db. keyed (table db)"]) (auto intro: step_keyed)

lemma steps_lookup:
  "try_fold step db is = Inr db' \<Longrightarrow>
   map_of (table db') = map_of (table db) ++ map_of (map (\<lambda>i. (key i, row i)) (rev is))"
proof (induction "is" arbitrary: db)
  case (Cons i "is")
  then obtain db1 where "step db i = Inr db1" "try_fold step db1 is = Inr db'"
    by (auto simp: result_simps)
  with Cons.IH show ?case
    by (auto simp: step_lookup fun_eq_iff map_add_def split: option.splits)
qed simp

lemma steps_unique:
  assumes "try_fold step db is = Inr db'" and "distinct (map key is)" and "i \<in> set is"
  shows "map_of (table db') (key i) = Some (row i)"
proof -
  have "map_of (map (\<lambda>i. (key i, row i)) (rev is)) (key i) = Some (row i)"
    using assms(2,3) by (intro map_of_is_SomeI) (auto simp: rev_map [symmetric] comp_def)
  then show ?thesis by (simp add: steps_lookup [OF assms(1)])
qed

lemma steps_frame:
  assumes "try_fold step db is = Inr db'" and "k \<notin> key ` set is"
  shows "map_of (table db') k = map_of (table db) k"
proof -
  have "map_of (map (\<lambda>i. (key i, row i)) (rev is)) k = None"
    using assms(2) by (auto simp: map_of_eq_None_iff)
  then show ?thesis by (simp add: steps_lookup [OF assms(1)] map_add_def)
qed

end

end
