(* ===== verification/Store_State.thy ===== *)
theory Store_State
  imports Sql_Table Store_Types Byte_Codec
begin

text \<open>
  What all operations of the store share (\<open>store.rs\<close>): its errors, the conversions between \<open>u64\<close> and
  the signed columns, the exact-length arrays, and the \<open>indexer_state\<close> table that hands out the IPNS
  sequence numbers of both publication channels (with \<open>publication_sequence.rs\<close>).

  A database failure that is not caused by the statement itself (a lost connection) is not modelled.
  Decoding hexadecimal text belongs to another crate: it is the argument \<open>hex_decode\<close>.

  Shown: the sequence numbers that are reserved strictly increase, whatever is recorded in between.
\<close>

datatype store_error =
    Sqlx sql_error
  | Hex string
  | HexLength string nat nat
  | StoreIntegerOutOfRange string string
  | ChainTipRegression bytes32 u64 string u64
  | InvalidEventType int
  | PoiEventConflict u64 u64
  | IncompletePoiEvent u64 u64
  | InvalidCommitmentFamily string
  | DuplicateCommitmentTreePosition u32 u64
  | CommitmentTreePositionOutOfRange u32 u64 u64
  | MissingBlockTimestamp u64 bytes32
  | PoiTxidVersionMismatch string string
  | PoiTxidVersionAdoptionRequired string

type_synonym 'a stored = "store_error + 'a"

definition u64_to_i64 :: "u64 \<Rightarrow> string \<Rightarrow> i64 stored" where
  "u64_to_i64 v field = ok_or (StoreIntegerOutOfRange field (show_nat (unat v))) (i64_of_u64 v)"

definition i64_to_u64 :: "i64 \<Rightarrow> string \<Rightarrow> u64 stored" where
  "i64_to_u64 x field = ok_or (StoreIntegerOutOfRange field (show_int x)) (word_of_i64 x)"

definition i64_to_u32 :: "i64 \<Rightarrow> string \<Rightarrow> u32 stored" where
  "i64_to_u32 x field = ok_or (StoreIntegerOutOfRange field (show_int x)) (word_of_i64 x)"

text \<open>A byte string of \<open>N\<close> bytes as the word they spell in big-endian order.\<close>

definition be_value :: "u8 list \<Rightarrow> nat" where
  "be_value bs = foldl (\<lambda>n b. 256 * n + unat b) 0 bs"

definition exact_array :: "string \<Rightarrow> u8 list \<Rightarrow> 'a::len word stored" where
  "exact_array field bs =
     (if length bs * 8 = LENGTH('a) then Inr (word_of_nat (be_value bs))
      else Inl (HexLength field (LENGTH('a) div 8) (length bs)))"

definition strip_prefix_0x :: "string \<Rightarrow> string" where
  "strip_prefix_0x s = (if take 2 s = ''0x'' then drop 2 s else s)"

definition decode_fixed_hex :: "(string \<Rightarrow> u8 list option) \<Rightarrow> string \<Rightarrow> string \<Rightarrow> 'a::len word stored" where
  "decode_fixed_hex hex_decode field value =
     and_then (ok_or (Hex field) (hex_decode (strip_prefix_0x value))) (\<lambda>bs. exact_array field bs)"

lemma u64_to_i64_iff [result_simps]:
  "u64_to_i64 v field = Inr x \<longleftrightarrow> x = int (unat v) \<and> unat v < 2 ^ 63"
  by (simp add: u64_to_i64_def result_simps checked_simps)

lemma u64_to_i64_Inl [result_simps]:
  "u64_to_i64 v field = Inl e \<longleftrightarrow>
     2 ^ 63 \<le> unat v \<and> e = StoreIntegerOutOfRange field (show_nat (unat v))"
  by (auto simp: u64_to_i64_def result_simps checked_simps)

lemma be_value_eq: "be_value bs = le_value (rev bs)"
proof -
  have "foldl (\<lambda>n b. 256 * n + unat b) a bs = a * 256 ^ length bs + le_value (rev bs)" for a
    by (induction bs arbitrary: a) (simp_all add: le_value_snoc algebra_simps)
  from this [of 0] show ?thesis by (simp add: be_value_def)
qed

lemma be_value_append: "be_value (xs @ ys) = be_value xs * 256 ^ length ys + be_value ys"
proof -
  have "le_value (as @ bs) = le_value as + 256 ^ length as * le_value bs" for as bs
    by (induction as) (simp_all add: distrib_left)
  then show ?thesis by (simp add: be_value_eq)
qed

lemma be_value_be_bytes: "8 dvd LENGTH('a) \<Longrightarrow> be_value (be_bytes (w :: 'a::len word)) = unat w"
  by (simp add: be_value_eq be_bytes_def le_value_le_bytes)

lemma i64_to_u64_iff [result_simps]: "i64_to_u64 x field = Inr v \<longleftrightarrow> x = int (unat v)"
  by (simp add: i64_to_u64_def result_simps checked_simps)

lemma i64_to_u32_iff [result_simps]: "i64_to_u32 x field = Inr v \<longleftrightarrow> x = int (unat v)"
  by (simp add: i64_to_u32_def result_simps checked_simps)

section \<open>Sequence numbers\<close>

definition IPNS_SEQUENCE_STATE_KEY :: string where
  "IPNS_SEQUENCE_STATE_KEY = ''ipns_last_sequence''"

definition CHAIN_INDEXED_IPNS_SEQUENCE_STATE_KEY :: string where
  "CHAIN_INDEXED_IPNS_SEQUENCE_STATE_KEY = ''chain_indexed_ipns_last_sequence''"

type_synonym state_table = "(string, i64) tbl"

definition raise_state :: "string \<Rightarrow> i64 \<Rightarrow> state_table \<Rightarrow> state_table" where
  "raise_state key v t = fst (insert_on_conflict key v (\<lambda>old. Some (max old v)) t)"

definition last_state_sequence :: "string \<Rightarrow> string \<Rightarrow> state_table \<Rightarrow> u64 option stored" where
  "last_state_sequence key field t =
     (case map_of t key of
        None \<Rightarrow> Inr None
      | Some v \<Rightarrow> and_then (i64_to_u64 v field) (\<lambda>s. Inr (Some s)))"

definition record_state_sequence :: "string \<Rightarrow> string \<Rightarrow> u64 \<Rightarrow> state_table \<Rightarrow> state_table stored" where
  "record_state_sequence key field sequence t =
     and_then (u64_to_i64 sequence field) (\<lambda>v. Inr (raise_state key v t))"

definition reserve_poi_publication_sequence :: "u64 \<Rightarrow> state_table \<Rightarrow> (u64 \<times> state_table) stored" where
  "reserve_poi_publication_sequence minimum t =
     and_then (u64_to_i64 minimum ''poi_publication_sequence'') (\<lambda>m.
       let v = (case map_of t IPNS_SEQUENCE_STATE_KEY of None \<Rightarrow> m | Some old \<Rightarrow> max (old + 1) m)
       in and_then (ensure (case map_of t IPNS_SEQUENCE_STATE_KEY of
                        None \<Rightarrow> True | Some old \<Rightarrow> bigint_ok (old + 1))
            (Sqlx NumericOutOfRange)) (\<lambda>_.
          and_then (i64_to_u64 v ''poi_publication_sequence'') (\<lambda>s.
            Inr (s, fst (insert_on_conflict IPNS_SEQUENCE_STATE_KEY m
                  (\<lambda>old. Some (max (old + 1) m)) t)))))"

definition last_ipns_sequence :: "state_table \<Rightarrow> u64 option stored" where
  "last_ipns_sequence t = last_state_sequence IPNS_SEQUENCE_STATE_KEY ''ipns_last_sequence'' t"

definition record_ipns_sequence :: "u64 \<Rightarrow> state_table \<Rightarrow> state_table stored" where
  "record_ipns_sequence sequence t =
     record_state_sequence IPNS_SEQUENCE_STATE_KEY ''ipns_last_sequence'' sequence t"

definition last_chain_indexed_ipns_sequence :: "state_table \<Rightarrow> u64 option stored" where
  "last_chain_indexed_ipns_sequence t =
     last_state_sequence CHAIN_INDEXED_IPNS_SEQUENCE_STATE_KEY ''chain_indexed_ipns_last_sequence'' t"

definition record_chain_indexed_ipns_sequence :: "u64 \<Rightarrow> state_table \<Rightarrow> state_table stored" where
  "record_chain_indexed_ipns_sequence sequence t =
     record_state_sequence CHAIN_INDEXED_IPNS_SEQUENCE_STATE_KEY ''chain_indexed_ipns_last_sequence''
       sequence t"

text \<open>\<open>PoiPublicationSequenceAllocator::reserve_cycle\<close> wraps the reserved number in a lease.\<close>

datatype poi_publication_sequence_lease = SequenceLease (lease_sequence: u64)

definition reserve_cycle :: "u64 \<Rightarrow> state_table \<Rightarrow> (poi_publication_sequence_lease \<times> state_table) stored" where
  "reserve_cycle minimum t =
     and_then (reserve_poi_publication_sequence minimum t) (\<lambda>(s, t'). Inr (SequenceLease s, t'))"

lemma raise_state_lookup [sql_simps]:
  "map_of (raise_state key v t) k =
     (if k = key then Some (case map_of t key of None \<Rightarrow> v | Some old \<Rightarrow> max old v) else map_of t k)"
  by (simp add: raise_state_def sql_simps split: option.splits)

lemma reserve_sequence:
  assumes "reserve_poi_publication_sequence minimum t = Inr (s, t')"
  shows "map_of t' IPNS_SEQUENCE_STATE_KEY = Some (int (unat s))" and "minimum \<le> s"
    and "map_of t IPNS_SEQUENCE_STATE_KEY = Some old \<Longrightarrow> old < int (unat s)"
  using assms
  by (auto simp: reserve_poi_publication_sequence_def Let_def result_simps sql_simps word_le_def
      split: option.splits)

text \<open>A history of the sequence counter: reservations for publication cycles, and sequence numbers
  recorded by other paths.\<close>

datatype sequence_op = Reserve u64 | RecordSequence u64

fun run_sequence_ops :: "sequence_op list \<Rightarrow> state_table \<Rightarrow> u64 list" where
  "run_sequence_ops [] t = []"
| "run_sequence_ops (Reserve minimum # ops) t =
     (case reserve_cycle minimum t of
        Inl _ \<Rightarrow> run_sequence_ops ops t
      | Inr (lease, t') \<Rightarrow> lease_sequence lease # run_sequence_ops ops t')"
| "run_sequence_ops (RecordSequence s # ops) t =
     (case record_ipns_sequence s t of
        Inl _ \<Rightarrow> run_sequence_ops ops t
      | Inr t' \<Rightarrow> run_sequence_ops ops t')"

lemma record_sequence_grows:
  assumes "record_ipns_sequence s t = Inr t'"
  shows "\<exists>v. map_of t' IPNS_SEQUENCE_STATE_KEY = Some v \<and>
    (\<forall>old. map_of t IPNS_SEQUENCE_STATE_KEY = Some old \<longrightarrow> old \<le> v)"
  using assms
  by (auto simp: record_ipns_sequence_def record_state_sequence_def result_simps sql_simps
      split: option.splits)

text \<open>C25: Publication sequence numbers never repeat: whatever minimum each cycle asks for and whatever
  other paths record in between, every sequence that is reserved is larger than all the sequences
  reserved before, and larger than the sequence that was stored when the history began.\<close>

theorem reserved_sequences_increase:
  "sorted_wrt (<) (run_sequence_ops ops t)
   \<and> (\<forall>s \<in> set (run_sequence_ops ops t). \<forall>old.
        map_of t IPNS_SEQUENCE_STATE_KEY = Some old \<longrightarrow> old < int (unat s))"
proof (induction ops t rule: run_sequence_ops.induct)
  case (2 minimum ops t)
  show ?case
  proof (cases "reserve_cycle minimum t")
    case (Inr r)
    then obtain s t' where r: "reserve_poi_publication_sequence minimum t = Inr (s, t')"
      and [simp]: "reserve_cycle minimum t = Inr (SequenceLease s, t')"
      by (auto simp: reserve_cycle_def result_simps)
    have IH: "sorted_wrt (<) (run_sequence_ops ops t')"
      "\<And>u. u \<in> set (run_sequence_ops ops t') \<Longrightarrow> s < u"
      using "2.IH"(2) [of "(SequenceLease s, t')" "SequenceLease s" t'] reserve_sequence(1) [OF r]
      by (simp_all add: word_less_def [of s])
    moreover have "uint s < uint u" if "u \<in> set (run_sequence_ops ops t')" for u
      using IH(2) [OF that] by (simp add: word_less_def)
    ultimately show ?thesis
      using reserve_sequence(3) [OF r] by (auto intro: less_trans)
  qed (use 2 in simp)
next
  case (3 s ops t)
  then show ?case
    using record_sequence_grows [of s t] by (force split: sum.splits)
qed simp

theorem reserved_sequences_increase_witness:
  "sorted_wrt (<) [7 :: u64, 8, 21] \<and> run_sequence_ops [Reserve 7, Reserve 3, RecordSequence 20, Reserve 5] [] = [7, 8, 21]"
proof -
  have "run_sequence_ops [Reserve 7, Reserve 3, RecordSequence 20, Reserve 5] [] = [7, 8, 21]"
    by (simp add: reserve_cycle_def reserve_poi_publication_sequence_def Let_def u64_to_i64_def
        i64_of_u64_def i64_to_u64_def word_of_i64_def try_from_len_def insert_on_conflict_def bigint_ok_def
        record_ipns_sequence_def record_state_sequence_def raise_state_def)
  then show ?thesis
    using reserved_sequences_increase [of "[Reserve 7, Reserve 3, RecordSequence 20, Reserve 5]" "[]"]
    by simp
qed

end
