(* ===== verification/Publication_Audit.thy ===== *)
theory Publication_Audit
  imports Store_State Chunk_Format "HOL-Library.List_Lexorder" "HOL-Library.Char_ord"
begin

text \<open>
  The audit log of publications (\<open>audit.rs\<close>): which artifacts and manifests were pinned, which
  manifest an IPNS name points to, what was superseded, abandoned or unpinned, for the two channels
  "chain-indexed" and "POI v4", and the retention sweep that unpins what is stale.

  \<^item> The tables are those of the schema in \<open>store.rs\<close>: \<open>published_indexed_artifacts\<close>,
    \<open>published_indexed_manifests\<close> and its edge table, the POI v4 counterparts with their manifest
    entries, \<open>pin_cleanup_debt\<close> and \<open>indexer_state\<close>. An artifact table is keyed by its \<open>UNIQUE\<close>
    columns, a manifest table by its serial id. Constraints of the schema are checked where a
    statement can violate them (\<open>CheckViolation\<close>, \<open>UniqueViolation\<close>).
  \<^item> A \<open>TIMESTAMPTZ\<close> is its number of microseconds since the epoch; every operation takes the
    database's \<open>now()\<close>. A \<open>SystemTime\<close> is its number of nanoseconds since the epoch.
  \<^item> Cids are their canonical text. Parsing one, the JSON and the validation of POI manifest entries
    and of indexed manifests belong to other crates: the argument record \<open>audit_lib\<close>.
  \<^item> An \<open>IpfsClient\<close> is a function that unpins a cid in a provider state.
\<close>

type_synonym timestamptz = int
type_synonym system_time = int

datatype audit_error =
    AuditSqlx sql_error
  | AuditInvalidCid string
  | AuditIntegerOutOfRange string string
  | TimeBeforeUnixEpoch
  | UnrecordedManifest cid
  | SupersededManifest cid
  | UnpinnedManifest cid
  | UnresolvedPendingManifest string cid u64
  | AmbiguousPendingManifests string nat
  | PendingManifestAuthorizationMismatch string cid u64
  | PendingManifestNotRecoverable string cid u64 string
  | ReconciliationSequenceNotNewer string cid u64 u64
  | MissingIndexedManifestArtifacts nat nat
  | MissingIndexedManifestBody cid
  | IndexedManifestBodyMismatch cid
  | AuditIndexedManifest string
  | IndexedManifestSequenceMismatch cid u64 u64
  | AuditJson
  | PoiArtifactContract string
  | PoiArtifactConflict cid u64
  | MissingManifestArtifacts nat nat

section \<open>Tables\<close>

record manifest_row =
  mr_cid :: cid
  mr_ipns_sequence :: i64
  mr_byte_size :: i64
  mr_content_hash :: bytes32
  mr_format_version :: int
  mr_manifest_json :: "string option"
  mr_published_at :: timestamptz
  mr_ipns_published_at :: "timestamptz option"
  mr_superseded_at :: "timestamptz option"
  mr_unpinned_at :: "timestamptz option"
  mr_reconciliation_invalidated_at :: "timestamptz option"

record artifact_row =
  ar_byte_size :: i64
  ar_content_hash :: bytes32
  ar_format_version :: int
  ar_published_at :: timestamptz
  ar_last_referenced_at :: timestamptz
  ar_unpinned_at :: "timestamptz option"

record poi_artifact_row = artifact_row +
  ar_end_root :: "bytes32 option"
  ar_descriptor_json :: string

record indexed_artifact_key =
  ik_artifact_kind :: string
  ik_dataset_kind :: string
  ik_chain_type :: int
  ik_chain_id :: i64
  ik_railgun_contract :: address
  ik_range_kind :: string
  ik_range_start :: i64
  ik_range_end :: i64
  ik_cid :: cid

record poi_artifact_key =
  pk_artifact_kind :: string
  pk_list_key :: bytes32
  pk_chain_type :: int
  pk_chain_id :: i64
  pk_txid_version :: string
  pk_range_start :: i64
  pk_range_end :: i64
  pk_cid :: cid

record debt_row =
  debt_provider :: string
  debt_attempts :: i64
  debt_last_error :: string
  debt_created_at :: timestamptz

record publication_db =
  indexed_artifacts :: "(indexed_artifact_key, artifact_row) tbl"
  indexed_manifests :: "(nat, manifest_row) tbl"
  indexed_manifest_artifacts :: "(nat \<times> cid) list"
  next_indexed_manifest_id :: nat
  poi_artifacts :: "(poi_artifact_key, poi_artifact_row) tbl"
  poi_manifests :: "(nat, manifest_row) tbl"
  poi_manifest_entries :: "(nat \<times> bytes32 \<times> int \<times> i64 \<times> string, string) tbl"
  poi_manifest_artifacts :: "(nat \<times> cid) list"
  next_poi_manifest_id :: nat
  pin_cleanup_debt :: "(cid, debt_row) tbl"
  indexer_state :: state_table

record poi_scope =
  ps_list_key :: bytes32
  ps_chain_type :: u8
  ps_chain_id :: u64
  ps_txid_version :: string

record ('entry, 'manifest) audit_lib =
  parse_cid_text :: "string \<Rightarrow> cid option"
  entry_scope :: "'entry \<Rightarrow> poi_scope"
  entry_validate :: "'entry \<Rightarrow> string + unit"
  entry_to_json :: "'entry \<Rightarrow> string option"
  entry_from_json :: "string \<Rightarrow> 'entry option"
  entry_bridge_cids :: "'entry \<Rightarrow> cid list"
  json_checkpoint_catalog_cid :: "string \<Rightarrow> cid option"
  manifest_from_json :: "string \<Rightarrow> 'manifest option"
  verify_trusted_signature :: "'manifest \<Rightarrow> bytes32 \<Rightarrow> string + unit"
  manifest_sequence :: "'manifest \<Rightarrow> u64"
  text_bytes :: "string \<Rightarrow> u8 list"
  content_hash :: "u8 list \<Rightarrow> bytes32"

section \<open>Conversions\<close>

definition audit_u64_to_i64 :: "u64 \<Rightarrow> string \<Rightarrow> audit_error + i64" where
  "audit_u64_to_i64 v field =
     ok_or (AuditIntegerOutOfRange field (show_nat (unat v))) (i64_of_u64 v)"

definition audit_i64_to_u64 :: "i64 \<Rightarrow> string \<Rightarrow> audit_error + u64" where
  "audit_i64_to_u64 x field = ok_or (AuditIntegerOutOfRange field (show_int x)) (word_of_i64 x)"

definition parse_cid :: "('entry, 'manifest) audit_lib \<Rightarrow> string \<Rightarrow> audit_error + cid" where
  "parse_cid lib text = ok_or (AuditInvalidCid text) (parse_cid_text lib text)"

text \<open>\<open>SystemTime\<close> holds whole seconds in an \<open>i64\<close>, so subtracting a duration from it can fail only
  below that range.\<close>

definition system_time_checked_sub :: "system_time \<Rightarrow> nat \<Rightarrow> system_time option" where
  "system_time_checked_sub t d =
     (if - (2 ^ 63) * 10 ^ 9 \<le> t - int d then Some (t - int d) else None)"

definition unix_seconds :: "system_time \<Rightarrow> audit_error + i64" where
  "unix_seconds t =
     (if t < 0 then Inl TimeBeforeUnixEpoch
      else audit_u64_to_i64 (word_of_int (t div 10 ^ 9)) ''retention cutoff'')"

definition to_timestamp :: "i64 \<Rightarrow> timestamptz" where
  "to_timestamp secs = secs * 10 ^ 6"

datatype indexed_artifact_publication_kind = Chunk | Catalog

datatype poi_artifact_publication_kind =
  CheckpointChunk | CheckpointCatalog | CurrentTail | Bridge | BlockedShields

fun indexed_artifact_publication_kind_str :: "indexed_artifact_publication_kind \<Rightarrow> string" where
  "indexed_artifact_publication_kind_str Chunk = ''chunk''"
| "indexed_artifact_publication_kind_str Catalog = ''catalog''"

fun poi_artifact_kind_str :: "poi_artifact_publication_kind \<Rightarrow> string" where
  "poi_artifact_kind_str CheckpointChunk = ''checkpoint_chunk''"
| "poi_artifact_kind_str CheckpointCatalog = ''checkpoint_catalog''"
| "poi_artifact_kind_str CurrentTail = ''current_tail''"
| "poi_artifact_kind_str Bridge = ''bridge''"
| "poi_artifact_kind_str BlockedShields = ''blocked_shields''"

definition poi_artifact_range_columns :: "(u64 \<times> u64) option \<Rightarrow> audit_error + i64 \<times> i64" where
  "poi_artifact_range_columns r =
     (case r of
        None \<Rightarrow> Inr (- 1, - 1)
      | Some (start_index, end_index) \<Rightarrow>
          and_then (audit_u64_to_i64 start_index ''range_start'') (\<lambda>s.
          and_then (audit_u64_to_i64 end_index ''range_end'') (\<lambda>e.
            Inr (s, e))))"

fun indexed_dataset_kind_str :: "indexed_dataset_kind \<Rightarrow> string" where
  "indexed_dataset_kind_str WalletScan = ''wallet_scan''"
| "indexed_dataset_kind_str Commitments = ''commitments''"
| "indexed_dataset_kind_str MerkleCheckpoint = ''merkle_checkpoint''"
| "indexed_dataset_kind_str PublicTxid = ''public_txid''"

fun indexed_range_kind_str :: "artifact_range_kind \<Rightarrow> string" where
  "indexed_range_kind_str BlockRange = ''block''"
| "indexed_range_kind_str TxidIndexRange = ''txid_index''"
| "indexed_range_kind_str TreePositionRange = ''tree_position''"
| "indexed_range_kind_str PoiEventIndexRange = ''poi_event_index''"

fun chain_type_discriminant :: "chain_type \<Rightarrow> int" where
  "chain_type_discriminant Evm = 0"

section \<open>Manifest rows\<close>

definition pending_manifest :: "manifest_row \<Rightarrow> bool" where
  "pending_manifest m \<longleftrightarrow>
     mr_ipns_published_at m = None \<and> mr_superseded_at m = None \<and> mr_unpinned_at m = None
     \<and> mr_reconciliation_invalidated_at m = None"

definition reject_unresolved_pending ::
  "string \<Rightarrow> (nat, manifest_row) tbl \<Rightarrow> audit_error + unit" where
  "reject_unresolved_pending channel t =
     (case map snd (select_where (\<lambda>_. pending_manifest) t) of
        [] \<Rightarrow> Inr ()
      | m # _ \<Rightarrow>
          and_then (audit_i64_to_u64 (mr_ipns_sequence m) ''ipns_sequence'') (\<lambda>sequence.
            Inl (UnresolvedPendingManifest channel (mr_cid m) sequence)))"

definition ensure_newer_than_invalidated_pending ::
  "string \<Rightarrow> (nat, manifest_row) tbl \<Rightarrow> cid \<Rightarrow> i64 \<Rightarrow> audit_error + unit" where
  "ensure_newer_than_invalidated_pending channel t cid sequence =
     (let invalidated =
        map (\<lambda>(_, m). mr_ipns_sequence m)
          (select_where (\<lambda>_ m. mr_reconciliation_invalidated_at m \<noteq> None \<and> mr_superseded_at m = None) t)
      in if invalidated \<noteq> [] \<and> sequence \<le> Max (set invalidated)
         then and_then (audit_i64_to_u64 sequence ''sequence'') (\<lambda>s.
              and_then (audit_i64_to_u64 (Max (set invalidated)) ''invalidated_sequence'') (\<lambda>i.
                Inl (ReconciliationSequenceNotNewer channel cid s i)))
         else Inr ())"

text \<open>\<open>INSERT INTO .. RETURNING id\<close> under the unique index on pending manifests.\<close>

definition insert_manifest ::
  "nat \<Rightarrow> manifest_row \<Rightarrow> (nat, manifest_row) tbl \<Rightarrow> audit_error + (nat, manifest_row) tbl" where
  "insert_manifest manifest_id m t =
     and_then (ensure (\<not> exists_where (\<lambda>_. pending_manifest) t) (AuditSqlx UniqueViolation)) (\<lambda>_.
       Inr (t @ [(manifest_id, m)]))"

definition new_manifest ::
  "timestamptz \<Rightarrow> cid \<Rightarrow> i64 \<Rightarrow> i64 \<Rightarrow> bytes32 \<Rightarrow> int \<Rightarrow> string option \<Rightarrow> manifest_row" where
  "new_manifest now cid sequence byte_size hash version json =
     \<lparr>mr_cid = cid, mr_ipns_sequence = sequence, mr_byte_size = byte_size, mr_content_hash = hash,
      mr_format_version = version, mr_manifest_json = json, mr_published_at = now,
      mr_ipns_published_at = None, mr_superseded_at = None, mr_unpinned_at = None,
      mr_reconciliation_invalidated_at = None\<rparr>"

definition insert_edges :: "nat \<Rightarrow> cid list \<Rightarrow> (nat \<times> cid) list \<Rightarrow> (nat \<times> cid) list" where
  "insert_edges manifest_id cids edges =
     fold (\<lambda>c es. if (manifest_id, c) \<in> set es then es else es @ [(manifest_id, c)]) cids edges"

text \<open>A manifest row of the given cid and sequence that can still be activated.\<close>

definition activatable :: "cid \<Rightarrow> i64 \<Rightarrow> manifest_row \<Rightarrow> bool" where
  "activatable cid sequence m \<longleftrightarrow>
     mr_cid m = cid \<and> mr_ipns_sequence m = sequence \<and> mr_superseded_at m = None
     \<and> mr_unpinned_at m = None \<and> mr_reconciliation_invalidated_at m = None"

definition activate :: "timestamptz \<Rightarrow> manifest_row \<Rightarrow> manifest_row" where
  "activate now m =
     m\<lparr>mr_ipns_published_at := (case mr_ipns_published_at m of None \<Rightarrow> Some now | Some t \<Rightarrow> Some t)\<rparr>"

section \<open>Cleanup debt and references\<close>

definition record_pin_cleanup_debt ::
  "timestamptz \<Rightarrow> cid \<Rightarrow> string \<Rightarrow> string \<Rightarrow> publication_db \<Rightarrow> publication_db" where
  "record_pin_cleanup_debt now cid provider error db =
     db\<lparr>pin_cleanup_debt :=
       fst (insert_on_conflict cid
         \<lparr>debt_provider = provider, debt_attempts = 0, debt_last_error = error, debt_created_at = now\<rparr>
         (\<lambda>old. Some (old\<lparr>debt_provider := provider, debt_last_error := error\<rparr>))
         (pin_cleanup_debt db))\<rparr>"

definition edge_to ::
  "(manifest_row \<Rightarrow> bool) \<Rightarrow> (nat, manifest_row) tbl \<Rightarrow> (nat \<times> cid) list \<Rightarrow> cid \<Rightarrow> bool" where
  "edge_to P manifests edges cid \<longleftrightarrow>
     (\<exists>(i, c) \<in> set edges. c = cid \<and> exists_where (\<lambda>j m. j = i \<and> P m) manifests)"

definition publication_cid_is_referenced :: "publication_db \<Rightarrow> cid \<Rightarrow> bool" where
  "publication_cid_is_referenced db cid \<longleftrightarrow>
     exists_where (\<lambda>k a. ik_cid k = cid \<and> ar_unpinned_at a = None) (indexed_artifacts db)
     \<or> exists_where (\<lambda>_ m. mr_cid m = cid \<and> mr_unpinned_at m = None) (indexed_manifests db)
     \<or> exists_where (\<lambda>k a. pk_cid k = cid \<and> ar_unpinned_at a = None) (poi_artifacts db)
     \<or> exists_where (\<lambda>_ m. mr_cid m = cid \<and> mr_unpinned_at m = None) (poi_manifests db)
     \<or> edge_to (\<lambda>m. mr_unpinned_at m = None) (indexed_manifests db) (indexed_manifest_artifacts db) cid
     \<or> edge_to (\<lambda>m. mr_unpinned_at m = None) (poi_manifests db) (poi_manifest_artifacts db) cid"

section \<open>Abandoning a pending POI manifest\<close>

definition recovery_state :: "manifest_row \<Rightarrow> string" where
  "recovery_state m =
     (if mr_ipns_published_at m \<noteq> None then ''active''
      else if mr_superseded_at m \<noteq> None then ''superseded''
      else if mr_unpinned_at m \<noteq> None then ''unpinned''
      else if mr_reconciliation_invalidated_at m \<noteq> None then ''already invalidated''
      else ''not pending'')"

definition invalidate_pending_poi_manifest_reconciliation ::
  "timestamptz \<Rightarrow> cid \<Rightarrow> u64 \<Rightarrow> publication_db \<Rightarrow> audit_error + publication_db" where
  "invalidate_pending_poi_manifest_reconciliation now cid sequence_u64 db =
     and_then (audit_u64_to_i64 sequence_u64 ''sequence'') (\<lambda>sequence.
       case sort_key fst (select_where (\<lambda>_. pending_manifest) (poi_manifests db)) of
         [] \<Rightarrow>
           (case sort_key fst (select_where (\<lambda>_ m. mr_cid m = cid \<and> mr_ipns_sequence m = sequence)
                   (poi_manifests db)) of
              [] \<Rightarrow> Inl (PendingManifestAuthorizationMismatch ''v4'' cid sequence_u64)
            | [(_, m)] \<Rightarrow>
                Inl (PendingManifestNotRecoverable ''v4'' cid sequence_u64 (recovery_state m))
            | ms \<Rightarrow> Inl (AmbiguousPendingManifests ''v4'' (length ms)))
       | [(i, m)] \<Rightarrow>
           (if mr_cid m \<noteq> cid \<or> mr_ipns_sequence m \<noteq> sequence
            then Inl (PendingManifestAuthorizationMismatch ''v4'' cid sequence_u64)
            else
              let (manifests, affected) =
                update_where (\<lambda>j m. j = i \<and> pending_manifest m)
                  (\<lambda>m. m\<lparr>mr_reconciliation_invalidated_at := Some now\<rparr>) (poi_manifests db)
              in if affected \<noteq> 1
                 then and_then (audit_i64_to_u64 (mr_ipns_sequence m) ''ipns_sequence'') (\<lambda>s.
                        Inl (PendingManifestAuthorizationMismatch ''v4'' (mr_cid m) s))
                 else Inr (db\<lparr>poi_manifests := manifests,
                             indexer_state :=
                               raise_state IPNS_SEQUENCE_STATE_KEY sequence (indexer_state db)\<rparr>))
       | ms \<Rightarrow> Inl (AmbiguousPendingManifests ''v4'' (length ms)))"

definition abandon_pending_poi_v4_manifest_reconciliation ::
  "timestamptz \<Rightarrow> cid \<Rightarrow> u64 \<Rightarrow> cid option \<Rightarrow> publication_db \<Rightarrow> audit_error + publication_db" where
  "abandon_pending_poi_v4_manifest_reconciliation now cid sequence_u64 unavailable db =
     and_then (invalidate_pending_poi_manifest_reconciliation now cid sequence_u64 db) (\<lambda>db.
     and_then (audit_u64_to_i64 sequence_u64 ''sequence'') (\<lambda>sequence.
       Inr (case unavailable of
              None \<Rightarrow> db
            | Some artifact_cid \<Rightarrow>
                db\<lparr>poi_artifacts := fst (update_where
                  (\<lambda>k a. pk_cid k = artifact_cid \<and> ar_unpinned_at a = None
                     \<and> edge_to (\<lambda>m. mr_cid m = cid \<and> mr_ipns_sequence m = sequence
                                  \<and> mr_reconciliation_invalidated_at m \<noteq> None)
                         (poi_manifests db) (poi_manifest_artifacts db) (pk_cid k))
                  (\<lambda>a. a\<lparr>ar_unpinned_at := Some now\<rparr>) (poi_artifacts db))\<rparr>)))"

section \<open>Pending and active publications\<close>

record pending_manifest_row =
  pm_cid :: cid
  pm_sequence :: u64
  pm_artifact_cids :: "cid list"

record 'manifest pending_indexed_manifest = pending_manifest_row +
  pm_manifest :: 'manifest
  pm_manifest_json :: string

definition edges_of :: "nat \<Rightarrow> (nat \<times> cid) list \<Rightarrow> cid list" where
  "edges_of manifest_id edges = sort (map snd (filter (\<lambda>(i, _). i = manifest_id) edges))"

definition newest_first :: "(nat, manifest_row) tbl \<Rightarrow> (nat, manifest_row) tbl" where
  "newest_first t = sort_key (\<lambda>(i, m). (- mr_ipns_sequence m, - int i)) t"

definition pending_manifest_publication ::
  "publication_db \<Rightarrow> audit_error + pending_manifest_row option" where
  "pending_manifest_publication db =
     (case take 2 (newest_first (select_where (\<lambda>_. pending_manifest) (poi_manifests db))) of
        [] \<Rightarrow> Inr None
      | [(i, m)] \<Rightarrow>
          and_then (audit_i64_to_u64 (mr_ipns_sequence m) ''ipns_sequence'') (\<lambda>sequence.
            Inr (Some \<lparr>pm_cid = mr_cid m, pm_sequence = sequence,
                       pm_artifact_cids = edges_of i (poi_manifest_artifacts db)\<rparr>))
      | ms \<Rightarrow> Inl (AmbiguousPendingManifests ''v4'' (length ms)))"

definition pending_indexed_manifest_publication ::
  "('entry, 'manifest) audit_lib \<Rightarrow> bytes32 \<Rightarrow> publication_db
   \<Rightarrow> audit_error + 'manifest pending_indexed_manifest option" where
  "pending_indexed_manifest_publication lib trusted db =
     (case take 2 (newest_first (select_where (\<lambda>_. pending_manifest) (indexed_manifests db))) of
        [] \<Rightarrow> Inr None
      | [(i, m)] \<Rightarrow>
          and_then (ok_or (MissingIndexedManifestBody (mr_cid m)) (mr_manifest_json m)) (\<lambda>json.
          and_then (ensure (length (text_bytes lib json) < 2 ^ 63)
            (AuditIntegerOutOfRange ''manifest_json byte size''
               (show_nat (length (text_bytes lib json))))) (\<lambda>_.
          and_then (ensure (int (length (text_bytes lib json)) = mr_byte_size m
              \<and> content_hash lib (text_bytes lib json) = mr_content_hash m)
            (IndexedManifestBodyMismatch (mr_cid m))) (\<lambda>_.
          and_then (ok_or AuditJson (manifest_from_json lib json)) (\<lambda>manifest.
          and_then (map_err AuditIndexedManifest (verify_trusted_signature lib manifest trusted)) (\<lambda>_.
          and_then (audit_i64_to_u64 (mr_ipns_sequence m) ''ipns_sequence'') (\<lambda>sequence.
          and_then (ensure (manifest_sequence lib manifest = sequence)
            (IndexedManifestSequenceMismatch (mr_cid m) sequence (manifest_sequence lib manifest))) (\<lambda>_.
            Inr (Some \<lparr>pm_cid = mr_cid m, pm_sequence = sequence,
                       pm_artifact_cids = edges_of i (indexed_manifest_artifacts db),
                       pm_manifest = manifest, pm_manifest_json = json\<rparr>))))))))
      | ms \<Rightarrow> Inl (AmbiguousPendingManifests ''chain-indexed'' (length ms)))"

text \<open>\<open>EXTRACT(EPOCH FROM t)::BIGINT\<close> rounds to the nearest second.\<close>

definition epoch_seconds :: "timestamptz \<Rightarrow> i64" where
  "epoch_seconds t =
     (if 0 \<le> t then (t + 500000) div 10 ^ 6 else - ((500000 - t) div 10 ^ 6))"

definition i64_to_system_time :: "i64 \<Rightarrow> string \<Rightarrow> audit_error + system_time" where
  "i64_to_system_time x field =
     (if 0 \<le> x then Inr (x * 10 ^ 9) else Inl (AuditIntegerOutOfRange field (show_int x)))"

record 'entry active_poi_manifest =
  am_cid :: cid
  am_sequence :: u64
  am_ipns_published_at :: system_time
  am_entries :: "'entry list"

definition active_manifest :: "manifest_row \<Rightarrow> bool" where
  "active_manifest m \<longleftrightarrow>
     mr_ipns_published_at m \<noteq> None \<and> mr_superseded_at m = None \<and> mr_unpinned_at m = None"

definition load_entry :: "('entry, 'manifest) audit_lib \<Rightarrow> string \<Rightarrow> audit_error + 'entry" where
  "load_entry lib json =
     and_then (ok_or AuditJson (entry_from_json lib json)) (\<lambda>entry.
     and_then (map_err PoiArtifactContract (entry_validate lib entry)) (\<lambda>_. Inr entry))"

definition active_poi_artifact_manifest_publication ::
  "('entry, 'manifest) audit_lib \<Rightarrow> publication_db \<Rightarrow> audit_error + 'entry active_poi_manifest option" where
  "active_poi_artifact_manifest_publication lib db =
     (case newest_first (select_where (\<lambda>_. active_manifest) (poi_manifests db)) of
        [] \<Rightarrow> Inr None
      | (i, m) # _ \<Rightarrow>
          and_then (traverse (load_entry lib)
            (map snd (sort_key fst (select_where (\<lambda>(j, _) _. j = i) (poi_manifest_entries db))))) (\<lambda>entries.
          and_then (audit_i64_to_u64 (mr_ipns_sequence m) ''ipns_sequence'') (\<lambda>sequence.
          and_then (i64_to_system_time (epoch_seconds (the (mr_ipns_published_at m))) ''ipns_published_at'') (\<lambda>at.
            Inr (Some \<lparr>am_cid = mr_cid m, am_sequence = sequence, am_ipns_published_at = at,
                       am_entries = entries\<rparr>)))))"

record 'entry active_poi_graph_row =
  ag_entry :: 'entry
  checkpoint_published_at :: system_time
  bridge_published_at :: "(cid \<times> system_time) list"

definition active_poi_graph ::
  "('entry, 'manifest) audit_lib \<Rightarrow> poi_scope \<Rightarrow> publication_db
   \<Rightarrow> audit_error + 'entry active_poi_graph_row option" where
  "active_poi_graph lib scope db =
     and_then (audit_u64_to_i64 (ps_chain_id scope) ''chain_id'') (\<lambda>chain_id.
       case sort_key (\<lambda>(m, a, _). (- mr_ipns_sequence m, - ar_published_at a))
              [(m, a, json).
                 ((j, lk, ct, ci, tv), json) \<leftarrow> poi_manifest_entries db,
                 (i, m) \<leftarrow> poi_manifests db,
                 (k, a) \<leftarrow> poi_artifacts db,
                 i = j \<and> Some (pk_cid k) = json_checkpoint_catalog_cid lib json
                 \<and> pk_artifact_kind k = ''checkpoint_catalog'' \<and> ar_unpinned_at a = None
                 \<and> lk = ps_list_key scope \<and> ct = int (unat (ps_chain_type scope)) \<and> ci = chain_id
                 \<and> tv = ps_txid_version scope \<and> active_manifest m] of
         [] \<Rightarrow> Inr None
       | (m, a, json) # _ \<Rightarrow>
           and_then (load_entry lib json) (\<lambda>entry.
           and_then (traverse (\<lambda>(k, b).
               and_then (i64_to_system_time (epoch_seconds (ar_published_at b)) ''bridge_published_at'')
                 (\<lambda>t. Inr (pk_cid k, t)))
             (select_where (\<lambda>k _. pk_artifact_kind k = ''bridge'' \<and> pk_cid k \<in> set (entry_bridge_cids lib entry))
               (poi_artifacts db))) (\<lambda>bridges.
           and_then (i64_to_system_time (epoch_seconds (ar_published_at a)) ''checkpoint_published_at'') (\<lambda>t.
             Inr (Some \<lparr>ag_entry = entry, checkpoint_published_at = t,
                        bridge_published_at = rev bridges\<rparr>)))))"

section \<open>POI artifacts and manifests\<close>

definition poi_key ::
  "poi_artifact_publication_kind \<Rightarrow> poi_scope \<Rightarrow> i64 \<Rightarrow> i64 \<times> i64 \<Rightarrow> cid \<Rightarrow> poi_artifact_key" where
  "poi_key kind scope chain_id rng cid =
     \<lparr>pk_artifact_kind = poi_artifact_kind_str kind, pk_list_key = ps_list_key scope,
      pk_chain_type = int (unat (ps_chain_type scope)), pk_chain_id = chain_id,
      pk_txid_version = ps_txid_version scope, pk_range_start = fst rng, pk_range_end = snd rng,
      pk_cid = cid\<rparr>"

definition live_poi_artifact_cid ::
  "('entry, 'manifest) audit_lib \<Rightarrow> poi_artifact_publication_kind \<Rightarrow> poi_scope \<Rightarrow> (u64 \<times> u64) option
   \<Rightarrow> u64 \<Rightarrow> bytes32 \<Rightarrow> bytes32 option \<Rightarrow> publication_db \<Rightarrow> audit_error + cid option" where
  "live_poi_artifact_cid lib kind scope rng byte_size hash end_root db =
     and_then (audit_u64_to_i64 (ps_chain_id scope) ''chain_id'') (\<lambda>chain_id.
     and_then (audit_u64_to_i64 byte_size ''byte_size'') (\<lambda>size.
     and_then (poi_artifact_range_columns rng) (\<lambda>columns.
       case sort_key (\<lambda>(_, a). (- ar_last_referenced_at a, - ar_published_at a))
              (select_where (\<lambda>k a. k = poi_key kind scope chain_id columns (pk_cid k)
                  \<and> ar_byte_size a = size \<and> ar_content_hash a = hash \<and> ar_end_root a = end_root
                  \<and> ar_format_version a = 4 \<and> ar_unpinned_at a = None) (poi_artifacts db)) of
         [] \<Rightarrow> Inr None
       | (k, _) # _ \<Rightarrow> and_then (parse_cid lib (pk_cid k)) (\<lambda>cid. Inr (Some cid)))))"

definition poi_range_check :: "i64 \<times> i64 \<Rightarrow> bool" where
  "poi_range_check rng \<longleftrightarrow>
     fst rng = - 1 \<and> snd rng = - 1 \<or> 0 \<le> fst rng \<and> fst rng \<le> snd rng"

definition record_poi_artifact_pin ::
  "timestamptz \<Rightarrow> poi_artifact_publication_kind \<Rightarrow> poi_scope \<Rightarrow> (u64 \<times> u64) option \<Rightarrow> cid \<Rightarrow> u64
   \<Rightarrow> bytes32 \<Rightarrow> bytes32 option \<Rightarrow> string \<Rightarrow> publication_db \<Rightarrow> audit_error + publication_db" where
  "record_poi_artifact_pin now kind scope rng cid byte_size hash end_root json db =
     and_then (audit_u64_to_i64 (ps_chain_id scope) ''chain_id'') (\<lambda>chain_id.
     and_then (audit_u64_to_i64 byte_size ''byte_size'') (\<lambda>size.
     and_then (poi_artifact_range_columns rng) (\<lambda>columns.
     and_then (ensure (ps_chain_type scope = 0 \<and> poi_range_check columns) (AuditSqlx CheckViolation)) (\<lambda>_.
       let (artifacts, affected) = insert_on_conflict (poi_key kind scope chain_id columns cid)
         \<lparr>ar_byte_size = size, ar_content_hash = hash, ar_format_version = 4, ar_published_at = now,
          ar_last_referenced_at = now, ar_unpinned_at = None, ar_end_root = end_root,
          ar_descriptor_json = json\<rparr>
         (\<lambda>old. if ar_byte_size old = size \<and> ar_content_hash old = hash \<and> ar_end_root old = end_root
                    \<and> ar_descriptor_json old = json \<and> ar_format_version old = 4
                 then Some (old\<lparr>ar_last_referenced_at := now, ar_unpinned_at := None\<rparr>) else None)
         (poi_artifacts db)
       in if affected = 0 then Inl (PoiArtifactConflict cid byte_size)
          else Inr (db\<lparr>poi_artifacts := artifacts\<rparr>)))))"

definition live_poi_count :: "cid list \<Rightarrow> publication_db \<Rightarrow> nat" where
  "live_poi_count cids db =
     card (set (map (\<lambda>(k, _). pk_cid k)
       (select_where (\<lambda>k a. pk_cid k \<in> set cids \<and> ar_unpinned_at a = None) (poi_artifacts db))))"

definition insert_manifest_entry ::
  "('entry, 'manifest) audit_lib \<Rightarrow> nat \<Rightarrow> publication_db \<Rightarrow> 'entry \<Rightarrow> audit_error + publication_db" where
  "insert_manifest_entry lib manifest_id db entry =
     and_then (map_err PoiArtifactContract (entry_validate lib entry)) (\<lambda>_.
     and_then (audit_u64_to_i64 (ps_chain_id (entry_scope lib entry)) ''chain_id'') (\<lambda>chain_id.
     and_then (ok_or AuditJson (entry_to_json lib entry)) (\<lambda>json.
       let key = (manifest_id, ps_list_key (entry_scope lib entry),
                  int (unat (ps_chain_type (entry_scope lib entry))), chain_id,
                  ps_txid_version (entry_scope lib entry))
       in and_then (ensure (map_of (poi_manifest_entries db) key = None) (AuditSqlx UniqueViolation)) (\<lambda>_.
            Inr (db\<lparr>poi_manifest_entries := poi_manifest_entries db @ [(key, json)]\<rparr>)))))"

definition record_poi_artifact_manifest_pin ::
  "('entry, 'manifest) audit_lib \<Rightarrow> timestamptz \<Rightarrow> cid \<Rightarrow> 'entry list \<Rightarrow> cid list \<Rightarrow> u64 \<Rightarrow> u64
   \<Rightarrow> bytes32 \<Rightarrow> publication_db \<Rightarrow> audit_error + publication_db" where
  "record_poi_artifact_manifest_pin lib now cid entries artifact_cids sequence_u64 byte_size hash db =
     and_then (audit_u64_to_i64 sequence_u64 ''sequence'') (\<lambda>sequence.
     and_then (audit_u64_to_i64 byte_size ''byte_size'') (\<lambda>size.
     and_then (ensure (card (set artifact_cids) = 0 \<or>
                 live_poi_count artifact_cids db = card (set artifact_cids))
       (MissingManifestArtifacts (card (set artifact_cids)) (live_poi_count artifact_cids db))) (\<lambda>_.
     and_then (reject_unresolved_pending ''v4'' (poi_manifests db)) (\<lambda>_.
     and_then (insert_manifest (next_poi_manifest_id db)
       (new_manifest now cid sequence size hash 4 None) (poi_manifests db)) (\<lambda>manifests.
     and_then (try_fold (insert_manifest_entry lib (next_poi_manifest_id db))
       (db\<lparr>poi_manifests := manifests\<rparr>) entries) (\<lambda>db'.
       Inr (db'\<lparr>poi_manifest_artifacts :=
                  insert_edges (next_poi_manifest_id db) artifact_cids (poi_manifest_artifacts db'),
                next_poi_manifest_id := next_poi_manifest_id db + 1\<rparr>)))))))"

definition record_poi_artifact_manifest_ipns_publication ::
  "timestamptz \<Rightarrow> cid \<Rightarrow> u64 \<Rightarrow> publication_db \<Rightarrow> audit_error + publication_db" where
  "record_poi_artifact_manifest_ipns_publication now cid sequence_u64 db =
     and_then (audit_u64_to_i64 sequence_u64 ''sequence'') (\<lambda>sequence.
     and_then (ensure_newer_than_invalidated_pending ''v4'' (poi_manifests db) cid sequence) (\<lambda>_.
       let (activated, affected) =
         update_where (\<lambda>_. activatable cid sequence) (activate now) (poi_manifests db)
       in if affected = 0 then Inl (UnrecordedManifest cid)
          else Inr (db\<lparr>poi_manifests := fst (update_where
            (\<lambda>_ m. mr_superseded_at m = None
               \<and> (mr_cid m \<noteq> cid \<and> mr_ipns_published_at m \<noteq> None
                   \<or> mr_reconciliation_invalidated_at m \<noteq> None \<and> mr_ipns_sequence m < sequence))
            (\<lambda>m. m\<lparr>mr_superseded_at := Some now\<rparr>) activated)\<rparr>)))"

section \<open>Indexed artifacts and manifests\<close>

definition indexed_key ::
  "indexed_artifact_publication_kind \<Rightarrow> indexed_dataset_kind \<Rightarrow> chain_scope \<Rightarrow> i64 \<Rightarrow> artifact_range_kind
   \<Rightarrow> i64 \<Rightarrow> i64 \<Rightarrow> cid \<Rightarrow> indexed_artifact_key" where
  "indexed_key kind dataset scope chain_id rkind rstart rend cid =
     \<lparr>ik_artifact_kind = indexed_artifact_publication_kind_str kind,
      ik_dataset_kind = indexed_dataset_kind_str dataset,
      ik_chain_type = chain_type_discriminant (scope_chain_type scope), ik_chain_id = chain_id,
      ik_railgun_contract = scope_railgun_contract scope, ik_range_kind = indexed_range_kind_str rkind,
      ik_range_start = rstart, ik_range_end = rend, ik_cid = cid\<rparr>"

definition live_indexed_artifact_cid ::
  "('entry, 'manifest) audit_lib \<Rightarrow> indexed_artifact_publication_kind \<Rightarrow> indexed_dataset_kind
   \<Rightarrow> chain_scope \<Rightarrow> artifact_range \<Rightarrow> u64 \<Rightarrow> bytes32 \<Rightarrow> u16 \<Rightarrow> publication_db
   \<Rightarrow> audit_error + cid option" where
  "live_indexed_artifact_cid lib kind dataset scope rng byte_size hash version db =
     and_then (audit_u64_to_i64 (scope_chain_id scope) ''chain_id'') (\<lambda>chain_id.
     and_then (audit_u64_to_i64 (range_start rng) ''range_start'') (\<lambda>rstart.
     and_then (audit_u64_to_i64 (range_end rng) ''range_end'') (\<lambda>rend.
     and_then (audit_u64_to_i64 byte_size ''byte_size'') (\<lambda>size.
       case sort_key (\<lambda>(_, a). (- ar_last_referenced_at a, - ar_published_at a))
              (select_where (\<lambda>k a.
                  k = indexed_key kind dataset scope chain_id (range_kind rng) rstart rend (ik_cid k)
                  \<and> ar_byte_size a = size \<and> ar_content_hash a = hash
                  \<and> ar_format_version a = int (unat version) \<and> ar_unpinned_at a = None)
                (indexed_artifacts db)) of
         [] \<Rightarrow> Inr None
       | (k, _) # _ \<Rightarrow> and_then (parse_cid lib (ik_cid k)) (\<lambda>cid. Inr (Some cid))))))"

definition record_indexed_artifact_pin ::
  "timestamptz \<Rightarrow> indexed_artifact_publication_kind \<Rightarrow> indexed_dataset_kind \<Rightarrow> chain_scope
   \<Rightarrow> artifact_range \<Rightarrow> cid \<Rightarrow> u64 \<Rightarrow> bytes32 \<Rightarrow> u16 \<Rightarrow> publication_db \<Rightarrow> audit_error + publication_db" where
  "record_indexed_artifact_pin now kind dataset scope rng cid byte_size hash version db =
     and_then (audit_u64_to_i64 (scope_chain_id scope) ''chain_id'') (\<lambda>chain_id.
     and_then (audit_u64_to_i64 (range_start rng) ''range_start'') (\<lambda>rstart.
     and_then (audit_u64_to_i64 (range_end rng) ''range_end'') (\<lambda>rend.
     and_then (audit_u64_to_i64 byte_size ''byte_size'') (\<lambda>size.
     and_then (ensure (rstart \<le> rend) (AuditSqlx CheckViolation)) (\<lambda>_.
       Inr (db\<lparr>indexed_artifacts := fst (insert_on_conflict
         (indexed_key kind dataset scope chain_id (range_kind rng) rstart rend cid)
         \<lparr>ar_byte_size = size, ar_content_hash = hash, ar_format_version = int (unat version),
          ar_published_at = now, ar_last_referenced_at = now, ar_unpinned_at = None\<rparr>
         (\<lambda>old. Some (old\<lparr>ar_byte_size := size, ar_content_hash := hash,
            ar_format_version := int (unat version), ar_last_referenced_at := now,
            ar_unpinned_at := None\<rparr>))
         (indexed_artifacts db))\<rparr>))))))"

definition live_indexed_count :: "cid list \<Rightarrow> publication_db \<Rightarrow> nat" where
  "live_indexed_count cids db =
     card (set (map (\<lambda>(k, _). ik_cid k)
       (select_where (\<lambda>k a. ik_cid k \<in> set cids \<and> ar_unpinned_at a = None) (indexed_artifacts db))))"

definition record_indexed_manifest_pin ::
  "timestamptz \<Rightarrow> cid \<Rightarrow> cid list \<Rightarrow> u64 \<Rightarrow> u64 \<Rightarrow> bytes32 \<Rightarrow> u16 \<Rightarrow> string \<Rightarrow> publication_db
   \<Rightarrow> audit_error + publication_db" where
  "record_indexed_manifest_pin now cid artifact_cids sequence_u64 byte_size hash version json db =
     and_then (audit_u64_to_i64 sequence_u64 ''sequence'') (\<lambda>sequence.
     and_then (audit_u64_to_i64 byte_size ''byte_size'') (\<lambda>size.
     and_then (ensure (artifact_cids = [] \<or> live_indexed_count artifact_cids db = length artifact_cids)
       (MissingIndexedManifestArtifacts (length artifact_cids) (live_indexed_count artifact_cids db))) (\<lambda>_.
     and_then (reject_unresolved_pending ''chain-indexed'' (indexed_manifests db)) (\<lambda>_.
     and_then (insert_manifest (next_indexed_manifest_id db)
       (new_manifest now cid sequence size hash (int (unat version)) (Some json))
       (indexed_manifests db)) (\<lambda>manifests.
       Inr (db\<lparr>indexed_manifests := manifests,
               indexed_manifest_artifacts :=
                 insert_edges (next_indexed_manifest_id db) artifact_cids (indexed_manifest_artifacts db),
               next_indexed_manifest_id := next_indexed_manifest_id db + 1\<rparr>))))))"

definition record_indexed_manifest_ipns_publication ::
  "timestamptz \<Rightarrow> cid \<Rightarrow> u64 \<Rightarrow> publication_db \<Rightarrow> audit_error + publication_db" where
  "record_indexed_manifest_ipns_publication now cid sequence_u64 db =
     and_then (audit_u64_to_i64 sequence_u64 ''sequence'') (\<lambda>sequence.
     and_then (ensure_newer_than_invalidated_pending ''chain-indexed'' (indexed_manifests db) cid sequence) (\<lambda>_.
       let (activated, affected) =
         update_where (\<lambda>_. activatable cid sequence) (activate now) (indexed_manifests db)
       in if affected = 0
          then Inl (if exists_where (\<lambda>_ m. mr_cid m = cid \<and> mr_ipns_sequence m = sequence
                         \<and> mr_unpinned_at m \<noteq> None) (indexed_manifests db)
                    then UnpinnedManifest cid
                    else if exists_where (\<lambda>_ m. mr_cid m = cid \<and> mr_ipns_sequence m = sequence
                         \<and> mr_superseded_at m \<noteq> None) (indexed_manifests db)
                    then SupersededManifest cid
                    else UnrecordedManifest cid)
          else Inr (db\<lparr>indexed_manifests := fst (update_where
            (\<lambda>_ m. mr_superseded_at m = None
               \<and> (mr_ipns_published_at m \<noteq> None \<and> (mr_cid m \<noteq> cid \<or> mr_ipns_sequence m \<noteq> sequence)
                   \<or> mr_reconciliation_invalidated_at m \<noteq> None \<and> mr_ipns_sequence m < sequence))
            (\<lambda>m. m\<lparr>mr_superseded_at := Some now\<rparr>) activated)\<rparr>)))"

end
