(* ===== verification/Retention.thy ===== *)
theory Retention
  imports Publication_Audit
begin

text \<open>
  The retention sweep of \<open>audit.rs\<close>: cids whose manifests were superseded, or whose artifacts were
  last referenced, at or before the cutoff are unpinned and their rows marked, unless a live
  publication still needs them. Every cid is examined again in its own transaction right before it is
  unpinned. Pins that a failed publication could not undo (\<open>pin_cleanup_debt\<close>) are retried first.

  Shown: the candidate query selects exactly the eligible cids; sweeping one cid settles it and leaves
  every other cid's eligibility alone; so a sweep in which the provider obeys leaves nothing eligible.
\<close>

section \<open>What is stale and what is protected\<close>

definition stale_manifest :: "timestamptz \<Rightarrow> manifest_row \<Rightarrow> bool" where
  "stale_manifest cutoff m \<longleftrightarrow>
     mr_unpinned_at m = None \<and> (case mr_superseded_at m of None \<Rightarrow> False | Some t \<Rightarrow> t \<le> cutoff)"

definition live_manifest :: "manifest_row \<Rightarrow> bool" where
  "live_manifest m \<longleftrightarrow> mr_superseded_at m = None \<and> mr_unpinned_at m = None"

text \<open>\<open>WHERE unpinned_at IS NULL GROUP BY cid HAVING MAX(last_referenced_at) <= cutoff\<close>.\<close>

definition stale_artifacts ::
  "('k \<Rightarrow> cid) \<Rightarrow> timestamptz \<Rightarrow> ('k \<times> 'a artifact_row_scheme) list \<Rightarrow> cid \<Rightarrow> bool" where
  "stale_artifacts key_cid cutoff t cid \<longleftrightarrow>
     exists_where (\<lambda>k a. key_cid k = cid \<and> ar_unpinned_at a = None) t
     \<and> \<not> exists_where (\<lambda>k a. key_cid k = cid \<and> ar_unpinned_at a = None
           \<and> cutoff < ar_last_referenced_at a) t"

definition fresh_artifact ::
  "('k \<Rightarrow> cid) \<Rightarrow> timestamptz \<Rightarrow> ('k \<times> 'a artifact_row_scheme) list \<Rightarrow> cid \<Rightarrow> bool" where
  "fresh_artifact key_cid cutoff t cid \<longleftrightarrow>
     exists_where (\<lambda>k a. key_cid k = cid \<and> ar_unpinned_at a = None
       \<and> cutoff < ar_last_referenced_at a) t"

definition active_indexed :: "publication_db \<Rightarrow> cid \<Rightarrow> bool" where
  "active_indexed db cid \<longleftrightarrow>
     exists_where (\<lambda>_ m. mr_cid m = cid \<and> mr_ipns_published_at m \<noteq> None \<and> mr_superseded_at m = None)
       (indexed_manifests db)"

definition retention_protected :: "timestamptz \<Rightarrow> publication_db \<Rightarrow> cid \<Rightarrow> bool" where
  "retention_protected cutoff db cid \<longleftrightarrow>
     active_indexed db cid
     \<or> fresh_artifact ik_cid cutoff (indexed_artifacts db) cid
     \<or> edge_to live_manifest (indexed_manifests db) (indexed_manifest_artifacts db) cid
     \<or> exists_where (\<lambda>_ m. mr_cid m = cid \<and> live_manifest m) (poi_manifests db)
     \<or> fresh_artifact pk_cid cutoff (poi_artifacts db) cid
     \<or> edge_to live_manifest (poi_manifests db) (poi_manifest_artifacts db) cid"

definition still_eligible :: "timestamptz \<Rightarrow> publication_db \<Rightarrow> cid \<Rightarrow> bool" where
  "still_eligible cutoff db cid \<longleftrightarrow>
     (exists_where (\<lambda>_ m. mr_cid m = cid \<and> stale_manifest cutoff m) (indexed_manifests db)
      \<or> stale_artifacts ik_cid cutoff (indexed_artifacts db) cid
      \<or> exists_where (\<lambda>_ m. mr_cid m = cid \<and> stale_manifest cutoff m) (poi_manifests db)
      \<or> stale_artifacts pk_cid cutoff (poi_artifacts db) cid)
     \<and> \<not> retention_protected cutoff db cid"

definition retention_candidates :: "timestamptz \<Rightarrow> publication_db \<Rightarrow> cid list" where
  "retention_candidates cutoff db =
     (let candidates =
        map (\<lambda>(_, m). mr_cid m) (select_where (\<lambda>_. stale_manifest cutoff) (indexed_manifests db))
        @ map (\<lambda>(k, _). ik_cid k) (select_where (\<lambda>k a. ar_unpinned_at a = None
              \<and> stale_artifacts ik_cid cutoff (indexed_artifacts db) (ik_cid k)) (indexed_artifacts db))
        @ map (\<lambda>(_, m). mr_cid m) (select_where (\<lambda>_. stale_manifest cutoff) (poi_manifests db))
        @ map (\<lambda>(k, _). pk_cid k) (select_where (\<lambda>k a. ar_unpinned_at a = None
              \<and> stale_artifacts pk_cid cutoff (poi_artifacts db) (pk_cid k)) (poi_artifacts db))
      in sort (remdups (filter (\<lambda>cid. \<not> retention_protected cutoff db cid) candidates)))"

section \<open>The sweep\<close>

definition mark_unpinned :: "timestamptz \<Rightarrow> timestamptz \<Rightarrow> cid \<Rightarrow> publication_db \<Rightarrow> publication_db" where
  "mark_unpinned swept_at cutoff cid db =
     (let db1 = db\<lparr>indexed_manifests := fst (update_where
            (\<lambda>_ m. mr_cid m = cid \<and> stale_manifest cutoff m \<and> \<not> active_indexed db cid
               \<and> \<not> fresh_artifact ik_cid cutoff (indexed_artifacts db) cid)
            (\<lambda>m. m\<lparr>mr_unpinned_at := Some swept_at\<rparr>) (indexed_manifests db))\<rparr>;
          db2 = db1\<lparr>indexed_artifacts := fst (update_where
            (\<lambda>k a. ik_cid k = cid \<and> ar_unpinned_at a = None \<and> ar_last_referenced_at a \<le> cutoff
               \<and> \<not> active_indexed db1 cid \<and> \<not> fresh_artifact ik_cid cutoff (indexed_artifacts db1) cid)
            (\<lambda>a. a\<lparr>ar_unpinned_at := Some swept_at\<rparr>) (indexed_artifacts db1))\<rparr>;
          db3 = db2\<lparr>poi_manifests := fst (update_where
            (\<lambda>_ m. mr_cid m = cid \<and> stale_manifest cutoff m)
            (\<lambda>m. m\<lparr>mr_unpinned_at := Some swept_at\<rparr>) (poi_manifests db2))\<rparr>
      in db3\<lparr>poi_artifacts := fst (update_where
            (\<lambda>k a. pk_cid k = cid \<and> ar_unpinned_at a = None \<and> ar_last_referenced_at a \<le> cutoff)
            (\<lambda>a. a\<lparr>ar_unpinned_at := Some swept_at\<rparr>) (poi_artifacts db3))\<rparr>)"

record 'p sweep_state =
  sw_db :: publication_db
  sw_provider :: 'p
  sw_unpinned :: "cid list"
  sw_failed :: "(cid \<times> string) list"

type_synonym 'p unpin_call = "'p \<Rightarrow> cid \<Rightarrow> (ipfs_error + unit) \<times> 'p"

definition sweep_cid ::
  "('entry, 'manifest) audit_lib \<Rightarrow> (ipfs_error \<Rightarrow> string) \<Rightarrow> 'p unpin_call \<Rightarrow> timestamptz \<Rightarrow> timestamptz
   \<Rightarrow> 'p sweep_state \<Rightarrow> string \<Rightarrow> (audit_error + unit) \<times> 'p sweep_state" where
  "sweep_cid lib show_error unpin swept_at cutoff st cid_text =
     (case parse_cid lib cid_text of
        Inl e \<Rightarrow> (Inl e, st)
      | Inr cid \<Rightarrow>
          if \<not> still_eligible cutoff (sw_db st) cid_text then (Inr (), st)
          else
            (case unpin (sw_provider st) cid of
               (Inl error, p) \<Rightarrow>
                 (Inr (), st\<lparr>sw_provider := p, sw_failed := sw_failed st @ [(cid, show_error error)]\<rparr>)
             | (Inr _, p) \<Rightarrow>
                 (Inr (), st\<lparr>sw_provider := p, sw_db := mark_unpinned swept_at cutoff cid_text (sw_db st),
                            sw_unpinned := sw_unpinned st @ [cid]\<rparr>)))"

definition delete_debt :: "cid \<Rightarrow> publication_db \<Rightarrow> publication_db" where
  "delete_debt cid db =
     db\<lparr>pin_cleanup_debt := fst (delete_where (\<lambda>c _. c = cid) (pin_cleanup_debt db))\<rparr>"

definition retry_debt ::
  "('entry, 'manifest) audit_lib \<Rightarrow> (ipfs_error \<Rightarrow> string) \<Rightarrow> 'p unpin_call \<Rightarrow> 'p sweep_state
   \<Rightarrow> string \<times> i64 \<Rightarrow> (audit_error + unit) \<times> 'p sweep_state" where
  "retry_debt lib show_error unpin st debt =
     (case parse_cid lib (fst debt) of
        Inl e \<Rightarrow> (Inl e, st)
      | Inr cid \<Rightarrow>
          if publication_cid_is_referenced (sw_db st) cid
          then (Inr (), st\<lparr>sw_db := delete_debt (fst debt) (sw_db st)\<rparr>)
          else
            (case unpin (sw_provider st) cid of
               (Inr _, p) \<Rightarrow>
                 (Inr (), st\<lparr>sw_provider := p, sw_db := delete_debt (fst debt) (sw_db st),
                            sw_unpinned := sw_unpinned st @ [cid]\<rparr>)
             | (Inl error, p) \<Rightarrow>
                 if 2 ^ 63 \<le> snd debt + 1
                 then (Inl (AuditIntegerOutOfRange ''pin_cleanup_debt attempts'' (show_int (snd debt))),
                       st\<lparr>sw_provider := p\<rparr>)
                 else (Inr (), st\<lparr>sw_provider := p,
                        sw_db := (sw_db st)\<lparr>pin_cleanup_debt := fst (update_where (\<lambda>c _. c = fst debt)
                          (\<lambda>d. d\<lparr>debt_attempts := snd debt + 1, debt_last_error := show_error error\<rparr>)
                          (pin_cleanup_debt (sw_db st)))\<rparr>,
                        sw_failed := sw_failed st @ [(cid, show_error error)]\<rparr>)))"

definition debts_in_order :: "publication_db \<Rightarrow> (cid \<times> i64) list" where
  "debts_in_order db =
     map (\<lambda>(c, d). (c, debt_attempts d))
       (sort_key (\<lambda>(c, d). (debt_created_at d, c)) (pin_cleanup_debt db))"

definition retry_pin_cleanup_debt ::
  "('entry, 'manifest) audit_lib \<Rightarrow> (ipfs_error \<Rightarrow> string) \<Rightarrow> 'p unpin_call \<Rightarrow> 'p sweep_state
   \<Rightarrow> (audit_error + unit) \<times> 'p sweep_state" where
  "retry_pin_cleanup_debt lib show_error unpin st =
     run_each (retry_debt lib show_error unpin) st (debts_in_order (sw_db st))"

definition sweep_with_coordinator ::
  "('entry, 'manifest) audit_lib \<Rightarrow> (ipfs_error \<Rightarrow> string) \<Rightarrow> 'p unpin_call \<Rightarrow> system_time \<Rightarrow> nat
   \<Rightarrow> publication_db \<Rightarrow> 'p \<Rightarrow> (audit_error + unit) \<times> 'p sweep_state" where
  "sweep_with_coordinator lib show_error unpin now retention_interval db p =
     (let st = \<lparr>sw_db = db, sw_provider = p, sw_unpinned = [], sw_failed = []\<rparr> in
      case and_then (ok_or TimeBeforeUnixEpoch (system_time_checked_sub now retention_interval)) (\<lambda>c.
           and_then (unix_seconds c) (\<lambda>cutoff.
           and_then (unix_seconds now) (\<lambda>swept_at. Inr (cutoff, swept_at)))) of
        Inl e \<Rightarrow> (Inl e, st)
      | Inr (cutoff, swept_at) \<Rightarrow>
          (case retry_pin_cleanup_debt lib show_error unpin st of
             (Inl e, st') \<Rightarrow> (Inl e, st')
           | (Inr _, st') \<Rightarrow>
               run_each (sweep_cid lib show_error unpin (to_timestamp swept_at) (to_timestamp cutoff)) st'
                 (retention_candidates (to_timestamp cutoff) (sw_db st'))))"

section \<open>Sweeping one cid\<close>

lemma stale_artifacts_iff:
  "stale_artifacts key_cid cutoff t cid \<longleftrightarrow>
     exists_where (\<lambda>k a. key_cid k = cid \<and> ar_unpinned_at a = None) t
     \<and> \<not> fresh_artifact key_cid cutoff t cid"
  by (simp add: stale_artifacts_def fresh_artifact_def)

lemma in_column:
  "c \<in> set (map (\<lambda>(k, v). col k v) (select_where P t)) \<longleftrightarrow> exists_where (\<lambda>k v. col k v = c \<and> P k v) t"
  by (auto simp: exists_where_iff select_where_def image_iff)

lemma stale_artifacts_column:
  "exists_where (\<lambda>k a. key_cid k = c \<and> ar_unpinned_at a = None
      \<and> stale_artifacts key_cid cutoff t (key_cid k)) t = stale_artifacts key_cid cutoff t c"
proof -
  have "exists_where (\<lambda>k a. key_cid k = c \<and> ar_unpinned_at a = None
        \<and> stale_artifacts key_cid cutoff t (key_cid k)) t
      = exists_where (\<lambda>k a. (key_cid k = c \<and> ar_unpinned_at a = None) \<and> stale_artifacts key_cid cutoff t c) t"
    by (rule arg_cong2 [where f = exists_where]) (auto simp: fun_eq_iff)
  then show ?thesis by (simp only: exists_where_const) (auto simp: stale_artifacts_def)
qed

lemma candidates_eligible: "set (retention_candidates cutoff db) = {c. still_eligible cutoff db c}"
proof -
  have "c \<in> set (retention_candidates cutoff db) \<longleftrightarrow> still_eligible cutoff db c" for c
    unfolding retention_candidates_def still_eligible_def Let_def set_sort set_remdups set_filter
      mem_Collect_eq set_append Un_iff in_column stale_artifacts_column
    by blast
  then show ?thesis by blast
qed

lemma candidates_distinct [simp]: "distinct (retention_candidates cutoff db)"
  by (simp add: retention_candidates_def Let_def)

text \<open>For an eligible cid the conditions repeated in the updates hold, and all its live rows are at or
  before the cutoff: the sweep marks every one of them.\<close>

definition settle_cid :: "timestamptz \<Rightarrow> timestamptz \<Rightarrow> cid \<Rightarrow> publication_db \<Rightarrow> publication_db" where
  "settle_cid swept_at cutoff cid db =
     db\<lparr>indexed_manifests := fst (update_where (\<lambda>_ m. mr_cid m = cid \<and> stale_manifest cutoff m)
          (\<lambda>m. m\<lparr>mr_unpinned_at := Some swept_at\<rparr>) (indexed_manifests db)),
        indexed_artifacts := fst (update_where (\<lambda>k a. ik_cid k = cid \<and> ar_unpinned_at a = None)
          (\<lambda>a. a\<lparr>ar_unpinned_at := Some swept_at\<rparr>) (indexed_artifacts db)),
        poi_manifests := fst (update_where (\<lambda>_ m. mr_cid m = cid \<and> stale_manifest cutoff m)
          (\<lambda>m. m\<lparr>mr_unpinned_at := Some swept_at\<rparr>) (poi_manifests db)),
        poi_artifacts := fst (update_where (\<lambda>k a. pk_cid k = cid \<and> ar_unpinned_at a = None)
          (\<lambda>a. a\<lparr>ar_unpinned_at := Some swept_at\<rparr>) (poi_artifacts db))\<rparr>"

lemma not_fresh:
  "\<not> fresh_artifact key_cid cutoff t cid \<Longrightarrow> (k, a) \<in> set t \<Longrightarrow>
   (key_cid k = cid \<and> ar_unpinned_at a = None \<and> ar_last_referenced_at a \<le> cutoff)
     = (key_cid k = cid \<and> ar_unpinned_at a = None)"
  by (force simp: fresh_artifact_def exists_where_iff not_le)

lemma mark_unpinned_settles:
  assumes "still_eligible cutoff db cid"
  shows "mark_unpinned swept_at cutoff cid db = settle_cid swept_at cutoff cid db"
proof -
  have no: "\<not> active_indexed db cid" "\<not> fresh_artifact ik_cid cutoff (indexed_artifacts db) cid"
    "\<not> fresh_artifact pk_cid cutoff (poi_artifacts db) cid"
    using assms by (auto simp: still_eligible_def retention_protected_def)
  have act: "active_indexed (db\<lparr>indexed_manifests := fst (update_where P
      (\<lambda>m. m\<lparr>mr_unpinned_at := Some swept_at\<rparr>) (indexed_manifests db))\<rparr>) cid = active_indexed db cid"
    for P :: "nat \<Rightarrow> manifest_row \<Rightarrow> bool"
    by (simp add: active_indexed_def exists_where_kept)
  show ?thesis
    using no
    by (simp add: mark_unpinned_def settle_cid_def Let_def act
        update_where_cong [OF not_fresh [OF no(2)]] update_where_cong [OF not_fresh [OF no(3)]])
qed

lemma live_kept:
  "live_manifest (if mr_cid m = cid \<and> stale_manifest cutoff m then m\<lparr>mr_unpinned_at := Some at\<rparr> else m)
     = live_manifest m"
  by (auto simp: live_manifest_def stale_manifest_def split: option.splits)

lemma edge_to_kept:
  "edge_to live_manifest (fst (update_where (\<lambda>_ m. mr_cid m = cid \<and> stale_manifest cutoff m)
      (\<lambda>m. m\<lparr>mr_unpinned_at := Some at\<rparr>) t)) edges c = edge_to live_manifest t edges c"
  unfolding edge_to_def by (subst exists_where_kept) (simp_all add: live_kept split del: if_split)

lemma settle_frame:
  assumes "c \<noteq> cid"
  shows "still_eligible cutoff (settle_cid swept_at cutoff cid db) c \<longleftrightarrow> still_eligible cutoff db c"
  using assms
  by (simp add: still_eligible_def retention_protected_def settle_cid_def active_indexed_def
      stale_artifacts_def fresh_artifact_def edge_to_kept exists_where_kept)

lemma artifacts_marked:
  "\<not> exists_where (\<lambda>k a. key_cid k = cid \<and> ar_unpinned_at a = None)
     (fst (update_where (\<lambda>k a. key_cid k = cid \<and> ar_unpinned_at a = None)
       (\<lambda>a. a\<lparr>ar_unpinned_at := Some swept_at\<rparr>) t))"
  by (rule exists_where_none) simp

lemma settle_settles: "\<not> still_eligible cutoff (settle_cid swept_at cutoff cid db) cid"
proof -
  have "\<not> exists_where (\<lambda>_ m. mr_cid m = cid \<and> stale_manifest cutoff m)
      (fst (update_where (\<lambda>_ m. mr_cid m = cid \<and> stale_manifest cutoff m)
        (\<lambda>m. m\<lparr>mr_unpinned_at := Some swept_at\<rparr>) t))" for t :: "(nat, manifest_row) tbl"
    by (rule exists_where_none) (simp add: stale_manifest_def)
  then show ?thesis
    by (simp add: still_eligible_def settle_cid_def stale_artifacts_def artifacts_marked)
qed

lemma mark_unpinned_eligible:
  assumes "still_eligible cutoff db cid"
  shows "still_eligible cutoff (mark_unpinned swept_at cutoff cid db) c \<longleftrightarrow>
    c \<noteq> cid \<and> still_eligible cutoff db c"
  using settle_frame [of c cid cutoff swept_at db] settle_settles [of cutoff swept_at cid db]
  by (cases "c = cid") (simp_all add: mark_unpinned_settles [OF assms])

section \<open>A whole sweep\<close>

text \<open>The provider obeys: every unpin succeeds. A text is canonical when it is what a cid that it parses to
  displays as; the audit log only stores texts that a cid was displayed as.\<close>

definition obeying :: "'p unpin_call \<Rightarrow> bool" where
  "obeying unpin \<longleftrightarrow> (\<forall>p c. \<exists>p'. unpin p c = (Inr (), p'))"

definition canonical :: "('entry, 'manifest) audit_lib \<Rightarrow> cid \<Rightarrow> bool" where
  "canonical lib c \<longleftrightarrow> parse_cid_text lib c = Some c"

definition stored_cids :: "publication_db \<Rightarrow> cid set" where
  "stored_cids db =
     (\<lambda>(_, m). mr_cid m) ` set (indexed_manifests db) \<union> (\<lambda>(_, m). mr_cid m) ` set (poi_manifests db)
     \<union> (\<lambda>(k, _). ik_cid k) ` set (indexed_artifacts db) \<union> (\<lambda>(k, _). pk_cid k) ` set (poi_artifacts db)
     \<union> fst ` set (pin_cleanup_debt db)"

lemma eligible_stored: "still_eligible cutoff db c \<Longrightarrow> c \<in> stored_cids db"
  by (force simp: still_eligible_def stored_cids_def stale_artifacts_def exists_where_iff)

lemma debts_stored: "d \<in> set (debts_in_order db) \<Longrightarrow> fst d \<in> stored_cids db"
  by (force simp: stored_cids_def debts_in_order_def)

lemma sweep_cid_eligible:
  assumes "obeying unpin" and "canonical lib c"
  shows "\<exists>p'. sweep_cid lib show_error unpin swept_at cutoff st c =
    (Inr (), if still_eligible cutoff (sw_db st) c
             then st\<lparr>sw_provider := p', sw_db := mark_unpinned swept_at cutoff c (sw_db st),
                     sw_unpinned := sw_unpinned st @ [c]\<rparr>
             else st)"
proof -
  obtain p' where "unpin (sw_provider st) c = (Inr (), p')"
    using assms(1) by (auto simp: obeying_def)
  with assms(2) show ?thesis
    by (auto simp: sweep_cid_def parse_cid_def canonical_def)
qed

lemma sweep_all:
  assumes "obeying unpin" and "\<forall>c \<in> set cs. canonical lib c"
    and "distinct cs" and "\<And>c. c \<in> set cs \<Longrightarrow> still_eligible cutoff (sw_db st) c"
  shows "\<exists>st'. run_each (sweep_cid lib show_error unpin swept_at cutoff) st cs = (Inr (), st')
    \<and> sw_unpinned st' = sw_unpinned st @ cs \<and> sw_failed st' = sw_failed st
    \<and> (\<forall>c. still_eligible cutoff (sw_db st') c \<longleftrightarrow> c \<notin> set cs \<and> still_eligible cutoff (sw_db st) c)"
  using assms(2-4)
proof (induction cs arbitrary: st)
  case (Cons c cs)
  from sweep_cid_eligible [OF assms(1), of lib c show_error swept_at cutoff st] Cons.prems(1,3)
  obtain p' where step: "sweep_cid lib show_error unpin swept_at cutoff st c = (Inr (),
      st\<lparr>sw_provider := p', sw_db := mark_unpinned swept_at cutoff c (sw_db st),
        sw_unpinned := sw_unpinned st @ [c]\<rparr>)" (is "_ = (_, ?st)")
    by auto
  have elig: "still_eligible cutoff (sw_db ?st) d \<longleftrightarrow> d \<noteq> c \<and> still_eligible cutoff (sw_db st) d" for d
    using Cons.prems(3) [of c] by (simp add: mark_unpinned_eligible)
  have "\<And>d. d \<in> set cs \<Longrightarrow> still_eligible cutoff (sw_db ?st) d"
    unfolding elig using Cons.prems by auto
  from Cons.IH [OF _ _ this] Cons.prems(1,2) obtain st' where
    "run_each (sweep_cid lib show_error unpin swept_at cutoff) ?st cs = (Inr (), st')"
    "sw_unpinned st' = sw_unpinned ?st @ cs" "sw_failed st' = sw_failed ?st"
    "\<forall>d. still_eligible cutoff (sw_db st') d \<longleftrightarrow> d \<notin> set cs \<and> still_eligible cutoff (sw_db ?st) d"
    by auto
  with step elig show ?case by auto
qed simp

lemma debt_frame [simp]:
  "still_eligible cutoff (db\<lparr>pin_cleanup_debt := t\<rparr>) c \<longleftrightarrow> still_eligible cutoff db c"
  "publication_cid_is_referenced (db\<lparr>pin_cleanup_debt := t\<rparr>) c \<longleftrightarrow> publication_cid_is_referenced db c"
  by (simp_all add: still_eligible_def retention_protected_def active_indexed_def
      publication_cid_is_referenced_def)

lemma candidates_debt_frame [simp]:
  "retention_candidates cutoff (db\<lparr>pin_cleanup_debt := t\<rparr>) = retention_candidates cutoff db"
  by (simp add: retention_candidates_def retention_protected_def active_indexed_def)

lemma retry_debts:
  assumes "obeying unpin" and "\<forall>d \<in> set ds. canonical lib (fst d)"
  shows "\<exists>p'. run_each (retry_debt lib show_error unpin) st ds =
    (Inr (), st\<lparr>sw_provider := p',
       sw_db := (sw_db st)\<lparr>pin_cleanup_debt :=
         filter (\<lambda>(c, _). c \<notin> fst ` set ds) (pin_cleanup_debt (sw_db st))\<rparr>,
       sw_unpinned := sw_unpinned st @
         filter (\<lambda>c. \<not> publication_cid_is_referenced (sw_db st) c) (map fst ds)\<rparr>)"
  using assms(2)
proof (induction ds arbitrary: st)
  case Nil
  show ?case by (rule exI [of _ "sw_provider st"]) simp
next
  case (Cons d ds)
  have keep: "filter (\<lambda>(c, _). c \<notin> fst ` set ds) (filter (\<lambda>(c, _). c \<noteq> fst d) t)
      = filter (\<lambda>(c, _). c \<notin> fst ` set (d # ds)) t" for t :: "(cid, debt_row) tbl"
    by (auto simp: intro!: filter_cong)
  have del: "fst (delete_where (\<lambda>c _. c = fst d) t) = filter (\<lambda>(c, _). c \<noteq> fst d) t" for t :: "(cid, debt_row) tbl"
    by (simp add: delete_where_def)
  obtain p1 where p1: "unpin (sw_provider st) (fst d) = (Inr (), p1)"
    using assms(1) by (auto simp: obeying_def)
  show ?case
  proof (cases "publication_cid_is_referenced (sw_db st) (fst d)")
    case True
    let ?st = "st\<lparr>sw_db := delete_debt (fst d) (sw_db st)\<rparr>"
    have "retry_debt lib show_error unpin st d = (Inr (), ?st)"
      using True Cons.prems by (simp add: retry_debt_def parse_cid_def canonical_def)
    with Cons.IH [of ?st] Cons.prems True show ?thesis by (simp add: delete_debt_def del keep del: filter_filter)
  next
    case False
    let ?st = "st\<lparr>sw_provider := p1, sw_db := delete_debt (fst d) (sw_db st),
      sw_unpinned := sw_unpinned st @ [fst d]\<rparr>"
    have "retry_debt lib show_error unpin st d = (Inr (), ?st)"
      using False p1 Cons.prems by (simp add: retry_debt_def parse_cid_def canonical_def)
    with Cons.IH [of ?st] Cons.prems False show ?thesis by (simp add: delete_debt_def del keep del: filter_filter)
  qed
qed

lemma unix_seconds_ok:
  assumes "0 \<le> t" and "t < 2 ^ 63 * 10 ^ 9"
  shows "unix_seconds t = Inr (t div 10 ^ 9)"
proof -
  have bounds: "0 \<le> t div 10 ^ 9" "t div 10 ^ 9 < 2 ^ 63" using assms by auto
  then have "take_bit 64 (t div 10 ^ 9) = t div 10 ^ 9"
    by (intro take_bit_int_eq_self) simp_all
  then have "unat (word_of_int (t div 10 ^ 9) :: u64) = nat (t div 10 ^ 9)"
    by (simp add: unsigned_of_int)
  with bounds assms(1) show ?thesis
    by (simp add: unix_seconds_def audit_u64_to_i64_def i64_of_u64_def)
qed

lemma mark_unpinned_debt [simp]:
  "pin_cleanup_debt (mark_unpinned swept_at cutoff cid db) = pin_cleanup_debt db"
  by (simp add: mark_unpinned_def Let_def)

lemma sweep_cid_debt:
  "pin_cleanup_debt (sw_db (snd (sweep_cid lib show_error unpin swept_at cutoff st c)))
     = pin_cleanup_debt (sw_db st)"
  by (simp add: sweep_cid_def split: sum.splits prod.splits)

lemma debts_all_listed: "filter (\<lambda>(c, _). c \<notin> fst ` set (debts_in_order db)) (pin_cleanup_debt db) = []"
  by (force simp: debts_in_order_def filter_empty_conv image_iff)

text \<open>C24: A retention sweep whose provider obeys and whose clock reads a time after the retention interval
  always finishes without an error: it unpins the unreferenced cids of the cleanup debt and then exactly
  the cids that are stale at the cutoff and that no live publication protects, leaves no debt behind and
  nothing that would still be eligible.\<close>

theorem sweep_complete:
  assumes "obeying unpin" and "\<forall>c \<in> stored_cids db. canonical lib c"
    and "int retention_interval \<le> now" and "now < 2 ^ 63 * 10 ^ 9"
  shows "\<exists>st cutoff. cutoff = to_timestamp ((now - int retention_interval) div 10 ^ 9)
    \<and> sweep_with_coordinator lib show_error unpin now retention_interval db p = (Inr (), st)
    \<and> sw_unpinned st =
        filter (\<lambda>c. \<not> publication_cid_is_referenced db c) (map fst (debts_in_order db))
        @ retention_candidates cutoff db
    \<and> set (retention_candidates cutoff db) = {c. still_eligible cutoff db c}
    \<and> sw_failed st = [] \<and> pin_cleanup_debt (sw_db st) = []
    \<and> (\<forall>c. \<not> still_eligible cutoff (sw_db st) c)"
proof -
  let ?cut = "(now - int retention_interval) div 10 ^ 9" and ?st = "\<lparr>sw_db = db, sw_provider = p, sw_unpinned = [], sw_failed = []\<rparr>"
  let ?cutoff = "to_timestamp ?cut" and ?swept = "to_timestamp (now div 10 ^ 9)"
  have clock: "and_then (ok_or TimeBeforeUnixEpoch (system_time_checked_sub now retention_interval)) (\<lambda>c.
      and_then (unix_seconds c) (\<lambda>cutoff. and_then (unix_seconds now) (\<lambda>swept_at. Inr (cutoff, swept_at))))
    = Inr (?cut, now div 10 ^ 9)"
    using assms(3,4) by (simp add: system_time_checked_sub_def unix_seconds_ok)
  have texts: "\<forall>d \<in> set (debts_in_order db). canonical lib (fst d)"
    "\<forall>c \<in> set (retention_candidates ?cutoff db). canonical lib c"
    using assms(2) debts_stored eligible_stored by (force simp: candidates_eligible)+
  from retry_debts [OF assms(1) texts(1), of show_error ?st] obtain p' where
    debts: "retry_pin_cleanup_debt lib show_error unpin ?st = (Inr (), ?st\<lparr>sw_provider := p',
       sw_db := db\<lparr>pin_cleanup_debt := []\<rparr>,
       sw_unpinned := filter (\<lambda>c. \<not> publication_cid_is_referenced db c) (map fst (debts_in_order db))\<rparr>)"
      (is "_ = (_, ?st1)")
    by (auto simp: retry_pin_cleanup_debt_def debts_all_listed)
  obtain st where st: "run_each (sweep_cid lib show_error unpin ?swept ?cutoff) ?st1 (retention_candidates ?cutoff db) = (Inr (), st)"
    "sw_unpinned st = sw_unpinned ?st1 @ retention_candidates ?cutoff db" "sw_failed st = []"
    "\<forall>c. \<not> still_eligible ?cutoff (sw_db st) c"
    using sweep_all [OF assms(1) texts(2), of ?cutoff ?st1 show_error ?swept]
    by (auto simp: candidates_eligible)
  moreover have "pin_cleanup_debt (sw_db st) = []"
    using run_each_invariant [of "\<lambda>st. pin_cleanup_debt (sw_db st) = []" ?st1
        "retention_candidates ?cutoff db" "sweep_cid lib show_error unpin ?swept ?cutoff"] st(1)
    by (simp add: sweep_cid_debt)
  moreover have "sweep_with_coordinator lib show_error unpin now retention_interval db p = (Inr (), st)"
    using st(1) by (simp add: sweep_with_coordinator_def Let_def clock debts)
  ultimately show ?thesis by (auto simp: candidates_eligible)
qed

text \<open>A sample store: a manifest that was superseded long ago and a pin that could not be undone.\<close>

definition sample_audit_lib :: "(unit, unit) audit_lib" where
  "sample_audit_lib =
     \<lparr>parse_cid_text = (\<lambda>t. if t = [] then None else Some t),
      entry_scope = (\<lambda>_. \<lparr>ps_list_key = 1, ps_chain_type = 0, ps_chain_id = 1, ps_txid_version = ''V2''\<rparr>),
      entry_validate = Inr, entry_to_json = (\<lambda>_. Some ''entry''), entry_from_json = (\<lambda>_. Some ()),
      entry_bridge_cids = (\<lambda>_. []), json_checkpoint_catalog_cid = (\<lambda>_. None),
      manifest_from_json = (\<lambda>_. Some ()), verify_trusted_signature = (\<lambda>_ _. Inr ()),
      manifest_sequence = (\<lambda>_. 1), text_bytes = (\<lambda>_. []), content_hash = (\<lambda>b. of_nat (length b))\<rparr>"

definition retention_sample :: publication_db where
  "retention_sample =
     \<lparr>indexed_artifacts = [], indexed_manifests =
        [(1, (new_manifest 2 ''old'' 5 1 7 2 None)\<lparr>mr_superseded_at := Some 3\<rparr>)],
      indexed_manifest_artifacts = [], next_indexed_manifest_id = 2, poi_artifacts = [], poi_manifests = [],
      poi_manifest_entries = [], poi_manifest_artifacts = [], next_poi_manifest_id = 1,
      pin_cleanup_debt = [(''lost'', \<lparr>debt_provider = ''p'', debt_attempts = 1, debt_last_error = ''e'',
        debt_created_at = 4\<rparr>)], indexer_state = []\<rparr>"

theorem sweep_complete_witness:
  "obeying (\<lambda>p c. (Inr (), c # p)) \<and>
   (\<exists>st. sweep_with_coordinator sample_audit_lib (\<lambda>_. ''failed'') (\<lambda>p c. (Inr (), c # p))
      (20 * 10 ^ 9) (10 ^ 10) retention_sample [] = (Inr (), st)
    \<and> sw_unpinned st = [''lost'', ''old''] \<and> sw_failed st = [] \<and> pin_cleanup_debt (sw_db st) = [])"
proof -
  have obeys: "obeying (\<lambda>p c. (Inr (), c # p))" by (simp add: obeying_def)
  have texts: "\<forall>c \<in> stored_cids retention_sample. canonical sample_audit_lib c"
    by (simp add: stored_cids_def retention_sample_def canonical_def sample_audit_lib_def new_manifest_def)
  have "debts_in_order retention_sample = [(''lost'', 1)]"
    by (simp add: debts_in_order_def retention_sample_def)
  moreover have "\<not> publication_cid_is_referenced retention_sample ''lost''"
    by (simp add: publication_cid_is_referenced_def retention_sample_def edge_to_def exists_where_def new_manifest_def)
  moreover have "retention_candidates (10 ^ 7) retention_sample = [''old'']"
    by (simp add: retention_candidates_def retention_sample_def select_where_def stale_manifest_def
        retention_protected_def active_indexed_def fresh_artifact_def edge_to_def exists_where_def
        new_manifest_def live_manifest_def)
  ultimately show ?thesis
    using sweep_complete [OF obeys texts, of "10 ^ 10" "20 * 10 ^ 9" "\<lambda>_. ''failed''" "[]"] obeys
    by (auto simp: to_timestamp_def)
qed

end
