(* ===== verification/Action_Monad.thy ===== *)
theory Action_Monad
  imports Indexer_Prelude
begin

text \<open>
  Code that acts on the outside world and may fail part-way: an \<open>action\<close> takes the world to a result
  and the world it leaves behind, also where it fails. \<open>act_bind\<close> is the sequence of two awaited calls
  with \<open>?\<close> between them.

  \<open>triple P m Q E\<close> says that from a world with \<open>P\<close> the action ends in \<open>Q\<close> if it returns and in \<open>E\<close> if
  it fails; \<open>keeps I m\<close> is the special case of an invariant.
\<close>

named_theorems triple_intros \<open>rules for triples, applied by \<open>intro\<close>\<close>

type_synonym ('w, 'e, 'a) action = "'w \<Rightarrow> ('e + 'a) \<times> 'w"

definition act_return :: "'a \<Rightarrow> ('w, 'e, 'a) action" where
  "act_return x w = (Inr x, w)"

definition act_fail :: "'e \<Rightarrow> ('w, 'e, 'a) action" where
  "act_fail e w = (Inl e, w)"

definition act_lift :: "'e + 'a \<Rightarrow> ('w, 'e, 'a) action" where
  "act_lift r w = (r, w)"

definition act_bind ::
  "('w, 'e, 'a) action \<Rightarrow> ('a \<Rightarrow> ('w, 'e, 'b) action) \<Rightarrow> ('w, 'e, 'b) action" where
  "act_bind m f w = (case m w of (Inl e, w') \<Rightarrow> (Inl e, w') | (Inr x, w') \<Rightarrow> f x w')"

definition act_get :: "('w \<Rightarrow> 'a) \<Rightarrow> ('w, 'e, 'a) action" where
  "act_get f w = (Inr (f w), w)"

definition act_modify :: "('w \<Rightarrow> 'w) \<Rightarrow> ('w, 'e, unit) action" where
  "act_modify f w = (Inr (), f w)"

text \<open>A handler for the error of an action, which then stays the action's result.\<close>

definition act_on_error ::
  "('w, 'e, 'a) action \<Rightarrow> ('e \<Rightarrow> ('w, 'e, unit) action) \<Rightarrow> ('w, 'e, 'a) action" where
  "act_on_error m h w =
     (case m w of
        (Inl e, w') \<Rightarrow> (case h e w' of (Inl e', w'') \<Rightarrow> (Inl e', w'') | (Inr _, w'') \<Rightarrow> (Inl e, w''))
      | (Inr x, w') \<Rightarrow> (Inr x, w'))"

fun act_each :: "('a \<Rightarrow> ('w, 'e, unit) action) \<Rightarrow> 'a list \<Rightarrow> ('w, 'e, unit) action" where
  "act_each f [] = act_return ()"
| "act_each f (x # xs) = act_bind (f x) (\<lambda>_. act_each f xs)"

lemmas act_defs = act_return_def act_fail_def act_lift_def act_bind_def act_get_def act_modify_def
  act_on_error_def

lemma act_bind_Inr_iff:
  "act_bind m f w = (Inr y, w') \<longleftrightarrow> (\<exists>x v. m w = (Inr x, v) \<and> f x v = (Inr y, w'))"
  by (auto simp: act_bind_def split: prod.splits sum.splits)

lemma act_simple_iff:
  "act_return x w = (r, w') \<longleftrightarrow> r = Inr x \<and> w' = w"
  "act_fail e w = (r, w') \<longleftrightarrow> r = Inl e \<and> w' = w"
  "act_lift r' w = (r, w') \<longleftrightarrow> r = r' \<and> w' = w"
  "act_get g w = (r'', w') \<longleftrightarrow> r'' = Inr (g w) \<and> w' = w"
  "act_modify h w = (u, w') \<longleftrightarrow> u = Inr () \<and> w' = h w"
  by (auto simp: act_defs)

lemmas act_iffs = act_bind_Inr_iff act_simple_iff

text \<open>Rules about what an action leads to.\<close>

definition triple ::
  "('w \<Rightarrow> bool) \<Rightarrow> ('w, 'e, 'a) action \<Rightarrow> ('a \<Rightarrow> 'w \<Rightarrow> bool) \<Rightarrow> ('w \<Rightarrow> bool) \<Rightarrow> bool" where
  "triple P m Q E \<longleftrightarrow>
     (\<forall>w. P w \<longrightarrow> (case m w of (Inl _, w') \<Rightarrow> E w' | (Inr x, w') \<Rightarrow> Q x w'))"

definition keeps :: "('w \<Rightarrow> bool) \<Rightarrow> ('w, 'e, 'a) action \<Rightarrow> bool" where
  "keeps I m \<longleftrightarrow> triple I m (\<lambda>_. I) I"

lemma triple_use: "triple P m Q E \<Longrightarrow> P w \<Longrightarrow> (case m w of (Inl _, w') \<Rightarrow> E w' | (Inr x, w') \<Rightarrow> Q x w')"
  by (simp add: triple_def)

lemma keeps_use: "keeps I m \<Longrightarrow> I w \<Longrightarrow> I (snd (m w))"
  by (drule triple_use [OF iffD1 [OF keeps_def]], assumption) (auto split: prod.splits sum.splits)

lemma triple_weaken:
  "triple P m Q E \<Longrightarrow> (\<And>w. P' w \<Longrightarrow> P w) \<Longrightarrow> (\<And>x w. Q x w \<Longrightarrow> Q' x w) \<Longrightarrow> (\<And>w. E w \<Longrightarrow> E' w)
   \<Longrightarrow> triple P' m Q' E'"
  unfolding triple_def by (fastforce split: prod.splits sum.splits)

lemma triple_return [triple_intros]: "(\<And>w. P w \<Longrightarrow> Q x w) \<Longrightarrow> triple P (act_return x) Q E"
  by (simp add: triple_def act_return_def)

lemma triple_fail [triple_intros]: "(\<And>w. P w \<Longrightarrow> E w) \<Longrightarrow> triple P (act_fail e) Q E"
  by (simp add: triple_def act_fail_def)

lemma triple_lift [triple_intros]:
  "(\<And>w e. P w \<Longrightarrow> r = Inl e \<Longrightarrow> E w) \<Longrightarrow> (\<And>w x. P w \<Longrightarrow> r = Inr x \<Longrightarrow> Q x w) \<Longrightarrow> triple P (act_lift r) Q E"
  by (cases r) (auto simp: triple_def act_lift_def)

lemma triple_get [triple_intros]: "(\<And>w. P w \<Longrightarrow> Q (f w) w) \<Longrightarrow> triple P (act_get f) Q E"
  by (simp add: triple_def act_get_def)

lemma triple_modify [triple_intros]: "(\<And>w. P w \<Longrightarrow> Q () (f w)) \<Longrightarrow> triple P (act_modify f) Q E"
  by (simp add: triple_def act_modify_def)

lemma triple_bind [triple_intros]:
  "triple P m Q E \<Longrightarrow> (\<And>x. triple (Q x) (f x) R E) \<Longrightarrow> triple P (act_bind m f) R E"
  unfolding triple_def act_bind_def by (fastforce split: prod.splits sum.splits)

lemma triple_seq:
  "triple P' m Q' E' \<Longrightarrow> (\<And>w. P w \<Longrightarrow> P' w) \<Longrightarrow> (\<And>w. E' w \<Longrightarrow> E w) \<Longrightarrow>
   (\<And>x. triple (Q' x) (f x) R E) \<Longrightarrow> triple P (act_bind m f) R E"
  by (rule triple_bind [OF triple_weaken])

lemma triple_assume: "(b \<Longrightarrow> triple P m Q E) \<Longrightarrow> triple (\<lambda>w. P w \<and> b) m Q E"
  by (auto simp: triple_def)

lemma triple_on_error [triple_intros]:
  "triple P m Q F \<Longrightarrow> (\<And>e. triple F (h e) (\<lambda>_. E) E) \<Longrightarrow> triple P (act_on_error m h) Q E"
  unfolding triple_def act_on_error_def by (fastforce split: prod.splits sum.splits)

lemma triple_if [triple_intros]:
  "triple (\<lambda>w. P w \<and> b) m Q E \<Longrightarrow> triple (\<lambda>w. P w \<and> \<not> b) m' Q E \<Longrightarrow> triple P (if b then m else m') Q E"
  by (auto simp: triple_def)

lemma triple_option [triple_intros]:
  "triple (\<lambda>w. P w \<and> x = None) m Q E \<Longrightarrow> (\<And>y. triple (\<lambda>w. P w \<and> x = Some y) (f y) Q E) \<Longrightarrow>
   triple P (case x of None \<Rightarrow> m | Some y \<Rightarrow> f y) Q E"
  by (auto simp: triple_def split: option.splits)

lemma keepsI: "triple I m (\<lambda>_. I) I \<Longrightarrow> keeps I m"
  by (simp add: keeps_def)

lemma triple_keeps: "keeps I m \<Longrightarrow> (\<And>w. P w \<Longrightarrow> I w) \<Longrightarrow> (\<And>x w. I w \<Longrightarrow> Q x w) \<Longrightarrow> (\<And>w. I w \<Longrightarrow> E w)
  \<Longrightarrow> triple P m Q E"
  unfolding keeps_def by (rule triple_weaken)

lemma keeps_bind: "keeps I m \<Longrightarrow> (\<And>x. keeps I (f x)) \<Longrightarrow> keeps I (act_bind m f)"
  unfolding keeps_def by (rule triple_bind)

lemma triple_each:
  assumes "\<And>x done. x \<in> set xs \<Longrightarrow>
    triple (\<lambda>w. I (set done) w) (f x) (\<lambda>_ w. I (insert x (set done)) w) E"
  shows "triple (I {}) (act_each f xs) (\<lambda>_. I (set xs)) E"
proof -
  have "triple (I (set done)) (act_each f xs) (\<lambda>_. I (set done \<union> set xs)) E" for "done"
    using assms
  proof (induction xs arbitrary: "done")
    case (Cons x xs)
    have "triple (I (insert x (set done))) (act_each f xs) (\<lambda>_. I (insert x (set done) \<union> set xs)) E"
      using Cons.IH [of "x # done"] Cons.prems by simp
    with Cons.prems [of x "done"] show ?case
      by (auto intro!: triple_bind)
  qed (simp add: triple_return)
  from this [of "[]"] show ?thesis by simp
qed

end
