(* ===== verification/Pin_Lifecycle.thy ===== *)
theory Pin_Lifecycle
  imports Retention Action_Monad
begin

text \<open>
  How the two publication schedulers pin, record and activate (\<open>chain_indexed.rs\<close> and \<open>main.rs\<close> of
  the binary), over the audit log and an IPFS provider.

  \<^item> The world of these actions is the audit database, the state of the provider, the number of pin
    ownership leases that are out and whether new ones are admitted (\<open>PinLifecycleCoordinator\<close>), and
    the readings of the shutdown flag that are still to come: every check takes the next one.
  \<^item> The provider is the argument record \<open>ipfs_provider\<close>. \<open>provider_ok prov holds\<close> is what is relied on:
    a successful pin leaves the content held, an unpin touches only its own cid whether it succeeds or
    not, and \<open>contains\<close> answers yes only for content that is held.
  \<^item> Every definition below is a section that the code runs under the pin lifecycle lock, or a single
    transaction. The step relation of \<open>Pin_Safety\<close> interleaves them with retention.
\<close>

datatype publication_error =
    StoppedAtShutdown
  | AdmissionClosed
  | PubIpfs ipfs_error
  | PubAudit audit_error
  | UnparsableCid string
  | UnavailableArtifact cid
  | UnavailableGraphCid cid
  | DescriptorRejected string
  | ByteSizeOverflow
  | IpnsFailed string
  | PoiIpnsFailed publication_error

record 'p ipfs_provider =
  prov_service_name :: string
  prov_pin :: "'p \<Rightarrow> u8 list \<Rightarrow> (ipfs_error + cid) \<times> 'p"
  prov_unpin :: "'p unpin_call"
  prov_contains :: "'p \<Rightarrow> cid \<Rightarrow> (ipfs_error + bool) \<times> 'p"
  prov_error_text :: "ipfs_error \<Rightarrow> string"

definition provider_ok :: "'p ipfs_provider \<Rightarrow> ('p \<Rightarrow> cid set) \<Rightarrow> bool" where
  "provider_ok prov holds \<longleftrightarrow>
     (\<forall>p bytes. holds p \<subseteq> holds (snd (prov_pin prov p bytes)))
     \<and> (\<forall>p bytes c. fst (prov_pin prov p bytes) = Inr c \<longrightarrow> c \<in> holds (snd (prov_pin prov p bytes)))
     \<and> (\<forall>p c. holds p - {c} \<subseteq> holds (snd (prov_unpin prov p c)))
     \<and> (\<forall>p c. holds p \<subseteq> holds (snd (prov_contains prov p c)))
     \<and> (\<forall>p c. fst (prov_contains prov p c) = Inr True \<longrightarrow> c \<in> holds p)"

record 'p pin_world =
  w_db :: publication_db
  w_provider :: 'p
  w_stops :: "bool list"
  w_accepting :: bool
  w_owners :: nat

type_synonym ('p, 'a) publication = "('p pin_world, publication_error, 'a) action"

definition in_tx :: "(publication_db \<Rightarrow> audit_error + publication_db) \<Rightarrow> ('p, unit) publication" where
  "in_tx tx w =
     (case tx (w_db w) of
        Inl e \<Rightarrow> (Inl (PubAudit e), w)
      | Inr db \<Rightarrow> (Inr (), w\<lparr>w_db := db\<rparr>))"

definition query :: "(publication_db \<Rightarrow> audit_error + 'a) \<Rightarrow> ('p, 'a) publication" where
  "query q w = (map_err PubAudit (q (w_db w)), w)"

section \<open>Ownership and the provider\<close>

definition ensure_publication_running :: "('p, unit) publication" where
  "ensure_publication_running w =
     (case w_stops w of
        [] \<Rightarrow> (Inr (), w)
      | stop # rest \<Rightarrow> (if stop then Inl StoppedAtShutdown else Inr (), w\<lparr>w_stops := rest\<rparr>))"

definition try_acquire_pin_ownership :: "('p, bool) publication" where
  "try_acquire_pin_ownership w =
     (if w_accepting w then (Inr True, w\<lparr>w_owners := w_owners w + 1\<rparr>) else (Inr False, w))"

definition stop_new_pin_ownership :: "('p, unit) publication" where
  "stop_new_pin_ownership = act_modify (\<lambda>w. w\<lparr>w_accepting := False\<rparr>)"

definition settle_pin_ownership :: "('p, unit) publication" where
  "settle_pin_ownership = act_modify (\<lambda>w. w\<lparr>w_owners := w_owners w - 1\<rparr>)"

definition acquire_pin_ownership :: "('p, unit) publication" where
  "acquire_pin_ownership =
     act_bind ensure_publication_running (\<lambda>_.
     act_bind try_acquire_pin_ownership (\<lambda>granted.
       if granted then act_return () else act_fail AdmissionClosed))"

definition pin_bytes :: "'p ipfs_provider \<Rightarrow> u8 list \<Rightarrow> ('p, cid) publication" where
  "pin_bytes prov bytes w =
     (case prov_pin prov (w_provider w) bytes of (r, p) \<Rightarrow> (map_err PubIpfs r, w\<lparr>w_provider := p\<rparr>))"

definition contains_cid :: "'p ipfs_provider \<Rightarrow> cid \<Rightarrow> ('p, bool) publication" where
  "contains_cid prov cid w =
     (case prov_contains prov (w_provider w) cid of (r, p) \<Rightarrow> (map_err PubIpfs r, w\<lparr>w_provider := p\<rparr>))"

definition cid_is_available ::
  "('entry, 'manifest) audit_lib \<Rightarrow> 'p ipfs_provider \<Rightarrow> string \<Rightarrow> ('p, bool) publication" where
  "cid_is_available lib prov text =
     act_bind (act_lift (ok_or (UnparsableCid text) (parse_cid_text lib text))) (contains_cid prov)"

definition cleanup_uncommitted_pin_while_locked ::
  "'p ipfs_provider \<Rightarrow> timestamptz \<Rightarrow> cid \<Rightarrow> ('p, unit) publication" where
  "cleanup_uncommitted_pin_while_locked prov now cid =
     act_bind (act_get (\<lambda>w. publication_cid_is_referenced (w_db w) cid)) (\<lambda>referenced.
     act_bind (if referenced then act_return ()
       else act_modify (\<lambda>w.
         case prov_unpin prov (w_provider w) cid of
           (Inr _, p) \<Rightarrow> w\<lparr>w_provider := p\<rparr>
         | (Inl error, p) \<Rightarrow> w\<lparr>w_provider := p,
             w_db := record_pin_cleanup_debt now cid (prov_service_name prov)
               (prov_error_text prov error) (w_db w)\<rparr>)) (\<lambda>_.
       settle_pin_ownership))"

text \<open>Pinning fresh content takes a lease first; where the pin fails the lease is settled.\<close>

definition pin_owned :: "'p ipfs_provider \<Rightarrow> u8 list \<Rightarrow> ('p, cid) publication" where
  "pin_owned prov bytes =
     act_bind acquire_pin_ownership (\<lambda>_.
       act_on_error (pin_bytes prov bytes) (\<lambda>_. settle_pin_ownership))"

definition reuse_or_pin ::
  "'p ipfs_provider \<Rightarrow> (publication_db \<Rightarrow> audit_error + cid option) \<Rightarrow> u8 list \<Rightarrow> ('p, cid \<times> bool) publication" where
  "reuse_or_pin prov lookup bytes =
     act_bind (query lookup) (\<lambda>reusable.
       case reusable of
         None \<Rightarrow> act_bind (pin_owned prov bytes) (\<lambda>cid. act_return (cid, True))
       | Some cid \<Rightarrow>
           act_bind (contains_cid prov cid) (\<lambda>present.
             if present then act_return (cid, False)
             else act_bind (pin_owned prov bytes) (\<lambda>cid. act_return (cid, True))))"

text \<open>Recording a pin in the audit log: where that fails, a pin that this section made is undone.\<close>

definition record_or_clean_up ::
  "'p ipfs_provider \<Rightarrow> timestamptz \<Rightarrow> cid \<Rightarrow> bool \<Rightarrow> ('p, 'a) publication \<Rightarrow> ('p, 'a) publication" where
  "record_or_clean_up prov now cid owned record =
     act_bind (act_on_error record (\<lambda>_.
         if owned then cleanup_uncommitted_pin_while_locked prov now cid else act_return ())) (\<lambda>x.
     act_bind (if owned then settle_pin_ownership else act_return ()) (\<lambda>_.
       act_return x))"

section \<open>The chain-indexed channel\<close>

definition reuse_or_pin_indexed_artifact ::
  "('entry, 'manifest) audit_lib \<Rightarrow> 'p ipfs_provider \<Rightarrow> timestamptz \<Rightarrow> indexed_artifact_publication_kind
   \<Rightarrow> indexed_dataset_kind \<Rightarrow> chain_scope \<Rightarrow> artifact_range \<Rightarrow> u64 \<Rightarrow> bytes32 \<Rightarrow> u16 \<Rightarrow> u8 list
   \<Rightarrow> ('p, cid) publication" where
  "reuse_or_pin_indexed_artifact lib prov now kind dataset scope rng byte_size hash version bytes =
     act_bind ensure_publication_running (\<lambda>_.
     act_bind (reuse_or_pin prov
       (live_indexed_artifact_cid lib kind dataset scope rng byte_size hash version) bytes) (\<lambda>(cid, owned).
     act_bind (record_or_clean_up prov now cid owned
       (in_tx (record_indexed_artifact_pin now kind dataset scope rng cid byte_size hash version))) (\<lambda>_.
     act_bind ensure_publication_running (\<lambda>_.
       act_return cid))))"

definition ensure_artifact_available ::
  "('entry, 'manifest) audit_lib \<Rightarrow> 'p ipfs_provider \<Rightarrow> string \<Rightarrow> ('p, unit) publication" where
  "ensure_artifact_available lib prov text =
     act_bind (cid_is_available lib prov text) (\<lambda>present.
       if present then act_return () else act_fail (UnavailableArtifact text))"

definition ensure_indexed_artifacts_available ::
  "('entry, 'manifest) audit_lib \<Rightarrow> 'p ipfs_provider \<Rightarrow> string list \<Rightarrow> ('p, unit) publication" where
  "ensure_indexed_artifacts_available lib prov cids = act_each (ensure_artifact_available lib prov) cids"

definition pin_indexed_manifest ::
  "('entry, 'manifest) audit_lib \<Rightarrow> 'p ipfs_provider \<Rightarrow> timestamptz \<Rightarrow> cid list \<Rightarrow> u64 \<Rightarrow> u16 \<Rightarrow> string
   \<Rightarrow> ('p, cid) publication" where
  "pin_indexed_manifest lib prov now artifact_cids sequence version json =
     act_bind (act_lift (ok_or ByteSizeOverflow (try_from_len (length (text_bytes lib json))))) (\<lambda>byte_size.
     act_bind (ensure_indexed_artifacts_available lib prov artifact_cids) (\<lambda>_.
     act_bind (pin_owned prov (text_bytes lib json)) (\<lambda>cid.
     act_bind (record_or_clean_up prov now cid True
       (in_tx (record_indexed_manifest_pin now cid artifact_cids sequence byte_size
         (content_hash lib (text_bytes lib json)) version json))) (\<lambda>_.
     act_bind ensure_publication_running (\<lambda>_.
       act_return cid)))))"

definition activate_indexed_manifest :: "timestamptz \<Rightarrow> cid \<Rightarrow> u64 \<Rightarrow> ('p, unit) publication" where
  "activate_indexed_manifest now cid sequence =
     act_bind ensure_publication_running (\<lambda>_.
       in_tx (record_indexed_manifest_ipns_publication now cid sequence))"

text \<open>The pin section of \<open>reconcile_pending_manifest_with\<close>: the artifacts of the pending manifest are
  still there and its body is pinned again under the recorded cid.\<close>

definition repin_pending_manifest ::
  "('entry, 'manifest) audit_lib \<Rightarrow> 'p ipfs_provider \<Rightarrow> timestamptz \<Rightarrow> 'manifest pending_indexed_manifest
   \<Rightarrow> ('p, cid) publication" where
  "repin_pending_manifest lib prov now pending =
     act_bind (ensure_indexed_artifacts_available lib prov (pm_artifact_cids pending)) (\<lambda>_.
     act_bind (act_lift (ok_or (UnparsableCid (pm_cid pending)) (parse_cid_text lib (pm_cid pending)))) (\<lambda>cid.
     act_bind (pin_owned prov (text_bytes lib (pm_manifest_json pending))) (\<lambda>returned.
       if returned \<noteq> cid
       then act_bind (cleanup_uncommitted_pin_while_locked prov now returned) (\<lambda>_.
              act_fail (PubIpfs (CidMismatch (prov_service_name prov) cid returned)))
       else act_bind settle_pin_ownership (\<lambda>_.
            act_bind ensure_publication_running (\<lambda>_.
              act_return cid)))))"

section \<open>The POI channel\<close>

record poi_descriptor =
  pd_scope :: poi_scope
  pd_range :: "(u64 \<times> u64) option"
  pd_byte_size :: u64
  pd_end_root :: "bytes32 option"
  pd_json :: "string option"

definition record_described ::
  "timestamptz \<Rightarrow> poi_artifact_publication_kind \<Rightarrow> cid \<Rightarrow> bytes32 \<Rightarrow> string + poi_descriptor
   \<Rightarrow> ('p, poi_descriptor) publication" where
  "record_described now kind cid hash described =
     act_bind (act_lift (map_err DescriptorRejected described)) (\<lambda>d.
     act_bind (act_lift (ok_or (PubAudit AuditJson) (pd_json d))) (\<lambda>json.
     act_bind (in_tx (record_poi_artifact_pin now kind (pd_scope d) (pd_range d) cid (pd_byte_size d) hash
       (pd_end_root d) json)) (\<lambda>_.
       act_return d)))"

text \<open>\<open>publish_poi_event_artifact\<close>, \<open>publish_poi_checkpoint_catalog\<close> and \<open>publish_poi_blocked_shields\<close>
  run the same section over the bytes, the lookup columns and the descriptor of their artifact.\<close>

definition publish_poi_artifact ::
  "('entry, 'manifest) audit_lib \<Rightarrow> 'p ipfs_provider \<Rightarrow> timestamptz \<Rightarrow> poi_artifact_publication_kind
   \<Rightarrow> poi_scope \<Rightarrow> (u64 \<times> u64) option \<Rightarrow> bytes32 \<Rightarrow> bytes32 option \<Rightarrow> u8 list
   \<Rightarrow> (cid \<Rightarrow> string + poi_descriptor) \<Rightarrow> ('p, poi_descriptor \<times> bool) publication" where
  "publish_poi_artifact lib prov now kind scope rng hash end_root bytes describe =
     act_bind ensure_publication_running (\<lambda>_.
     act_bind (act_lift (ok_or ByteSizeOverflow (try_from_len (length bytes)))) (\<lambda>byte_size.
     act_bind (reuse_or_pin prov
       (live_poi_artifact_cid lib kind scope rng byte_size hash end_root) bytes) (\<lambda>(cid, owned).
     act_bind (record_or_clean_up prov now cid owned
       (record_described now kind cid hash (describe cid))) (\<lambda>d.
     act_bind ensure_publication_running (\<lambda>_.
       act_return (d, \<not> owned))))))"

definition publish_poi_manifests ::
  "('entry, 'manifest) audit_lib \<Rightarrow> 'p ipfs_provider \<Rightarrow> timestamptz \<Rightarrow> 'entry list \<Rightarrow> cid list
   \<Rightarrow> poi_publication_sequence_lease \<Rightarrow> u8 list \<Rightarrow> ('p, cid) publication" where
  "publish_poi_manifests lib prov now entries graph_cids lease bytes =
     act_bind ensure_publication_running (\<lambda>_.
     act_bind (pin_owned prov bytes) (\<lambda>cid.
     act_bind (act_on_error ensure_publication_running
       (\<lambda>_. cleanup_uncommitted_pin_while_locked prov now cid)) (\<lambda>_.
     act_bind (record_or_clean_up prov now cid True
       (act_bind (act_lift (ok_or ByteSizeOverflow (try_from_len (length bytes)))) (\<lambda>byte_size.
          in_tx (record_poi_artifact_manifest_pin lib now cid entries graph_cids (lease_sequence lease)
            byte_size (content_hash lib bytes))))) (\<lambda>_.
     act_bind ensure_publication_running (\<lambda>_.
       act_return cid)))))"

definition require_graph_cid ::
  "('entry, 'manifest) audit_lib \<Rightarrow> 'p ipfs_provider \<Rightarrow> string \<Rightarrow> ('p, unit) publication" where
  "require_graph_cid lib prov text =
     act_bind (cid_is_available lib prov text) (\<lambda>present.
       if present then act_return () else act_fail (UnavailableGraphCid text))"

definition require_graph ::
  "('entry, 'manifest) audit_lib \<Rightarrow> 'p ipfs_provider \<Rightarrow> string list \<Rightarrow> ('p, unit) publication" where
  "require_graph lib prov cids = act_each (require_graph_cid lib prov) cids"

definition record_v4_ipns ::
  "('entry, 'manifest) audit_lib \<Rightarrow> timestamptz \<Rightarrow> string \<Rightarrow> u64 \<Rightarrow> ('p, unit) publication" where
  "record_v4_ipns lib now text sequence =
     act_bind (act_lift (ok_or (UnparsableCid text) (parse_cid_text lib text))) (\<lambda>cid.
       in_tx (record_poi_artifact_manifest_ipns_publication now cid sequence))"

definition wrap_poi_failure :: "('p, 'a) publication \<Rightarrow> ('p, 'a) publication" where
  "wrap_poi_failure m w = (case m w of (r, w') \<Rightarrow> (map_err PoiIpnsFailed r, w'))"

definition publish_poi_ipns ::
  "('entry, 'manifest) audit_lib \<Rightarrow> 'p ipfs_provider \<Rightarrow> (cid \<Rightarrow> u64 \<Rightarrow> string + unit) \<Rightarrow> timestamptz
   \<Rightarrow> cid list \<Rightarrow> cid \<Rightarrow> u64 \<Rightarrow> ('p, unit) publication" where
  "publish_poi_ipns lib prov ipns now graph_cids cid sequence =
     act_bind ensure_publication_running (\<lambda>_.
       wrap_poi_failure (
         act_bind (require_graph lib prov (graph_cids @ [cid])) (\<lambda>_.
         act_bind (act_lift (map_err IpnsFailed (ipns cid sequence))) (\<lambda>_.
         act_bind ensure_publication_running (\<lambda>_.
           record_v4_ipns lib now cid sequence)))))"

text \<open>\<open>reconcile_pending_poi_publications\<close>: the first cid of the pending graph that is gone, if any,
  decides between abandoning and activating.\<close>

datatype pending_poi_publication_reconciliation = NothingPending | Activated | Abandoned

fun first_unavailable ::
  "('entry, 'manifest) audit_lib \<Rightarrow> 'p ipfs_provider \<Rightarrow> string list \<Rightarrow> ('p, string option) publication" where
  "first_unavailable lib prov [] = act_return None"
| "first_unavailable lib prov (c # cs) =
     act_bind (cid_is_available lib prov c) (\<lambda>present.
       if present then first_unavailable lib prov cs else act_return (Some c))"

definition abandon_pending ::
  "('entry, 'manifest) audit_lib \<Rightarrow> timestamptz \<Rightarrow> pending_manifest_row \<Rightarrow> string \<Rightarrow> bool
   \<Rightarrow> ('p, pending_poi_publication_reconciliation) publication" where
  "abandon_pending lib now pending unavailable is_artifact =
     act_bind (act_lift (ok_or (UnparsableCid unavailable) (parse_cid_text lib unavailable))) (\<lambda>gone.
     act_bind (act_lift (ok_or (UnparsableCid (pm_cid pending)) (parse_cid_text lib (pm_cid pending)))) (\<lambda>cid.
     act_bind (in_tx (abandon_pending_poi_v4_manifest_reconciliation now cid (pm_sequence pending)
       (if is_artifact then Some gone else None))) (\<lambda>_.
       act_return Abandoned)))"

definition reconcile_pending_poi_publications ::
  "('entry, 'manifest) audit_lib \<Rightarrow> 'p ipfs_provider \<Rightarrow> (cid \<Rightarrow> u64 \<Rightarrow> string + unit) \<Rightarrow> timestamptz
   \<Rightarrow> ('p, pending_poi_publication_reconciliation) publication" where
  "reconcile_pending_poi_publications lib prov ipns now =
     act_bind ensure_publication_running (\<lambda>_.
     act_bind (query pending_manifest_publication) (\<lambda>found.
       case found of
         None \<Rightarrow> act_return NothingPending
       | Some pending \<Rightarrow>
           act_bind (first_unavailable lib prov (pm_artifact_cids pending)) (\<lambda>gone.
             case gone of
               Some c \<Rightarrow> abandon_pending lib now pending c True
             | None \<Rightarrow>
                 act_bind (cid_is_available lib prov (pm_cid pending)) (\<lambda>present.
                   if \<not> present then abandon_pending lib now pending (pm_cid pending) False
                   else
                     act_bind (act_lift (map_err IpnsFailed (ipns (pm_cid pending) (pm_sequence pending)))) (\<lambda>_.
                     act_bind ensure_publication_running (\<lambda>_.
                     act_bind (record_v4_ipns lib now (pm_cid pending) (pm_sequence pending)) (\<lambda>_.
                       act_return Activated)))))))"

end
