(* ===== verification/Pin_Safety.thy ===== *)
theory Pin_Safety
  imports Pin_Lifecycle
begin

text \<open>
  The publication schedulers, the retention sweep and the operator's recovery command run concurrently.
  \<open>pin_step\<close> interleaves their sections, which the code only runs on texts that a cid was displayed as; the ghost fields of a \<open>system\<close> are the sequence lease that
  the current POI cycle holds and the sequence numbers whose graph a publisher has found available.

  Shown: in every reachable state the content of every live chain-indexed manifest and of every active
  POI manifest is held by the provider: nothing the indexer does takes away what a reader of the current
  manifests needs.
\<close>

record 'p system =
  sys_world :: "'p pin_world"
  sys_lease :: "u64 option"
  sys_verified :: "int set"

definition sweep_world ::
  "('p sweep_state \<Rightarrow> (audit_error + unit) \<times> 'p sweep_state) \<Rightarrow> 'p pin_world \<Rightarrow> 'p pin_world" where
  "sweep_world f w =
     (let st = snd (f \<lparr>sw_db = w_db w, sw_provider = w_provider w, sw_unpinned = [], sw_failed = []\<rparr>)
      in w\<lparr>w_db := sw_db st, w_provider := sw_provider st\<rparr>)"

inductive pin_step ::
  "('entry, 'manifest) audit_lib \<Rightarrow> 'p ipfs_provider \<Rightarrow> 'p system \<Rightarrow> 'p system \<Rightarrow> bool"
  for lib prov where
  environment:
    "pin_step lib prov s (s\<lparr>sys_world := (sys_world s)\<lparr>w_stops := stops, w_accepting := accepting\<rparr>\<rparr>)"
| indexed_artifact:
    "pin_step lib prov s (s\<lparr>sys_world := snd (reuse_or_pin_indexed_artifact lib prov now kind dataset scope
       rng byte_size hash version bytes (sys_world s))\<rparr>)"
| indexed_manifest:
    "\<forall>c \<in> set cids. canonical lib c \<Longrightarrow>
     pin_step lib prov s (s\<lparr>sys_world := snd (pin_indexed_manifest lib prov now cids sequence version json
       (sys_world s))\<rparr>)"
| indexed_repin:
    "\<forall>c \<in> set (pm_artifact_cids pending). canonical lib c \<Longrightarrow>
     pin_step lib prov s (s\<lparr>sys_world := snd (repin_pending_manifest lib prov now pending (sys_world s))\<rparr>)"
| indexed_activate:
    "pin_step lib prov s (s\<lparr>sys_world := snd (activate_indexed_manifest now cid sequence (sys_world s))\<rparr>)"
| poi_artifact:
    "pin_step lib prov s (s\<lparr>sys_world := snd (publish_poi_artifact lib prov now pkind pscope prng hash root
       bytes describe (sys_world s))\<rparr>)"
| poi_reserve:
    "reserve_cycle minimum (indexer_state (w_db (sys_world s))) = Inr (lease, t) \<Longrightarrow>
     pin_step lib prov s (s\<lparr>sys_lease := Some (lease_sequence lease),
       sys_world := (sys_world s)\<lparr>w_db := (w_db (sys_world s))\<lparr>indexer_state := t\<rparr>\<rparr>\<rparr>)"
| poi_manifest:
    "sys_lease s = Some q \<Longrightarrow>
     pin_step lib prov s (s\<lparr>sys_lease := None, sys_world := snd (publish_poi_manifests lib prov now entries
       cids (SequenceLease q) bytes (sys_world s))\<rparr>)"
| poi_verify:
    "(i, m) \<in> set (poi_manifests (w_db (sys_world s))) \<Longrightarrow>
     insert (mr_cid m) {c. (i, c) \<in> set (poi_manifest_artifacts (w_db (sys_world s)))} \<subseteq> set cids \<Longrightarrow>
     \<forall>c \<in> set cids. canonical lib c \<Longrightarrow>
     require_graph lib prov cids (sys_world s) = (Inr (), w) \<Longrightarrow>
     pin_step lib prov s (s\<lparr>sys_world := w, sys_verified := insert (mr_ipns_sequence m) (sys_verified s)\<rparr>)"
| poi_activate:
    "int (unat sequence) \<in> sys_verified s \<Longrightarrow>
     pin_step lib prov s (s\<lparr>sys_world := snd (record_v4_ipns lib now text sequence (sys_world s))\<rparr>)"
| poi_abandon:
    "pin_step lib prov s (s\<lparr>sys_world := snd (abandon_pending lib now ppending text is_artifact
       (sys_world s))\<rparr>)"
| poi_invalidate:
    "pin_step lib prov s (s\<lparr>sys_world := snd (in_tx
       (invalidate_pending_poi_manifest_reconciliation now cid sequence) (sys_world s))\<rparr>)"
| sweep_one:
    "canonical lib text \<Longrightarrow>
     pin_step lib prov s (s\<lparr>sys_world := sweep_world (\<lambda>st.
       sweep_cid lib (prov_error_text prov) (prov_unpin prov) swept_at cutoff st text) (sys_world s)\<rparr>)"
| debt_one:
    "canonical lib (fst debt) \<Longrightarrow>
     pin_step lib prov s (s\<lparr>sys_world := sweep_world (\<lambda>st.
       retry_debt lib (prov_error_text prov) (prov_unpin prov) st debt) (sys_world s)\<rparr>)"

definition empty_publications :: publication_db where
  "empty_publications =
     \<lparr>indexed_artifacts = [], indexed_manifests = [], indexed_manifest_artifacts = [],
      next_indexed_manifest_id = 1, poi_artifacts = [], poi_manifests = [], poi_manifest_entries = [],
      poi_manifest_artifacts = [], next_poi_manifest_id = 1, pin_cleanup_debt = [], indexer_state = []\<rparr>"

definition initial_system :: "'p \<Rightarrow> 'p system" where
  "initial_system p =
     \<lparr>sys_world = \<lparr>w_db = empty_publications, w_provider = p, w_stops = [], w_accepting = True, w_owners = 0\<rparr>,
      sys_lease = None, sys_verified = {}\<rparr>"

inductive reachable ::
  "('entry, 'manifest) audit_lib \<Rightarrow> 'p ipfs_provider \<Rightarrow> 'p system \<Rightarrow> bool" for lib prov where
  start: "reachable lib prov (initial_system p)"
| step: "reachable lib prov s \<Longrightarrow> pin_step lib prov s s' \<Longrightarrow> reachable lib prov s'"

section \<open>The invariant\<close>

definition ids_ok :: "(nat, manifest_row) tbl \<Rightarrow> (nat \<times> cid) list \<Rightarrow> nat \<Rightarrow> bool" where
  "ids_ok t edges next_id \<longleftrightarrow>
     keyed t \<and> (\<forall>i \<in> fst ` set t. i < next_id) \<and> (\<forall>i \<in> fst ` set edges. i < next_id)"

definition held_of :: "nat \<Rightarrow> (nat \<times> cid) list \<Rightarrow> cid set \<Rightarrow> bool" where
  "held_of i edges H \<longleftrightarrow> (\<forall>c. (i, c) \<in> set edges \<longrightarrow> c \<in> H)"

definition indexed_safe :: "publication_db \<Rightarrow> cid set \<Rightarrow> bool" where
  "indexed_safe db H \<longleftrightarrow>
     (\<forall>(i, m) \<in> set (indexed_manifests db). live_manifest m \<longrightarrow> held_of i (indexed_manifest_artifacts db) H)"

definition poi_safe :: "publication_db \<Rightarrow> cid set \<Rightarrow> int set \<Rightarrow> bool" where
  "poi_safe db H verified \<longleftrightarrow>
     (\<forall>(i, m) \<in> set (poi_manifests db).
        live_manifest m \<and> (mr_ipns_published_at m \<noteq> None \<or> mr_ipns_sequence m \<in> verified)
        \<longrightarrow> mr_cid m \<in> H \<and> held_of i (poi_manifest_artifacts db) H)"

definition manifest_seqs :: "publication_db \<Rightarrow> (nat \<times> int) set" where
  "manifest_seqs db = (\<lambda>(i, m). (i, mr_ipns_sequence m)) ` set (poi_manifests db)"

definition sequences_ok :: "(nat \<times> int) set \<Rightarrow> i64 option \<Rightarrow> u64 option \<Rightarrow> int set \<Rightarrow> bool" where
  "sequences_ok S stored lease verified \<longleftrightarrow>
     inj_on snd S \<and> verified \<subseteq> snd ` S
     \<and> (\<forall>a \<in> snd ` S. \<exists>v. stored = Some v \<and> a \<le> v)
     \<and> (\<forall>q. lease = Some q \<longrightarrow>
          (\<exists>v. stored = Some v \<and> int (unat q) \<le> v) \<and> (\<forall>a \<in> snd ` S. a < int (unat q)))"

abbreviation stored_sequence :: "publication_db \<Rightarrow> i64 option" where
  "stored_sequence db \<equiv> map_of (indexer_state db) IPNS_SEQUENCE_STATE_KEY"

definition pin_inv :: "publication_db \<Rightarrow> cid set \<Rightarrow> u64 option \<Rightarrow> int set \<Rightarrow> bool" where
  "pin_inv db H lease verified \<longleftrightarrow>
     ids_ok (indexed_manifests db) (indexed_manifest_artifacts db) (next_indexed_manifest_id db)
     \<and> ids_ok (poi_manifests db) (poi_manifest_artifacts db) (next_poi_manifest_id db)
     \<and> indexed_safe db H \<and> poi_safe db H verified
     \<and> sequences_ok (manifest_seqs db) (stored_sequence db) lease verified"

text \<open>The fields of the database that the invariant reads.\<close>

definition same_manifests :: "publication_db \<Rightarrow> publication_db \<Rightarrow> bool" where
  "same_manifests db db' \<longleftrightarrow>
     indexed_manifests db' = indexed_manifests db
     \<and> indexed_manifest_artifacts db' = indexed_manifest_artifacts db
     \<and> next_indexed_manifest_id db' = next_indexed_manifest_id db
     \<and> poi_manifests db' = poi_manifests db \<and> poi_manifest_artifacts db' = poi_manifest_artifacts db
     \<and> next_poi_manifest_id db' = next_poi_manifest_id db \<and> indexer_state db' = indexer_state db"

lemma pin_inv_frame: "pin_inv db H lease verified \<Longrightarrow> same_manifests db db' \<Longrightarrow> pin_inv db' H lease verified"
  by (simp add: pin_inv_def same_manifests_def indexed_safe_def poi_safe_def manifest_seqs_def)

lemma held_of_mono: "held_of i edges H \<Longrightarrow> H \<subseteq> H' \<Longrightarrow> held_of i edges H'"
  by (auto simp: held_of_def)

lemma pin_inv_mono:
  assumes "pin_inv db H lease verified" and "H \<subseteq> H'"
  shows "pin_inv db H' lease verified"
  using assms by (fastforce simp: pin_inv_def indexed_safe_def poi_safe_def intro: held_of_mono)

text \<open>A cid that no live manifest needs may go.\<close>

definition needed :: "publication_db \<Rightarrow> cid \<Rightarrow> bool" where
  "needed db c \<longleftrightarrow>
     edge_to live_manifest (indexed_manifests db) (indexed_manifest_artifacts db) c
     \<or> exists_where (\<lambda>_ m. mr_cid m = c \<and> live_manifest m) (poi_manifests db)
     \<or> edge_to live_manifest (poi_manifests db) (poi_manifest_artifacts db) c"

lemma pin_inv_unpin:
  assumes inv: "pin_inv db H lease verified" and no: "\<not> needed db c" and H': "H - {c} \<subseteq> H'"
  shows "pin_inv db H' lease verified"
proof -
  have indexed: "held_of i (indexed_manifest_artifacts db) H'"
    if "(i, m) \<in> set (indexed_manifests db)" "live_manifest m" for i m
    using inv no H' that
    by (fastforce simp: pin_inv_def indexed_safe_def held_of_def needed_def edge_to_def exists_where_iff)
  have poi: "mr_cid m \<in> H' \<and> held_of i (poi_manifest_artifacts db) H'"
    if "(i, m) \<in> set (poi_manifests db)" "live_manifest m"
      "mr_ipns_published_at m \<noteq> None \<or> mr_ipns_sequence m \<in> verified" for i m
  proof -
    have "mr_cid m \<in> H" "held_of i (poi_manifest_artifacts db) H"
      using inv that by (auto simp: pin_inv_def poi_safe_def)
    moreover have "mr_cid m \<noteq> c" "(i, c) \<notin> set (poi_manifest_artifacts db)"
      using no that by (auto simp: needed_def edge_to_def exists_where_iff)
    ultimately show ?thesis using H' by (auto simp: held_of_def)
  qed
  show ?thesis
    using inv indexed poi by (auto simp: pin_inv_def indexed_safe_def poi_safe_def)
qed

lemma unreferenced_not_needed: "\<not> publication_cid_is_referenced db c \<Longrightarrow> \<not> needed db c"
  by (fastforce simp: publication_cid_is_referenced_def needed_def edge_to_def exists_where_iff
      live_manifest_def)

lemma eligible_not_needed: "still_eligible cutoff db c \<Longrightarrow> \<not> needed db c"
  by (auto simp: still_eligible_def retention_protected_def needed_def)

section \<open>Sections that only pin\<close>

definition pinv ::
  "('p \<Rightarrow> cid set) \<Rightarrow> u64 option \<Rightarrow> int set \<Rightarrow> cid set \<Rightarrow> 'p pin_world \<Rightarrow> bool" where
  "pinv holds lease verified X w \<longleftrightarrow>
     pin_inv (w_db w) (holds (w_provider w)) lease verified \<and> X \<subseteq> holds (w_provider w)"

lemma pinv_subset: "pinv holds lease verified X w \<Longrightarrow> Y \<subseteq> X \<Longrightarrow> pinv holds lease verified Y w"
  by (auto simp: pinv_def)

lemma pinv_db:
  "pinv holds lease verified X w \<Longrightarrow> same_manifests (w_db w) db \<Longrightarrow>
   pinv holds lease verified X (w\<lparr>w_db := db\<rparr>)"
  by (auto simp: pinv_def intro: pin_inv_frame)

lemma pinv_provider:
  "pinv holds lease verified X w \<Longrightarrow> holds (w_provider w) \<subseteq> holds p \<Longrightarrow>
   pinv holds lease verified X (w\<lparr>w_provider := p\<rparr>)"
  by (auto simp: pinv_def intro: pin_inv_mono)

lemma pinv_irrelevant [simp]:
  "pinv holds lease verified X (w\<lparr>w_stops := stops\<rparr>) = pinv holds lease verified X w"
  "pinv holds lease verified X (w\<lparr>w_owners := n\<rparr>) = pinv holds lease verified X w"
  "pinv holds lease verified X (w\<lparr>w_accepting := a\<rparr>) = pinv holds lease verified X w"
  by (simp_all add: pinv_def)

lemma running_keeps: "keeps (pinv holds lease verified X) ensure_publication_running"
  by (auto simp: keeps_def triple_def ensure_publication_running_def split: list.splits)

lemma settle_keeps: "keeps (pinv holds lease verified X) settle_pin_ownership"
  by (auto simp: settle_pin_ownership_def keeps_def intro: triple_modify)

lemma acquire_keeps: "keeps (pinv holds lease verified X) acquire_pin_ownership"
  unfolding acquire_pin_ownership_def
  by (intro keeps_bind running_keeps)
     (auto simp: keeps_def triple_def try_acquire_pin_ownership_def act_defs)

lemma query_keeps: "keeps (pinv holds lease verified X) (query q)"
  by (auto simp: keeps_def triple_def query_def split: sum.splits)

lemma pin_bytes_triple:
  assumes "provider_ok prov holds"
  shows "triple (pinv holds lease verified X) (pin_bytes prov bytes)
    (\<lambda>c. pinv holds lease verified (insert c X)) (pinv holds lease verified X)"
proof -
  have "pinv holds lease verified X (w\<lparr>w_provider := p\<rparr>)"
    "r = Inr c \<Longrightarrow> pinv holds lease verified (insert c X) (w\<lparr>w_provider := p\<rparr>)"
    if "pinv holds lease verified X w" "prov_pin prov (w_provider w) bytes = (r, p)" for w r p c
  proof -
    from assms that(2) have "holds (w_provider w) \<subseteq> holds p" "r = Inr c \<Longrightarrow> c \<in> holds p"
      by (auto simp: provider_ok_def) (metis fst_conv snd_conv subsetD)+
    then show "pinv holds lease verified X (w\<lparr>w_provider := p\<rparr>)"
      "r = Inr c \<Longrightarrow> pinv holds lease verified (insert c X) (w\<lparr>w_provider := p\<rparr>)"
      using pinv_provider [OF that(1)] by (auto simp: pinv_def)
  qed
  then show ?thesis
    by (fastforce simp: triple_def pin_bytes_def map_err_def split: prod.splits sum.splits)
qed

lemma contains_triple:
  assumes "provider_ok prov holds"
  shows "triple (pinv holds lease verified X) (contains_cid prov c)
    (\<lambda>present. pinv holds lease verified (if present then insert c X else X)) (pinv holds lease verified X)"
proof -
  have "pinv holds lease verified X (w\<lparr>w_provider := p\<rparr>)"
    "r = Inr True \<Longrightarrow> pinv holds lease verified (insert c X) (w\<lparr>w_provider := p\<rparr>)"
    if "pinv holds lease verified X w" "prov_contains prov (w_provider w) c = (r, p)" for w r p
  proof -
    from assms that(2) have "holds (w_provider w) \<subseteq> holds p" "r = Inr True \<Longrightarrow> c \<in> holds (w_provider w)"
      by (auto simp: provider_ok_def) (metis fst_conv snd_conv subsetD)+
    then show "pinv holds lease verified X (w\<lparr>w_provider := p\<rparr>)"
      "r = Inr True \<Longrightarrow> pinv holds lease verified (insert c X) (w\<lparr>w_provider := p\<rparr>)"
      using pinv_provider [OF that(1)] by (auto simp: pinv_def)
  qed
  then show ?thesis
    by (fastforce simp: triple_def contains_cid_def map_err_def split: prod.splits sum.splits if_splits)
qed

lemma same_debt: "same_manifests db (record_pin_cleanup_debt now cid provider error db)"
  by (simp add: same_manifests_def record_pin_cleanup_debt_def)

lemma cleanup_triple:
  assumes "provider_ok prov holds"
  shows "keeps (pinv holds lease verified {}) (cleanup_uncommitted_pin_while_locked prov now cid)"
proof -
  have unpin: "pinv holds lease verified {} (w\<lparr>w_provider := p\<rparr>)"
    if "pinv holds lease verified {} w" "\<not> publication_cid_is_referenced (w_db w) cid"
      "prov_unpin prov (w_provider w) cid = (r, p)" for w r p
  proof -
    have "holds (w_provider w) - {cid} \<subseteq> holds p"
      using assms that(3) by (auto simp: provider_ok_def) (metis Diff_iff singletonD snd_conv subsetD)
    then show ?thesis
      using pin_inv_unpin [OF _ unreferenced_not_needed [OF that(2)]] that(1) by (simp add: pinv_def)
  qed
  have "triple (\<lambda>w. pinv holds lease verified {} w \<and> \<not> publication_cid_is_referenced (w_db w) cid)
    (act_modify (\<lambda>w. case prov_unpin prov (w_provider w) cid of
        (Inr _, p) \<Rightarrow> w\<lparr>w_provider := p\<rparr>
      | (Inl error, p) \<Rightarrow> w\<lparr>w_provider := p, w_db := record_pin_cleanup_debt now cid
          (prov_service_name prov) (prov_error_text prov error) (w_db w)\<rparr>))
    (\<lambda>_. pinv holds lease verified {}) (pinv holds lease verified {})"
  proof (rule triple_modify, goal_cases)
    case (1 w)
    obtain r p where rp: "prov_unpin prov (w_provider w) cid = (r, p)" by fastforce
    with 1 unpin have "pinv holds lease verified {} (w\<lparr>w_provider := p\<rparr>)" by blast
    from this pinv_db [OF this, of "record_pin_cleanup_debt now cid (prov_service_name prov) t (w_db w)" for t]
    show ?case by (cases r) (simp_all add: rp same_debt)
  qed
  then show ?thesis
    unfolding cleanup_uncommitted_pin_while_locked_def keeps_def
    by (intro triple_bind [OF triple_get [where Q = "\<lambda>r w. pinv holds lease verified {} w \<and>
            (r \<longleftrightarrow> publication_cid_is_referenced (w_db w) cid)"]]
          triple_bind [where Q = "\<lambda>_. pinv holds lease verified {}"] triple_if triple_return
          settle_keeps [unfolded keeps_def])
       (auto elim: triple_weaken)
qed

lemmas keeps_triple = keeps_def [THEN iffD1]

lemma pin_owned_triple:
  assumes "provider_ok prov holds"
  shows "triple (pinv holds lease verified X) (pin_owned prov bytes)
    (\<lambda>c. pinv holds lease verified (insert c X)) (pinv holds lease verified X)"
  unfolding pin_owned_def
  by (intro triple_bind [OF keeps_triple [OF acquire_keeps]]
      triple_on_error [OF pin_bytes_triple [OF assms] keeps_triple [OF settle_keeps]])

lemma reuse_or_pin_triple:
  assumes "provider_ok prov holds"
  shows "triple (pinv holds lease verified X) (reuse_or_pin prov lookup bytes)
    (\<lambda>_. pinv holds lease verified X) (pinv holds lease verified X)"
proof -
  have pin: "triple (pinv holds lease verified X)
      (act_bind (pin_owned prov bytes) (\<lambda>cid. act_return (cid, True)))
      (\<lambda>_. pinv holds lease verified X) (pinv holds lease verified X)"
    by (rule triple_bind [OF pin_owned_triple [OF assms]])
       (auto intro!: triple_return elim: pinv_subset)
  have contains: "triple (pinv holds lease verified X) (contains_cid prov c)
      (\<lambda>_. pinv holds lease verified X) (pinv holds lease verified X)" for c
    by (rule triple_weaken [OF contains_triple [OF assms]]) (auto elim: pinv_subset split: if_splits)
  show ?thesis
    unfolding reuse_or_pin_def
    by (intro triple_bind [OF keeps_triple [OF query_keeps]] triple_option
        triple_bind [OF triple_weaken [OF contains, where Q' = "\<lambda>_. pinv holds lease verified X"]] triple_if triple_return
        triple_weaken [OF pin]) auto
qed

lemma record_or_clean_up_triple:
  assumes ok: "provider_ok prov holds"
    and rec: "triple (pinv holds lease verified X) record (\<lambda>_. pinv holds lease' verified {})
      (pinv holds lease' verified {})"
  shows "triple (pinv holds lease verified X) (record_or_clean_up prov now cid owned record)
    (\<lambda>_. pinv holds lease' verified {}) (pinv holds lease' verified {})"
  unfolding record_or_clean_up_def
  by (intro triple_bind [OF triple_on_error [OF rec]] triple_bind [where Q = "\<lambda>_. pinv holds lease' verified {}"]
      triple_if triple_return triple_weaken [OF keeps_triple [OF cleanup_triple [OF ok]]]
      triple_weaken [OF keeps_triple [OF settle_keeps]]) auto

lemma in_tx_triple:
  assumes "\<And>w db. P w \<Longrightarrow> tx (w_db w) = Inr db \<Longrightarrow> Q () (w\<lparr>w_db := db\<rparr>)" and "\<And>w. P w \<Longrightarrow> E w"
  shows "triple P (in_tx tx) Q E"
  using assms by (auto simp: triple_def in_tx_def split: sum.splits)

lemma in_tx_same:
  assumes "\<And>db db'. tx db = Inr db' \<Longrightarrow> same_manifests db db'"
  shows "triple (pinv holds lease verified X) (in_tx tx) (\<lambda>_. pinv holds lease verified {})
    (pinv holds lease verified {})"
  by (rule in_tx_triple) (auto intro: pinv_db assms elim: pinv_subset)

lemma same_indexed_artifact:
  "record_indexed_artifact_pin now kind dataset scope rng cid byte_size hash version db = Inr db'
   \<Longrightarrow> same_manifests db db'"
  by (auto simp: record_indexed_artifact_pin_def result_simps same_manifests_def)

lemma same_poi_artifact:
  "record_poi_artifact_pin now kind scope rng cid byte_size hash end_root json db = Inr db'
   \<Longrightarrow> same_manifests db db'"
  by (auto simp: record_poi_artifact_pin_def result_simps same_manifests_def Let_def split_def
      split: if_splits)

lemma indexed_artifact_keeps:
  assumes ok: "provider_ok prov holds"
  shows "keeps (pinv holds lease verified {}) (reuse_or_pin_indexed_artifact lib prov now kind dataset scope
    rng byte_size hash version bytes)"
  unfolding reuse_or_pin_indexed_artifact_def keeps_def
  by (intro triple_bind [OF keeps_triple [OF running_keeps]] triple_bind [OF reuse_or_pin_triple [OF ok]])
     (auto split: prod.splits intro!: triple_bind [OF record_or_clean_up_triple [OF ok in_tx_same]]
        triple_bind [OF keeps_triple [OF running_keeps]] triple_return same_indexed_artifact)

lemma poi_artifact_keeps:
  assumes ok: "provider_ok prov holds"
  shows "keeps (pinv holds lease verified {}) (publish_poi_artifact lib prov now kind scope rng hash end_root
    bytes describe)"
proof -
  have rec: "triple (pinv holds lease verified X) (record_described now kind cid hash d)
    (\<lambda>_. pinv holds lease verified {}) (pinv holds lease verified {})" for X cid d
    unfolding record_described_def
    by (intro triple_bind [where Q = "\<lambda>_. pinv holds lease verified X"] triple_lift
        triple_bind [where Q = "\<lambda>_. pinv holds lease verified {}"] in_tx_same triple_return)
       (auto elim: pinv_subset same_poi_artifact)
  show ?thesis
    unfolding publish_poi_artifact_def keeps_def
    by (intro triple_bind [OF keeps_triple [OF running_keeps]]
        triple_bind [where Q = "\<lambda>_. pinv holds lease verified {}"] triple_lift
        reuse_or_pin_triple [OF ok])
       (auto split: prod.splits intro!: triple_bind [OF record_or_clean_up_triple [OF ok rec]]
          triple_bind [OF keeps_triple [OF running_keeps]] triple_return)
qed

section \<open>Updates of manifest rows\<close>

text \<open>An update of manifest rows keeps the invariant if it revives no row, moves no cid or sequence, and
  publishes only rows whose graph was found available.\<close>

definition harmless_update ::
  "int set \<Rightarrow> (nat \<Rightarrow> manifest_row \<Rightarrow> bool) \<Rightarrow> (manifest_row \<Rightarrow> manifest_row) \<Rightarrow> bool" where
  "harmless_update verified P f \<longleftrightarrow>
     (\<forall>i m. P i m \<longrightarrow>
        mr_cid (f m) = mr_cid m \<and> mr_ipns_sequence (f m) = mr_ipns_sequence m
        \<and> (live_manifest (f m) \<longrightarrow> live_manifest m)
        \<and> (mr_ipns_published_at (f m) \<noteq> None \<longrightarrow>
             mr_ipns_published_at m \<noteq> None \<or> mr_ipns_sequence m \<in> verified))"

lemma ids_ok_update: "ids_ok (fst (update_where P f t)) edges n = ids_ok t edges n"
  unfolding ids_ok_def update_keyed by (metis (no_types) list.set_map update_keys)

lemma update_indexed:
  assumes "pin_inv db H lease verified" and "harmless_update V P f"
  shows "pin_inv (db\<lparr>indexed_manifests := fst (update_where P f (indexed_manifests db))\<rparr>) H lease verified"
proof -
  have "indexed_safe (db\<lparr>indexed_manifests := fst (update_where P f (indexed_manifests db))\<rparr>) H"
    using assms
    by (fastforce simp: pin_inv_def indexed_safe_def harmless_update_def in_update_where split: if_splits)
  then show ?thesis
    using assms(1) by (simp add: pin_inv_def ids_ok_update poi_safe_def manifest_seqs_def)
qed

lemma update_poi:
  assumes inv: "pin_inv db H lease verified" and "harmless_update verified P f"
    and state: "\<And>v. map_of (indexer_state db) IPNS_SEQUENCE_STATE_KEY = Some v \<Longrightarrow>
      \<exists>v'. map_of st IPNS_SEQUENCE_STATE_KEY = Some v' \<and> v \<le> v'"
  shows "pin_inv (db\<lparr>poi_manifests := fst (update_where P f (poi_manifests db)), indexer_state := st\<rparr>)
    H lease verified"
proof -
  let ?db = "db\<lparr>poi_manifests := fst (update_where P f (poi_manifests db)), indexer_state := st\<rparr>"
  have row: "mr_cid (if P i m then f m else m) = mr_cid m"
    "mr_ipns_sequence (if P i m then f m else m) = mr_ipns_sequence m"
    "live_manifest (if P i m then f m else m) \<Longrightarrow> live_manifest m"
    "mr_ipns_published_at (if P i m then f m else m) \<noteq> None \<Longrightarrow>
       mr_ipns_published_at m \<noteq> None \<or> mr_ipns_sequence m \<in> verified" for i m
    using assms(2) by (cases "P i m"; auto simp: harmless_update_def)+
  have "poi_safe ?db H verified"
    unfolding poi_safe_def
  proof (clarify, goal_cases)
    case (1 i w)
    then obtain m where m: "(i, m) \<in> set (poi_manifests db)" "w = (if P i m then f m else m)"
      by (auto simp: in_update_where)
    with 1 row [of i m] inv show ?case
      by (auto simp: pin_inv_def poi_safe_def split del: if_split)
  qed
  moreover have "manifest_seqs ?db = manifest_seqs db"
    by (force simp: manifest_seqs_def update_where_def row(2) split del: if_split)
  moreover have "sequences_ok (manifest_seqs db) (stored_sequence ?db) lease verified"
    using inv state by (fastforce simp: pin_inv_def sequences_ok_def)
  ultimately show ?thesis
    using inv by (simp add: pin_inv_def ids_ok_update indexed_safe_def)
qed

section \<open>Recording and activating manifests\<close>

lemma set_insert_edges: "set (insert_edges i cids edges) = set edges \<union> {i} \<times> set cids"
  unfolding insert_edges_def by (induction cids arbitrary: edges) auto

lemma new_manifest_live [simp]:
  "live_manifest (new_manifest now cid sequence byte_size hash version json)"
  "mr_ipns_published_at (new_manifest now cid sequence byte_size hash version json) = None"
  "mr_ipns_sequence (new_manifest now cid sequence byte_size hash version json) = sequence"
  by (simp_all add: new_manifest_def live_manifest_def)

lemma ids_ok_append:
  "ids_ok t edges n \<Longrightarrow> ids_ok (t @ [(n, m)]) (insert_edges n cids edges) (n + 1)"
  by (fastforce simp: ids_ok_def keyed_def set_insert_edges)

lemma held_of_insert:
  "held_of i (insert_edges n cids edges) H \<longleftrightarrow> held_of i edges H \<and> (i = n \<longrightarrow> set cids \<subseteq> H)"
  by (auto simp: held_of_def set_insert_edges)

lemma held_of_new: "ids_ok t edges n \<Longrightarrow> held_of n edges H"
  by (force simp: ids_ok_def held_of_def)

lemma ids_ok_less: "ids_ok t edges n \<Longrightarrow> (i, m) \<in> set t \<Longrightarrow> i < n"
  by (force simp: ids_ok_def)

lemma record_indexed_manifest_inv:
  assumes inv: "pin_inv db H lease verified" and held: "set cids \<subseteq> H"
    and rec: "record_indexed_manifest_pin now cid cids sequence byte_size hash version json db = Inr db'"
  shows "pin_inv db' H lease verified"
proof -
  from rec obtain x y where
    db': "db' = db\<lparr>indexed_manifests := indexed_manifests db @ [(next_indexed_manifest_id db,
        new_manifest now cid x y hash (int (unat version)) (Some json))],
      indexed_manifest_artifacts :=
        insert_edges (next_indexed_manifest_id db) cids (indexed_manifest_artifacts db),
      next_indexed_manifest_id := next_indexed_manifest_id db + 1\<rparr>"
    by (auto simp: record_indexed_manifest_pin_def insert_manifest_def result_simps)
  have ids: "ids_ok (indexed_manifests db) (indexed_manifest_artifacts db) (next_indexed_manifest_id db)"
    using inv by (simp add: pin_inv_def)
  have "indexed_safe db' H"
    using inv held held_of_new [OF ids] ids_ok_less [OF ids]
    by (fastforce simp: db' pin_inv_def indexed_safe_def held_of_insert)
  with inv ids_ok_append [OF ids] show ?thesis
    by (simp add: db' pin_inv_def poi_safe_def manifest_seqs_def)
qed

lemma entries_same:
  assumes "try_fold (insert_manifest_entry lib i) db entries = Inr db'"
  shows "same_manifests db db'"
  by (rule try_fold_invariant [OF assms])
     (auto simp: same_manifests_def insert_manifest_entry_def result_simps Let_def)

lemma sequences_ok_new:
  assumes "sequences_ok S stored (Some q) verified" and "a = int (unat q)"
  shows "sequences_ok (insert (n, a) S) stored None verified"
  using assms by (fastforce simp: sequences_ok_def inj_on_insert)

lemma sequences_ok_release: "sequences_ok S stored lease verified \<Longrightarrow> sequences_ok S stored None verified"
  by (simp add: sequences_ok_def)

lemma pin_inv_release: "pin_inv db H lease verified \<Longrightarrow> pin_inv db H None verified"
  by (auto simp: pin_inv_def intro: sequences_ok_release)

lemma record_poi_manifest_inv:
  assumes inv: "pin_inv db H (Some q) verified"
    and rec: "record_poi_artifact_manifest_pin lib now cid entries cids q byte_size hash db = Inr db'"
  shows "pin_inv db' H None verified"
proof -
  let ?n = "next_poi_manifest_id db"
  from rec obtain y db1 where
    entries: "try_fold (insert_manifest_entry lib ?n)
      (db\<lparr>poi_manifests := poi_manifests db @
        [(?n, new_manifest now cid (int (unat q)) y hash 4 None)]\<rparr>) entries = Inr db1" and
    db': "db' = db1\<lparr>poi_manifest_artifacts := insert_edges ?n cids (poi_manifest_artifacts db1),
      next_poi_manifest_id := ?n + 1\<rparr>"
    by (auto simp: record_poi_artifact_manifest_pin_def insert_manifest_def audit_u64_to_i64_def
        result_simps checked_simps)
  have old: "ids_ok (poi_manifests db) (poi_manifest_artifacts db) ?n" "poi_safe db H verified"
    "sequences_ok (manifest_seqs db) (stored_sequence db) (Some q) verified"
    using inv by (simp_all add: pin_inv_def)
  let ?db = "db\<lparr>poi_manifests := poi_manifests db @
      [(?n, new_manifest now cid (int (unat q)) y hash 4 None)],
    poi_manifest_artifacts := insert_edges ?n cids (poi_manifest_artifacts db),
    next_poi_manifest_id := ?n + 1\<rparr>"
  have fresh: "int (unat q) \<notin> verified"
    using old(3) by (force simp: sequences_ok_def)
  have "poi_safe ?db H verified"
    using old(2) ids_ok_less [OF old(1)] fresh by (fastforce simp: poi_safe_def held_of_insert)
  moreover have "manifest_seqs ?db = insert (?n, int (unat q)) (manifest_seqs db)"
    by (simp add: manifest_seqs_def)
  ultimately have "pin_inv ?db H None verified"
    using inv ids_ok_append [OF old(1)] sequences_ok_new [OF old(3)]
    by (simp add: pin_inv_def indexed_safe_def)
  moreover have "same_manifests ?db db'"
    using entries_same [OF entries] by (simp add: same_manifests_def db')
  ultimately show ?thesis by (rule pin_inv_frame)
qed

lemma harmless_supersede: "harmless_update verified P (\<lambda>m. m\<lparr>mr_superseded_at := Some now\<rparr>)"
  by (simp add: harmless_update_def live_manifest_def)

lemma activate_indexed_inv:
  assumes inv: "pin_inv db H lease verified"
    and rec: "record_indexed_manifest_ipns_publication now cid sequence db = Inr db'"
  shows "pin_inv db' H lease verified"
proof -
  let ?db = "db\<lparr>indexed_manifests := fst (update_where (\<lambda>_. activatable cid (int (unat sequence)))
    (activate now) (indexed_manifests db))\<rparr>"
  have "harmless_update UNIV P (activate now)" for P
    by (auto simp: harmless_update_def activate_def live_manifest_def)
  from update_indexed [OF inv this] have "pin_inv ?db H lease verified" .
  from update_indexed [OF this harmless_supersede] show ?thesis
    using rec
    by (auto simp: record_indexed_manifest_ipns_publication_def audit_u64_to_i64_def result_simps checked_simps
        Let_def split_def split: if_splits)
qed

lemma activate_poi_inv:
  assumes inv: "pin_inv db H lease verified" and "int (unat sequence) \<in> verified"
    and rec: "record_poi_artifact_manifest_ipns_publication now cid sequence db = Inr db'"
  shows "pin_inv db' H lease verified"
proof -
  let ?db = "db\<lparr>poi_manifests := fst (update_where (\<lambda>_. activatable cid (int (unat sequence)))
    (activate now) (poi_manifests db))\<rparr>"
  have "harmless_update verified (\<lambda>_. activatable cid (int (unat sequence))) (activate now)"
    using assms(2) by (auto simp: harmless_update_def activate_def live_manifest_def activatable_def)
  from update_poi [OF inv this, of "indexer_state db"] have "pin_inv ?db H lease verified" by simp
  from update_poi [OF this harmless_supersede, of "indexer_state db"] show ?thesis
    using rec
    by (auto simp: record_poi_artifact_manifest_ipns_publication_def audit_u64_to_i64_def result_simps
        checked_simps Let_def split_def split: if_splits)
qed

lemma harmless_invalidate: "harmless_update verified P (\<lambda>m. m\<lparr>mr_reconciliation_invalidated_at := Some now\<rparr>)"
  by (simp add: harmless_update_def live_manifest_def)

lemma invalidate_inv:
  assumes inv: "pin_inv db H lease verified"
    and rec: "invalidate_pending_poi_manifest_reconciliation now cid sequence db = Inr db'"
  shows "pin_inv db' H lease verified"
proof -
  from rec obtain P where "db' = db\<lparr>poi_manifests := fst (update_where P
      (\<lambda>m. m\<lparr>mr_reconciliation_invalidated_at := Some now\<rparr>) (poi_manifests db)),
      indexer_state := raise_state IPNS_SEQUENCE_STATE_KEY (int (unat sequence)) (indexer_state db)\<rparr>"
    by (auto simp: invalidate_pending_poi_manifest_reconciliation_def audit_u64_to_i64_def result_simps
        checked_simps Let_def split_def split: if_splits list.splits)
  with update_poi [OF inv harmless_invalidate] show ?thesis by (simp add: sql_simps)
qed

lemma abandon_inv:
  assumes inv: "pin_inv db H lease verified"
    and rec: "abandon_pending_poi_v4_manifest_reconciliation now cid sequence gone db = Inr db'"
  shows "pin_inv db' H lease verified"
proof -
  from rec obtain db1 where db1: "invalidate_pending_poi_manifest_reconciliation now cid sequence db = Inr db1"
    and "same_manifests db1 db'"
    by (auto simp: abandon_pending_poi_v4_manifest_reconciliation_def result_simps same_manifests_def
        split: option.splits)
  with invalidate_inv [OF inv db1] show ?thesis by (blast intro: pin_inv_frame)
qed

section \<open>Sections of the publishers\<close>

lemma available_triple:
  assumes "provider_ok prov holds" and "canonical lib c"
  shows "triple (pinv holds lease verified X) (cid_is_available lib prov c)
    (\<lambda>present. pinv holds lease verified (if present then insert c X else X)) (pinv holds lease verified X)"
  using assms(2) unfolding cid_is_available_def canonical_def
  by (intro triple_bind [where Q = "\<lambda>x w. pinv holds lease verified X w \<and> x = c"] triple_lift)
     (auto intro!: triple_assume contains_triple [OF assms(1)])

lemma each_available_triple:
  assumes ok: "provider_ok prov holds" "\<forall>c \<in> set cids. canonical lib c"
    and f: "\<And>c. f c = act_bind (cid_is_available lib prov c) (\<lambda>present.
      if present then act_return () else act_fail (err c))"
  shows "triple (pinv holds lease verified {}) (act_each f cids)
    (\<lambda>_. pinv holds lease verified (set cids)) (pinv holds lease verified {})"
proof (rule triple_each)
  fix c and "done" :: "cid list"
  assume "c \<in> set cids"
  then have c: "canonical lib c" using ok(2) by blast
  show "triple (pinv holds lease verified (set done)) (f c)
    (\<lambda>_. pinv holds lease verified (insert c (set done))) (pinv holds lease verified {})"
    unfolding f
    by (rule triple_seq [OF available_triple [OF ok(1) c, where X = "set done"]])
       (auto intro!: triple_return triple_fail elim: pinv_subset)
qed

lemma indexed_available_triple:
  assumes "provider_ok prov holds" and "\<forall>c \<in> set cids. canonical lib c"
  shows "triple (pinv holds lease verified {}) (ensure_indexed_artifacts_available lib prov cids)
    (\<lambda>_. pinv holds lease verified (set cids)) (pinv holds lease verified {})"
  unfolding ensure_indexed_artifacts_available_def
  by (rule each_available_triple [OF assms]) (simp add: ensure_artifact_available_def)

lemma require_graph_triple:
  assumes "provider_ok prov holds" and "\<forall>c \<in> set cids. canonical lib c"
  shows "triple (pinv holds lease verified {}) (require_graph lib prov cids)
    (\<lambda>_. pinv holds lease verified (set cids)) (pinv holds lease verified {})"
  unfolding require_graph_def
  by (rule each_available_triple [OF assms]) (simp add: require_graph_cid_def)

lemma indexed_manifest_keeps:
  assumes ok: "provider_ok prov holds" "\<forall>c \<in> set cids. canonical lib c"
  shows "keeps (pinv holds lease verified {}) (pin_indexed_manifest lib prov now cids sequence version json)"
proof -
  have rec: "triple (pinv holds lease verified (insert cid (set cids)))
      (in_tx (record_indexed_manifest_pin now cid cids sequence byte_size hash version json))
      (\<lambda>_. pinv holds lease verified {}) (pinv holds lease verified {})" for cid byte_size hash
    by (rule in_tx_triple) (auto simp: pinv_def intro: record_indexed_manifest_inv)
  show ?thesis
    unfolding pin_indexed_manifest_def keeps_def
    apply (rule triple_bind [where Q = "\<lambda>_. pinv holds lease verified {}"])
     apply (rule triple_lift; assumption)
    apply (rule triple_seq [OF indexed_available_triple [OF ok]], assumption, assumption)
    apply (rule triple_seq [OF pin_owned_triple [OF ok(1)]], assumption, erule pinv_subset, simp)
    apply (rule triple_seq [OF record_or_clean_up_triple [OF ok(1) rec]], assumption, assumption)
    apply (rule triple_seq [OF keeps_triple [OF running_keeps]], assumption, assumption)
    apply (rule triple_return, assumption)
    done
qed

lemma repin_keeps:
  assumes ok: "provider_ok prov holds" "\<forall>c \<in> set (pm_artifact_cids pending). canonical lib c"
  shows "keeps (pinv holds lease verified {}) (repin_pending_manifest lib prov now pending)"
  unfolding repin_pending_manifest_def keeps_def
  by (intro triple_bind [where Q = "\<lambda>_. pinv holds lease verified {}"] triple_lift triple_if triple_fail
      triple_return triple_weaken [OF indexed_available_triple [OF ok]]
      triple_weaken [OF pin_owned_triple [OF ok(1)]]
      triple_weaken [OF keeps_triple [OF cleanup_triple [OF ok(1)]]]
      triple_weaken [OF keeps_triple [OF settle_keeps]] keeps_triple [OF running_keeps])
     (auto elim: pinv_subset)

lemma activate_indexed_keeps:
  "keeps (pinv holds lease verified {}) (activate_indexed_manifest now cid sequence)"
  unfolding activate_indexed_manifest_def keeps_def
  by (intro triple_bind [OF keeps_triple [OF running_keeps]] in_tx_triple)
     (auto simp: pinv_def intro: activate_indexed_inv)

lemma poi_manifests_triple:
  assumes ok: "provider_ok prov holds"
  shows "triple (pinv holds (Some q) verified {}) (publish_poi_manifests lib prov now entries cids
      (SequenceLease q) bytes) (\<lambda>_. pinv holds None verified {}) (pinv holds None verified {})"
proof -
  have release: "pinv holds lease verified X w \<Longrightarrow> pinv holds None verified {} w" for lease X w
    by (auto simp: pinv_def intro: pin_inv_release)
  have rec: "triple (pinv holds (Some q) verified {})
      (act_bind (act_lift (ok_or ByteSizeOverflow (try_from_len (length bytes)))) (\<lambda>byte_size.
         in_tx (record_poi_artifact_manifest_pin lib now cid entries cids (lease_sequence (SequenceLease q))
           byte_size hash)))
      (\<lambda>_. pinv holds None verified {}) (pinv holds None verified {})" for cid hash
    by (intro triple_bind [where Q = "\<lambda>_. pinv holds (Some q) verified {}"] triple_lift in_tx_triple)
       (auto simp: pinv_def intro: record_poi_manifest_inv pin_inv_release)
  have stop: "triple (pinv holds lease verified {})
      (act_on_error ensure_publication_running (\<lambda>_. cleanup_uncommitted_pin_while_locked prov now cid))
      (\<lambda>_. pinv holds lease verified {}) (pinv holds lease verified {})" for lease cid
    by (rule triple_on_error [OF keeps_triple [OF running_keeps] keeps_triple [OF cleanup_triple [OF ok]]])
  show ?thesis
    unfolding publish_poi_manifests_def
    apply (rule triple_seq [OF keeps_triple [OF running_keeps]], assumption, erule release)
    apply (rule triple_seq [OF pin_owned_triple [OF ok]], assumption, erule release)
    apply (rule triple_seq [OF stop], erule pinv_subset, simp, erule release)
    apply (rule triple_seq [OF record_or_clean_up_triple [OF ok rec]], assumption, assumption)
    apply (rule triple_seq [OF keeps_triple [OF running_keeps]], assumption, assumption)
    apply (rule triple_return, assumption)
    done
qed

lemma require_graph_db: "w_db (snd (require_graph lib prov cids w)) = w_db w"
proof -
  have "w_db w' = w_db w" if "require_graph_cid lib prov c w = (r, w')" for c r w and w' :: "'a pin_world"
    using that by (auto simp: require_graph_cid_def cid_is_available_def contains_cid_def act_defs
        split: sum.splits prod.splits if_splits)
  then show ?thesis
    unfolding require_graph_def
    by (induction cids arbitrary: w) (auto simp: act_defs split: sum.splits prod.splits)
qed

lemma invalidate_triple: "triple (pinv holds lease verified {})
    (in_tx (invalidate_pending_poi_manifest_reconciliation now cid sequence))
    (\<lambda>_. pinv holds lease verified {}) (pinv holds lease verified {})"
  by (rule in_tx_triple) (auto simp: pinv_def intro: invalidate_inv)

lemma abandon_keeps: "keeps (pinv holds lease verified {}) (abandon_pending lib now pending text is_artifact)"
  unfolding abandon_pending_def keeps_def
  by (intro triple_bind [where Q = "\<lambda>_. pinv holds lease verified {}"] triple_lift in_tx_triple triple_return)
     (auto simp: pinv_def intro: abandon_inv)

lemma record_v4_keeps:
  assumes "int (unat sequence) \<in> verified"
  shows "keeps (pinv holds lease verified {}) (record_v4_ipns lib now text sequence)"
  unfolding record_v4_ipns_def keeps_def
  by (intro triple_bind [where Q = "\<lambda>_. pinv holds lease verified {}"] triple_lift in_tx_triple)
     (auto simp: pinv_def intro: activate_poi_inv [OF _ assms])

lemma harmless_mark: "harmless_update V P (\<lambda>m. m\<lparr>mr_unpinned_at := Some at\<rparr>)"
  by (simp add: harmless_update_def live_manifest_def)

lemma settle_cid_inv:
  assumes "pin_inv db H lease verified"
  shows "pin_inv (settle_cid swept_at cutoff cid db) H lease verified"
proof -
  from update_indexed [OF assms harmless_mark] have "pin_inv (db\<lparr>indexed_manifests := fst (update_where
      (\<lambda>_ m. mr_cid m = cid \<and> stale_manifest cutoff m) (\<lambda>m. m\<lparr>mr_unpinned_at := Some swept_at\<rparr>)
      (indexed_manifests db))\<rparr>) H lease verified" (is "pin_inv ?db _ _ _") .
  from update_poi [OF this harmless_mark, of "indexer_state db" "\<lambda>_ m. mr_cid m = cid \<and> stale_manifest cutoff m" swept_at]
  have "pin_inv (?db\<lparr>poi_manifests := fst (update_where (\<lambda>_ m. mr_cid m = cid \<and> stale_manifest cutoff m)
      (\<lambda>m. m\<lparr>mr_unpinned_at := Some swept_at\<rparr>) (poi_manifests db))\<rparr>) H lease verified" by simp
  then show ?thesis by (rule pin_inv_frame) (simp add: same_manifests_def settle_cid_def)
qed

lemma unpin_mono: "provider_ok prov holds \<Longrightarrow> prov_unpin prov p c = (r, p') \<Longrightarrow> holds p - {c} \<subseteq> holds p'"
  by (auto simp: provider_ok_def) (metis Diff_iff singletonD snd_conv subsetD)

lemma sweep_one_inv:
  assumes ok: "provider_ok prov holds" "canonical lib text"
    and inv: "pinv holds lease verified {} w"
  shows "pinv holds lease verified {} (sweep_world (\<lambda>st.
    sweep_cid lib (prov_error_text prov) (prov_unpin prov) swept_at cutoff st text) w)"
proof (cases "still_eligible cutoff (w_db w) text")
  case True
  obtain r p where rp: "prov_unpin prov (w_provider w) text = (r, p)" by fastforce
  have "pin_inv (w_db w) (holds p) lease verified"
    using inv pin_inv_unpin [OF _ eligible_not_needed [OF True] unpin_mono [OF ok(1) rp]]
    by (simp add: pinv_def)
  moreover from this have "pin_inv (mark_unpinned swept_at cutoff text (w_db w)) (holds p) lease verified"
    by (simp add: mark_unpinned_settles [OF True] settle_cid_inv)
  ultimately show ?thesis
    using True ok(2) rp
    by (cases r) (auto simp: sweep_world_def sweep_cid_def Let_def parse_cid_def canonical_def pinv_def)
next
  case False
  then show ?thesis
    using inv ok(2) by (simp add: sweep_world_def sweep_cid_def Let_def parse_cid_def canonical_def pinv_def)
qed

lemma same_debts [simp]: "same_manifests db (db\<lparr>pin_cleanup_debt := t\<rparr>)"
  by (simp add: same_manifests_def)

lemma debt_one_inv:
  assumes ok: "provider_ok prov holds" "canonical lib (fst debt)"
    and inv: "pinv holds lease verified {} w"
  shows "pinv holds lease verified {} (sweep_world (\<lambda>st.
    retry_debt lib (prov_error_text prov) (prov_unpin prov) st debt) w)"
proof (cases "publication_cid_is_referenced (w_db w) (fst debt)")
  case True
  then show ?thesis
    using inv ok(2) pin_inv_frame
    by (fastforce simp: sweep_world_def retry_debt_def Let_def parse_cid_def canonical_def pinv_def
        delete_debt_def)
next
  case False
  obtain r p where rp: "prov_unpin prov (w_provider w) (fst debt) = (r, p)" by fastforce
  have "pin_inv (w_db w) (holds p) lease verified"
    using inv pin_inv_unpin [OF _ unreferenced_not_needed [OF False] unpin_mono [OF ok(1) rp]]
    by (simp add: pinv_def)
  with pin_inv_frame [OF this same_debts] show ?thesis
    using False ok(2) rp
    by (cases r) (auto simp: sweep_world_def retry_debt_def Let_def parse_cid_def canonical_def pinv_def
        delete_debt_def)
qed

section \<open>Every step keeps the invariant\<close>

lemma triple_snd: "triple P m (\<lambda>_. Q) Q \<Longrightarrow> P w \<Longrightarrow> Q (snd (m w))"
  by (cases "m w") (force simp: triple_def split: sum.splits)

lemma keeps_snd: "keeps (pinv holds lease verified {}) m \<Longrightarrow> pinv holds lease verified {} w \<Longrightarrow>
    pinv holds lease verified {} (snd (m w))"
  unfolding keeps_def by (rule triple_snd)

lemma verify_inv:
  assumes inv: "pin_inv db H lease verified" and m: "(i, m) \<in> set (poi_manifests db)"
    and graph: "insert (mr_cid m) {c. (i, c) \<in> set (poi_manifest_artifacts db)} \<subseteq> H"
  shows "pin_inv db H lease (insert (mr_ipns_sequence m) verified)"
proof -
  have seq: "mr_ipns_sequence m \<in> snd ` manifest_seqs db"
    using m by (force simp: manifest_seqs_def)
  have same: "j = i \<and> n = m"
    if "(j, n) \<in> set (poi_manifests db)" "mr_ipns_sequence n = mr_ipns_sequence m" for j n
  proof -
    have "inj_on snd (manifest_seqs db)" using inv by (simp add: pin_inv_def sequences_ok_def)
    with that m have "j = i" by (force simp: manifest_seqs_def inj_on_def)
    moreover have "keyed (poi_manifests db)" using inv by (simp add: pin_inv_def ids_ok_def)
    ultimately show ?thesis using that m by (simp add: keyed_lookup)
  qed
  have "poi_safe db H (insert (mr_ipns_sequence m) verified)"
    unfolding poi_safe_def
  proof (clarify, goal_cases)
    case (1 j n)
    show ?case
    proof (cases "mr_ipns_published_at n \<noteq> None \<or> mr_ipns_sequence n \<in> verified")
      case True
      with 1 inv show ?thesis by (auto simp: pin_inv_def poi_safe_def)
    next
      case False
      with 1 same have "j = i" "n = m" by auto
      with graph show ?thesis by (auto simp: held_of_def)
    qed
  qed
  with inv seq show ?thesis by (simp add: pin_inv_def sequences_ok_def)
qed

lemma reserve_inv:
  assumes inv: "pin_inv db H lease verified"
    and r: "reserve_cycle minimum (indexer_state db) = Inr (new, t)"
  shows "pin_inv (db\<lparr>indexer_state := t\<rparr>) H (Some (lease_sequence new)) verified"
proof -
  from r obtain s where s: "reserve_poi_publication_sequence minimum (indexer_state db) = Inr (s, t)"
    and [simp]: "new = SequenceLease s"
    by (auto simp: reserve_cycle_def result_simps)
  have bound: "a < int (unat s)" if a: "(j, a) \<in> manifest_seqs db" for j a
  proof -
    from inv a obtain v where "stored_sequence db = Some v" "a \<le> v"
      by (force simp: pin_inv_def sequences_ok_def)
    with reserve_sequence(3) [OF s] show ?thesis by force
  qed
  have "sequences_ok (manifest_seqs db) (map_of t IPNS_SEQUENCE_STATE_KEY) (Some s) verified"
    using inv bound unfolding pin_inv_def sequences_ok_def reserve_sequence(1) [OF s]
    by (auto dest!: bound intro: less_imp_le)
  with inv show ?thesis
    by (simp add: pin_inv_def indexed_safe_def poi_safe_def manifest_seqs_def)
qed

definition system_inv :: "('p \<Rightarrow> cid set) \<Rightarrow> 'p system \<Rightarrow> bool" where
  "system_inv holds s \<longleftrightarrow> pinv holds (sys_lease s) (sys_verified s) {} (sys_world s)"

lemma step_inv:
  assumes step: "pin_step lib prov s s'" and ok: "provider_ok prov holds" and inv: "system_inv holds s"
  shows "system_inv holds s'"
  using step
proof cases
  case (poi_reserve minimum lease t)
  then show ?thesis using inv reserve_inv by (auto simp: system_inv_def pinv_def)
next
  case (poi_manifest q now entries cids bytes)
  then show ?thesis using inv triple_snd [OF poi_manifests_triple [OF ok]] by (simp add: system_inv_def)
next
  case (poi_verify i m cids w)
  have "pinv holds (sys_lease s) (sys_verified s) (set cids) w"
    using require_graph_triple [OF ok poi_verify(4)] poi_verify(5) inv
    by (fastforce simp: triple_def system_inv_def)
  moreover have "w_db w = w_db (sys_world s)"
    using poi_verify(5) require_graph_db by (metis snd_conv)
  ultimately show ?thesis
    using poi_verify(1,3) verify_inv [OF _ poi_verify(2), of "holds (w_provider w)"]
    by (auto simp: system_inv_def pinv_def)
next
  case (sweep_one cid swept_at cutoff)
  then show ?thesis using inv sweep_one_inv [OF ok] by (simp add: system_inv_def)
next
  case (debt_one debt)
  then show ?thesis using inv debt_one_inv [OF ok] by (simp add: system_inv_def)
next
  case (environment stops accepting)
  then show ?thesis using inv by (simp add: system_inv_def pinv_def)
next
  case (poi_invalidate now cid sequence)
  then show ?thesis using inv triple_snd [OF invalidate_triple] by (simp add: system_inv_def)
next
  case (indexed_artifact now kind dataset scope rng byte_size hash version bytes)
  then show ?thesis using inv keeps_snd [OF indexed_artifact_keeps [OF ok]] by (simp add: system_inv_def)
next
  case (indexed_manifest cids now sequence version json)
  then show ?thesis using inv keeps_snd [OF indexed_manifest_keeps [OF ok]] by (simp add: system_inv_def)
next
  case (indexed_repin pending now)
  then show ?thesis using inv keeps_snd [OF repin_keeps [OF ok]] by (simp add: system_inv_def)
next
  case (indexed_activate now cid sequence)
  then show ?thesis using inv keeps_snd [OF activate_indexed_keeps] by (simp add: system_inv_def)
next
  case (poi_artifact now pkind pscope prng hash root bytes describe)
  then show ?thesis using inv keeps_snd [OF poi_artifact_keeps [OF ok]] by (simp add: system_inv_def)
next
  case (poi_activate sequence now cid)
  then show ?thesis using inv keeps_snd [OF record_v4_keeps] by (simp add: system_inv_def)
next
  case (poi_abandon now ppending cid is_artifact)
  then show ?thesis using inv keeps_snd [OF abandon_keeps] by (simp add: system_inv_def)
qed

lemma reachable_inv:
  assumes "reachable lib prov s" and "provider_ok prov holds"
  shows "system_inv holds s"
  using assms(1)
proof induction
  case (start p)
  show ?case
    by (simp add: system_inv_def initial_system_def empty_publications_def pinv_def pin_inv_def ids_ok_def
        indexed_safe_def poi_safe_def sequences_ok_def manifest_seqs_def)
next
  case (step s s')
  then show ?case using step_inv assms(2) by blast
qed


text \<open>A sample run: an artifact is pinned, then a manifest over it, which is activated.\<close>

definition sample_provider :: "cid list ipfs_provider" where
  "sample_provider =
     \<lparr>prov_service_name = ''sample'', prov_pin = (\<lambda>p bytes. let c = ''c'' @ replicate (length bytes) CHR ''a'' in (Inr c, c # p)),
      prov_unpin = (\<lambda>p c. (Inr (), removeAll c p)), prov_contains = (\<lambda>p c. (Inr (c \<in> set p), p)),
      prov_error_text = (\<lambda>_. ''failed'')\<rparr>"

definition sample_artifact_step :: "cid list pin_world \<Rightarrow> cid list pin_world" where
  "sample_artifact_step w = snd (reuse_or_pin_indexed_artifact sample_audit_lib sample_provider 10 Chunk Commitments
     \<lparr>scope_chain_type = Evm, scope_chain_id = 1, scope_railgun_contract = 5\<rparr>
     \<lparr>range_kind = TreePositionRange, range_start = 0, range_end = 7\<rparr> 2 9 1 [1, 2] w)"

definition sample_manifest_step :: "cid list pin_world \<Rightarrow> cid list pin_world" where
  "sample_manifest_step w =
     snd (pin_indexed_manifest sample_audit_lib sample_provider 11 [''caa''] 4 1 ''json'' w)"

lemmas publication_defs = reuse_or_pin_indexed_artifact_def pin_indexed_manifest_def reuse_or_pin_def
  pin_owned_def acquire_pin_ownership_def try_acquire_pin_ownership_def settle_pin_ownership_def
  ensure_publication_running_def pin_bytes_def contains_cid_def cid_is_available_def query_def in_tx_def
  record_or_clean_up_def ensure_indexed_artifacts_available_def ensure_artifact_available_def act_defs

lemma live_indexed_count_length:
  "live_indexed_count cids db = length (remdups (map (\<lambda>(k, _). ik_cid k)
     (select_where (\<lambda>k a. ik_cid k \<in> set cids \<and> ar_unpinned_at a = None) (indexed_artifacts db))))"
  unfolding live_indexed_count_def by (rule length_remdups_card_conv [symmetric])

lemmas audit_defs = live_indexed_artifact_cid_def record_indexed_artifact_pin_def record_indexed_manifest_pin_def
  indexed_key_def audit_u64_to_i64_def i64_of_u64_def live_indexed_count_length reject_unresolved_pending_def
  insert_manifest_def insert_edges_def pending_manifest_def select_where_def exists_where_def insert_on_conflict_def

lemma sample_run:
  "w_db (sample_manifest_step (sample_artifact_step (sys_world (initial_system []))))
     = (w_db (sample_artifact_step (sys_world (initial_system []))))\<lparr>
         indexed_manifests := [(1, new_manifest 11 ''c'' 4 0 0 1 (Some ''json''))],
         indexed_manifest_artifacts := [(1, ''caa'')], next_indexed_manifest_id := 2\<rparr>"
  by (simp add: sample_artifact_step_def sample_manifest_step_def initial_system_def empty_publications_def
      sample_audit_lib_def sample_provider_def publication_defs audit_defs Let_def try_from_len_def)


end
