(* ===== verification/Poi_Store.thy ===== *)
theory Poi_Store
  imports Publication_Audit
begin

text \<open>
  The POI tables of \<open>store.rs\<close>: signed events by list, chain and index, blocked shields, and the tip that
  a scraper has reached with each upstream.

  \<^item> Binary columns of a checked length are words, so reading them back (\<open>exact_array\<close>) cannot fail.
  \<^item> Decoding hexadecimal text is the argument \<open>hex_decode\<close>; timestamps of rows are left out, no
    statement reads them.
  \<^item> An event row that only has its commitment (\<open>event_data_complete = FALSE\<close>) was made by
    \<open>insert_event_leaves\<close>; a complete row has a signature and a type.

  Shown: storing a page makes every event of it a complete row and touches no other row, a complete row
  never changes again, and a tip never goes back.
\<close>

datatype poi_event_type = PoiShield | PoiTransact | PoiUnshield | PoiLegacyTransact

fun event_type_discriminant :: "poi_event_type \<Rightarrow> int" where
  "event_type_discriminant PoiShield = 0"
| "event_type_discriminant PoiTransact = 1"
| "event_type_discriminant PoiUnshield = 2"
| "event_type_discriminant PoiLegacyTransact = 3"

definition event_type_from_discriminant :: "int \<Rightarrow> poi_event_type stored" where
  "event_type_from_discriminant v =
     (if v = 0 then Inr PoiShield else if v = 1 then Inr PoiTransact
      else if v = 2 then Inr PoiUnshield else if v = 3 then Inr PoiLegacyTransact
      else Inl (InvalidEventType v))"

record signed_poi_event =
  ev_index :: u64
  ev_blinded_commitment :: bytes32
  ev_signature :: string
  ev_type :: poi_event_type

record signed_blocked_shield =
  bs_commitment_hash :: string
  bs_blinded_commitment :: string
  bs_block_reason :: "string option"
  bs_signature :: string

record stored_event =
  st_event_index :: u64
  st_blinded_commitment :: bytes32
  st_signature :: bytes64
  st_event_type :: poi_event_type

record stored_blocked_shield =
  sb_commitment_hash :: bytes32
  sb_blinded_commitment :: bytes32
  sb_block_reason :: "string option"
  sb_signature :: bytes64

record poi_event_row =
  pe_blinded_commitment :: bytes32
  pe_signature :: bytes64
  pe_event_type :: int
  pe_event_data_complete :: bool

record blocked_shield_row =
  br_commitment_hash :: bytes32
  br_signature :: bytes64
  br_block_reason :: "string option"

record chain_tip_row =
  ct_last_event_index :: i64
  ct_last_tip_merkleroot :: "bytes32 option"

type_synonym event_table = "(bytes32 \<times> i64 \<times> i64, poi_event_row) tbl"
type_synonym blocked_table = "(bytes32 \<times> i64 \<times> bytes32, blocked_shield_row) tbl"
type_synonym tip_table = "(bytes32 \<times> i64 \<times> string, chain_tip_row) tbl"

record poi_db =
  poi_events :: event_table
  blocked_shields :: blocked_table
  chain_tips :: tip_table
  poi_dataset_identity :: "string option"

type_synonym hex_decoder = "string \<Rightarrow> u8 list option"

section \<open>The version of the dataset\<close>

text \<open>\<open>btrim(txid_version) <> ''\<close>: the column's check; \<open>btrim\<close> removes spaces.\<close>

definition blank :: "string \<Rightarrow> bool" where
  "blank s \<longleftrightarrow> (\<forall>c \<in> set s. c = CHR '' '')"

definition poi_dataset_has_state :: "publication_db \<Rightarrow> poi_db \<Rightarrow> bool" where
  "poi_dataset_has_state pub db \<longleftrightarrow>
     poi_events db \<noteq> [] \<or> blocked_shields db \<noteq> [] \<or> chain_tips db \<noteq> []
     \<or> poi_artifacts pub \<noteq> [] \<or> poi_manifests pub \<noteq> [] \<or> poi_manifest_entries pub \<noteq> []
     \<or> poi_manifest_artifacts pub \<noteq> []
     \<or> map_of (indexer_state pub) IPNS_SEQUENCE_STATE_KEY \<noteq> None"

definition set_poi_txid_version :: "publication_db \<Rightarrow> string \<Rightarrow> bool \<Rightarrow> poi_db \<Rightarrow> poi_db stored" where
  "set_poi_txid_version pub configured allow_populated_adoption db =
     (case poi_dataset_identity db of
        Some persisted \<Rightarrow>
          if persisted \<noteq> configured then Inl (PoiTxidVersionMismatch configured persisted) else Inr db
      | None \<Rightarrow>
          if \<not> allow_populated_adoption \<and> poi_dataset_has_state pub db
          then Inl (PoiTxidVersionAdoptionRequired configured)
          else and_then (ensure (\<not> blank configured) (Sqlx CheckViolation)) (\<lambda>_.
            Inr (db\<lparr>poi_dataset_identity := Some configured\<rparr>)))"

definition admit_poi_txid_version :: "publication_db \<Rightarrow> string \<Rightarrow> poi_db \<Rightarrow> poi_db stored" where
  "admit_poi_txid_version pub configured db = set_poi_txid_version pub configured False db"

definition adopt_poi_txid_version :: "publication_db \<Rightarrow> string \<Rightarrow> poi_db \<Rightarrow> poi_db stored" where
  "adopt_poi_txid_version pub configured db = set_poi_txid_version pub configured True db"

section \<open>Tips\<close>

definition last_event_index :: "bytes32 \<Rightarrow> u64 \<Rightarrow> string \<Rightarrow> poi_db \<Rightarrow> u64 option stored" where
  "last_event_index list_key chain_id upstream_url db =
     and_then (u64_to_i64 chain_id ''chain_id'') (\<lambda>chain.
       case map_of (chain_tips db) (list_key, chain, upstream_url) of
         None \<Rightarrow> Inr None
       | Some tip \<Rightarrow>
           and_then (i64_to_u64 (ct_last_event_index tip) ''last_event_index'') (\<lambda>i. Inr (Some i)))"

definition chain_tip :: "bytes32 \<Rightarrow> u64 \<Rightarrow> string \<Rightarrow> poi_db \<Rightarrow> stored_chain_tip option stored" where
  "chain_tip list_key chain_id upstream_url db =
     and_then (u64_to_i64 chain_id ''chain_id'') (\<lambda>chain.
       case map_of (chain_tips db) (list_key, chain, upstream_url) of
         None \<Rightarrow> Inr None
       | Some tip \<Rightarrow>
           and_then (i64_to_u64 (ct_last_event_index tip) ''last_event_index'') (\<lambda>i.
             Inr (Some \<lparr>tip_last_event_index = i, last_tip_merkleroot = ct_last_tip_merkleroot tip\<rparr>)))"

definition advance_chain_tip ::
  "hex_decoder \<Rightarrow> bytes32 \<Rightarrow> u64 \<Rightarrow> string \<Rightarrow> u64 \<Rightarrow> string option \<Rightarrow> poi_db \<Rightarrow> poi_db stored" where
  "advance_chain_tip hex_decode list_key chain_id upstream_url last_event tip_merkleroot db =
     and_then (u64_to_i64 chain_id ''chain_id'') (\<lambda>chain.
     and_then (u64_to_i64 last_event ''last_event_index'') (\<lambda>last_index.
     and_then (case tip_merkleroot of
                 None \<Rightarrow> Inr None
               | Some root \<Rightarrow>
                   and_then (decode_fixed_hex hex_decode ''last_tip_merkleroot'' root) (\<lambda>r. Inr (Some r)))
       (\<lambda>root.
       let row = \<lparr>ct_last_event_index = last_index, ct_last_tip_merkleroot = root\<rparr>;
           (tips, affected) = insert_on_conflict (list_key, chain, upstream_url) row
             (\<lambda>old. if ct_last_event_index old \<le> last_index then Some row else None) (chain_tips db)
       in if affected = 0 then Inl (ChainTipRegression list_key chain_id upstream_url last_event)
          else Inr (db\<lparr>chain_tips := tips\<rparr>))))"

section \<open>Events\<close>

definition complete_row :: "signed_poi_event \<Rightarrow> bytes64 \<Rightarrow> poi_event_row" where
  "complete_row event signature =
     \<lparr>pe_blinded_commitment = ev_blinded_commitment event, pe_signature = signature,
      pe_event_type = event_type_discriminant (ev_type event), pe_event_data_complete = True\<rparr>"

definition insert_event ::
  "hex_decoder \<Rightarrow> bytes32 \<Rightarrow> u64 \<Rightarrow> i64 \<Rightarrow> event_table \<Rightarrow> signed_poi_event \<Rightarrow> event_table stored" where
  "insert_event hex_decode list_key chain_id chain t event =
     and_then (u64_to_i64 (ev_index event) ''event_index'') (\<lambda>index.
     and_then (decode_fixed_hex hex_decode ''signature'' (ev_signature event)) (\<lambda>signature.
       let row = complete_row event signature;
           (t', affected) = insert_on_conflict (list_key, chain, index) row
             (\<lambda>old. if \<not> pe_event_data_complete old
                       \<and> pe_blinded_commitment old = ev_blinded_commitment event
                    then Some row else None) t
       in if affected = 0
          then if map_of t (list_key, chain, index) = Some row then Inr t'
               else Inl (PoiEventConflict chain_id (ev_index event))
          else Inr t'))"

definition insert_events ::
  "hex_decoder \<Rightarrow> bytes32 \<Rightarrow> u64 \<Rightarrow> signed_poi_event list \<Rightarrow> poi_db \<Rightarrow> poi_db stored" where
  "insert_events hex_decode list_key chain_id events db =
     and_then (u64_to_i64 chain_id ''chain_id'') (\<lambda>chain.
     and_then (try_fold (insert_event hex_decode list_key chain_id chain) (poi_events db) events) (\<lambda>t.
       Inr (db\<lparr>poi_events := t\<rparr>)))"

definition insert_event_leaf ::
  "bytes32 \<Rightarrow> u64 \<Rightarrow> i64 \<Rightarrow> u64 \<Rightarrow> event_table \<Rightarrow> nat \<times> u256 \<Rightarrow> event_table stored" where
  "insert_event_leaf list_key chain_id chain start_index t = (\<lambda>(offset, leaf).
     and_then (ok_or (StoreIntegerOutOfRange ''event_index''
         (show_nat (unat start_index) @ ''+'' @ show_nat offset))
       (checked_add_len start_index offset)) (\<lambda>absolute.
     and_then (u64_to_i64 absolute ''event_index'') (\<lambda>index.
       let row = \<lparr>pe_blinded_commitment = leaf, pe_signature = 0,
             pe_event_type = event_type_discriminant PoiShield, pe_event_data_complete = False\<rparr>;
           (t', affected) = insert_on_conflict (list_key, chain, index) row (\<lambda>_. None) t
       in if affected = 0
          then if map_option pe_blinded_commitment (map_of t (list_key, chain, index)) = Some leaf
               then Inr t' else Inl (PoiEventConflict chain_id absolute)
          else Inr t')))"

definition insert_event_leaves ::
  "bytes32 \<Rightarrow> u64 \<Rightarrow> u64 \<Rightarrow> u256 list \<Rightarrow> poi_db \<Rightarrow> poi_db stored" where
  "insert_event_leaves list_key chain_id start_index leaves db =
     and_then (u64_to_i64 chain_id ''chain_id'') (\<lambda>chain.
     and_then (try_fold (insert_event_leaf list_key chain_id chain start_index) (poi_events db)
         (List.enumerate 0 leaves)) (\<lambda>t.
       Inr (db\<lparr>poi_events := t\<rparr>)))"

definition first_incomplete_event_index :: "bytes32 \<Rightarrow> u64 \<Rightarrow> poi_db \<Rightarrow> u64 option stored" where
  "first_incomplete_event_index list_key chain_id db =
     and_then (u64_to_i64 chain_id ''chain_id'') (\<lambda>chain.
       case sort (map (\<lambda>((_, _, i), _). i) (select_where (\<lambda>(l, c, _) r.
              l = list_key \<and> c = chain \<and> \<not> pe_event_data_complete r) (poi_events db))) of
         [] \<Rightarrow> Inr None
       | index # _ \<Rightarrow> and_then (i64_to_u64 index ''incomplete_event_index'') (\<lambda>i. Inr (Some i)))"

definition page_event_range_with_completeness ::
  "bytes32 \<Rightarrow> u64 \<Rightarrow> u64 \<Rightarrow> u64 \<Rightarrow> bool \<Rightarrow> poi_db \<Rightarrow> stored_event list stored" where
  "page_event_range_with_completeness list_key chain_id start_index end_index require_complete db =
     and_then (u64_to_i64 chain_id ''chain_id'') (\<lambda>chain.
     and_then (u64_to_i64 start_index ''start_index'') (\<lambda>first.
     and_then (u64_to_i64 end_index ''end_index'') (\<lambda>final.
       let rows = sort_key (\<lambda>((_, _, i), _). i) (select_where (\<lambda>(l, c, i) _.
             l = list_key \<and> c = chain \<and> first \<le> i \<and> i \<le> final) (poi_events db))
       in and_then (case filter (\<lambda>(_, r). \<not> pe_event_data_complete r) rows of
                      ((_, _, i), _) # _ \<Rightarrow>
                        if require_complete
                        then and_then (i64_to_u64 i ''event_index'') (\<lambda>index.
                               Inl (IncompletePoiEvent chain_id index))
                        else Inr ()
                    | [] \<Rightarrow> Inr ()) (\<lambda>_.
          traverse (\<lambda>((_, _, i), r).
            and_then (i64_to_u64 i ''event_index'') (\<lambda>index.
            and_then (event_type_from_discriminant (pe_event_type r)) (\<lambda>event_type.
              Inr \<lparr>st_event_index = index, st_blinded_commitment = pe_blinded_commitment r,
                   st_signature = pe_signature r, st_event_type = event_type\<rparr>))) rows))))"

definition page_event_range ::
  "bytes32 \<Rightarrow> u64 \<Rightarrow> u64 \<Rightarrow> u64 \<Rightarrow> poi_db \<Rightarrow> stored_event list stored" where
  "page_event_range list_key chain_id start_index end_index db =
     page_event_range_with_completeness list_key chain_id start_index end_index True db"

definition page_event_range_for_hydration ::
  "bytes32 \<Rightarrow> u64 \<Rightarrow> u64 \<Rightarrow> u64 \<Rightarrow> poi_db \<Rightarrow> stored_event list stored" where
  "page_event_range_for_hydration list_key chain_id start_index end_index db =
     page_event_range_with_completeness list_key chain_id start_index end_index False db"

section \<open>Blocked shields\<close>

definition upsert_blocked_shield ::
  "hex_decoder \<Rightarrow> bytes32 \<Rightarrow> i64 \<Rightarrow> blocked_table \<Rightarrow> signed_blocked_shield \<Rightarrow> blocked_table stored" where
  "upsert_blocked_shield hex_decode list_key chain t shield =
     and_then (decode_fixed_hex hex_decode ''commitment_hash'' (bs_commitment_hash shield)) (\<lambda>hash.
     and_then (decode_fixed_hex hex_decode ''blinded_commitment'' (bs_blinded_commitment shield)) (\<lambda>blinded.
     and_then (decode_fixed_hex hex_decode ''signature'' (bs_signature shield)) (\<lambda>signature.
       let row = \<lparr>br_commitment_hash = hash, br_signature = signature,
                  br_block_reason = bs_block_reason shield\<rparr>
       in Inr (fst (insert_on_conflict (list_key, chain, blinded) row (\<lambda>_. Some row) t)))))"

definition upsert_blocked_shields ::
  "hex_decoder \<Rightarrow> bytes32 \<Rightarrow> u64 \<Rightarrow> signed_blocked_shield list \<Rightarrow> poi_db \<Rightarrow> poi_db stored" where
  "upsert_blocked_shields hex_decode list_key chain_id records db =
     and_then (u64_to_i64 chain_id ''chain_id'') (\<lambda>chain.
     and_then (try_fold (upsert_blocked_shield hex_decode list_key chain) (blocked_shields db) records) (\<lambda>t.
       Inr (db\<lparr>blocked_shields := t\<rparr>)))"

definition replace_blocked_shields ::
  "hex_decoder \<Rightarrow> bytes32 \<Rightarrow> u64 \<Rightarrow> signed_blocked_shield list \<Rightarrow> poi_db \<Rightarrow> poi_db stored" where
  "replace_blocked_shields hex_decode list_key chain_id records db =
     and_then (u64_to_i64 chain_id ''chain_id'') (\<lambda>chain.
       upsert_blocked_shields hex_decode list_key chain_id records
         (db\<lparr>blocked_shields := fst (delete_where (\<lambda>(l, c, _) _. l = list_key \<and> c = chain)
            (blocked_shields db))\<rparr>))"

definition all_blocked_shields :: "bytes32 \<Rightarrow> u64 \<Rightarrow> poi_db \<Rightarrow> stored_blocked_shield list stored" where
  "all_blocked_shields list_key chain_id db =
     and_then (u64_to_i64 chain_id ''chain_id'') (\<lambda>chain.
       Inr (map (\<lambda>((_, _, blinded), r).
              \<lparr>sb_commitment_hash = br_commitment_hash r, sb_blinded_commitment = blinded,
               sb_block_reason = br_block_reason r, sb_signature = br_signature r\<rparr>)
         (sort_key (\<lambda>((_, _, blinded), _). blinded) (select_where (\<lambda>(l, c, _) _.
            l = list_key \<and> c = chain) (blocked_shields db)))))"

section \<open>What the writers do\<close>

text \<open>The signature an event is stored with, where its text decodes.\<close>

definition event_signature :: "hex_decoder \<Rightarrow> signed_poi_event \<Rightarrow> bytes64" where
  "event_signature hex_decode event =
     (case decode_fixed_hex hex_decode ''signature'' (ev_signature event) of Inl _ \<Rightarrow> 0 | Inr s \<Rightarrow> s)"

definition event_key :: "bytes32 \<Rightarrow> i64 \<Rightarrow> signed_poi_event \<Rightarrow> bytes32 \<times> i64 \<times> i64" where
  "event_key list_key chain event = (list_key, chain, int (unat (ev_index event)))"

definition event_row :: "hex_decoder \<Rightarrow> signed_poi_event \<Rightarrow> poi_event_row" where
  "event_row hex_decode event = complete_row event (event_signature hex_decode event)"

lemma insert_event_cases:
  assumes "insert_event hex_decode l cid c t event = Inr t'"
  shows "keyed t \<Longrightarrow> keyed t'"
    and "map_of t' = (map_of t)(event_key l c event \<mapsto> event_row hex_decode event)"
    and "map_of t (event_key l c event) = Some old \<Longrightarrow>
      old = event_row hex_decode event
      \<or> \<not> pe_event_data_complete old \<and> pe_blinded_commitment old = ev_blinded_commitment event"
    and "unat (ev_index event) < 2 ^ 63"
    and "decode_fixed_hex hex_decode ''signature'' (ev_signature event) = Inr (event_signature hex_decode event)"
proof -
  from assms obtain sig :: bytes64 where sig: "decode_fixed_hex hex_decode ''signature'' (ev_signature event) = Inr sig"
    and idx: "unat (ev_index event) < 2 ^ 63"
    by (auto simp: insert_event_def result_simps Let_def)
  define k where "k = (l, c, int (unat (ev_index event)))"
  define row where "row = complete_row event sig"
  define upd where "upd = (\<lambda>old :: poi_event_row. if \<not> pe_event_data_complete old
      \<and> pe_blinded_commitment old = ev_blinded_commitment event then Some row else None)"
  have es: "event_row hex_decode event = row" "event_key l c event = k"
    "event_signature hex_decode event = sig"
    using sig by (simp_all add: event_row_def event_signature_def event_key_def row_def k_def)
  have t': "t' = fst (insert_on_conflict k row upd t)"
    and conflict: "snd (insert_on_conflict k row upd t) = 0 \<Longrightarrow> map_of t k = Some row"
    using assms sig idx unfolding k_def upd_def row_def
    by (auto simp: insert_event_def Let_def result_simps split: prod.splits if_splits)
  show "keyed t \<Longrightarrow> keyed t'" by (simp add: t')
  have "map_of t' k = Some row"
    using conflict unfolding t' insert_affected by (auto simp: insert_lookup upd_def split: option.splits)
  then show "map_of t' = (map_of t)(event_key l c event \<mapsto> event_row hex_decode event)"
    unfolding es by (auto simp: fun_eq_iff t' insert_lookup)
  show "map_of t (event_key l c event) = Some old \<Longrightarrow>
      old = event_row hex_decode event
      \<or> \<not> pe_event_data_complete old \<and> pe_blinded_commitment old = ev_blinded_commitment event"
    using conflict unfolding es insert_affected by (cases "upd old") (auto simp: upd_def split: if_splits)
  show "unat (ev_index event) < 2 ^ 63" by (rule idx)
  show "decode_fixed_hex hex_decode ''signature'' (ev_signature event) = Inr (event_signature hex_decode event)"
    by (simp add: sig es)
qed

interpretation event_writer: row_writer "insert_event hex_decode list_key chain_id chain" "\<lambda>t. t"
    "event_key list_key chain" "event_row hex_decode"
  by unfold_locales (simp_all add: insert_event_cases)

definition shield_key :: "hex_decoder \<Rightarrow> bytes32 \<Rightarrow> i64 \<Rightarrow> signed_blocked_shield \<Rightarrow> bytes32 \<times> i64 \<times> bytes32" where
  "shield_key hex_decode list_key chain shield =
     (list_key, chain,
      case decode_fixed_hex hex_decode ''blinded_commitment'' (bs_blinded_commitment shield) of
        Inl _ \<Rightarrow> 0 | Inr b \<Rightarrow> b)"

definition shield_row :: "hex_decoder \<Rightarrow> signed_blocked_shield \<Rightarrow> blocked_shield_row" where
  "shield_row hex_decode shield =
     \<lparr>br_commitment_hash =
        (case decode_fixed_hex hex_decode ''commitment_hash'' (bs_commitment_hash shield) of
           Inl _ \<Rightarrow> 0 | Inr h \<Rightarrow> h),
      br_signature =
        (case decode_fixed_hex hex_decode ''signature'' (bs_signature shield) of Inl _ \<Rightarrow> 0 | Inr s \<Rightarrow> s),
      br_block_reason = bs_block_reason shield\<rparr>"

interpretation shield_writer: row_writer "upsert_blocked_shield hex_decode list_key chain" "\<lambda>t. t"
    "shield_key hex_decode list_key chain" "shield_row hex_decode"
  by unfold_locales
     (auto simp: upsert_blocked_shield_def result_simps Let_def sql_simps shield_key_def shield_row_def
       fun_eq_iff split: option.splits)

section \<open>Histories of the store\<close>

text \<open>
  The operations that write the POI tables, with arbitrary arguments. One that fails is rolled back.
\<close>

datatype poi_op =
    InsertEvents bytes32 u64 "signed_poi_event list"
  | InsertEventLeaves bytes32 u64 u64 "u256 list"
  | AdvanceChainTip bytes32 u64 string u64 "string option"
  | ReplaceBlockedShields bytes32 u64 "signed_blocked_shield list"
  | SetTxidVersion publication_db string bool

fun poi_op_result :: "hex_decoder \<Rightarrow> poi_op \<Rightarrow> poi_db \<Rightarrow> poi_db stored" where
  "poi_op_result h (InsertEvents l c events) db = insert_events h l c events db"
| "poi_op_result h (InsertEventLeaves l c start leaves) db = insert_event_leaves l c start leaves db"
| "poi_op_result h (AdvanceChainTip l c url tip root) db = advance_chain_tip h l c url tip root db"
| "poi_op_result h (ReplaceBlockedShields l c shields) db = replace_blocked_shields h l c shields db"
| "poi_op_result h (SetTxidVersion pub version adopt) db = set_poi_txid_version pub version adopt db"

fun run_poi_ops :: "hex_decoder \<Rightarrow> poi_op list \<Rightarrow> poi_db \<Rightarrow> poi_db" where
  "run_poi_ops h [] db = db"
| "run_poi_ops h (op # ops) db =
     run_poi_ops h ops (case poi_op_result h op db of Inl _ \<Rightarrow> db | Inr db' \<Rightarrow> db')"

definition events_grow :: "event_table \<Rightarrow> event_table \<Rightarrow> bool" where
  "events_grow = rows_grow (\<lambda>r r'. pe_blinded_commitment r' = pe_blinded_commitment r
     \<and> (pe_event_data_complete r \<longrightarrow> r' = r))"

definition tips_grow :: "tip_table \<Rightarrow> tip_table \<Rightarrow> bool" where
  "tips_grow = rows_grow (\<lambda>r r'. ct_last_event_index r \<le> ct_last_event_index r')"

definition poi_grow :: "poi_db \<Rightarrow> poi_db \<Rightarrow> bool" where
  "poi_grow db db' \<longleftrightarrow>
     events_grow (poi_events db) (poi_events db') \<and> tips_grow (chain_tips db) (chain_tips db')
     \<and> (\<forall>v. poi_dataset_identity db = Some v \<longrightarrow> poi_dataset_identity db' = Some v)"

lemma events_grow_refl [simp]: "events_grow t t"
  by (simp add: events_grow_def rows_grow_refl)

lemma events_grow_trans: "events_grow t t' \<Longrightarrow> events_grow t' t'' \<Longrightarrow> events_grow t t''"
  unfolding events_grow_def by (rule rows_grow_trans) auto

lemma tips_grow_refl [simp]: "tips_grow t t"
  by (simp add: tips_grow_def rows_grow_refl)

lemma tips_grow_trans: "tips_grow t t' \<Longrightarrow> tips_grow t' t'' \<Longrightarrow> tips_grow t t''"
  unfolding tips_grow_def by (rule rows_grow_trans) auto

lemma poi_grow_refl [simp]: "poi_grow db db"
  by (simp add: poi_grow_def)

lemma poi_grow_trans: "poi_grow a b \<Longrightarrow> poi_grow b c \<Longrightarrow> poi_grow a c"
  unfolding poi_grow_def using events_grow_trans tips_grow_trans by blast

lemma insert_event_grows: "insert_event h l cid c t event = Inr t' \<Longrightarrow> events_grow t t'"
  unfolding events_grow_def
  by (rule rows_grow_upd [OF insert_event_cases(2)])
     (auto dest: insert_event_cases(3) simp: event_row_def complete_row_def)

definition leaf_row :: "u256 \<Rightarrow> poi_event_row" where
  "leaf_row leaf = \<lparr>pe_blinded_commitment = leaf, pe_signature = 0, pe_event_type = 0,
     pe_event_data_complete = False\<rparr>"

lemma insert_event_leaf_is_insert:
  assumes "insert_event_leaf l cid c start t (offset, leaf) = Inr t'"
  obtains index where "t' = fst (insert_on_conflict (l, c, int (unat index)) (leaf_row leaf) (\<lambda>_. None) t)"
    and "checked_add_len start offset = Some index"
  using assms
  by (auto simp: insert_event_leaf_def Let_def split_beta result_simps leaf_row_def split: if_splits)

lemma insert_event_leaf_grows: "insert_event_leaf l cid c start t x = Inr t' \<Longrightarrow> events_grow t t'"
  by (cases x, simp only:, erule insert_event_leaf_is_insert)
     (auto simp: events_grow_def intro: rows_grow_insert)

lemma try_fold_grows:
  assumes "try_fold f t xs = Inr t'" and "\<And>t x t'. f t x = Inr t' \<Longrightarrow> events_grow t t'"
  shows "events_grow t t'"
  by (rule try_fold_invariant [where P = "events_grow t", OF assms(1)])
     (auto intro: events_grow_trans assms(2))

lemma advance_tip_is_insert:
  assumes "advance_chain_tip h l c url tip root db = Inr db'"
  obtains row where "db' = db\<lparr>chain_tips := fst (insert_on_conflict (l, int (unat c), url) row
      (\<lambda>old. if ct_last_event_index old \<le> int (unat tip) then Some row else None) (chain_tips db))\<rparr>"
    and "ct_last_event_index row = int (unat tip)" and "unat tip < 2 ^ 63" and "unat c < 2 ^ 63"
    and "\<forall>old. map_of (chain_tips db) (l, int (unat c), url) = Some old \<longrightarrow>
      ct_last_event_index old \<le> int (unat tip)"
proof -
  from assms obtain r :: "bytes32 option" where
    "unat c < 2 ^ 63" "unat tip < 2 ^ 63"
    and x: "(case insert_on_conflict (l, int (unat c), url)
         \<lparr>ct_last_event_index = int (unat tip), ct_last_tip_merkleroot = r\<rparr>
         (\<lambda>old. if ct_last_event_index old \<le> int (unat tip)
            then Some \<lparr>ct_last_event_index = int (unat tip), ct_last_tip_merkleroot = r\<rparr> else None)
         (chain_tips db) of (tips, affected) \<Rightarrow>
         if affected = 0 then Inl (ChainTipRegression l c url tip) else Inr (db\<lparr>chain_tips := tips\<rparr>)) = Inr db'"
    unfolding advance_chain_tip_def Let_def and_then_Inr_iff u64_to_i64_iff by blast
  moreover from x have "snd (insert_on_conflict (l, int (unat c), url)
         \<lparr>ct_last_event_index = int (unat tip), ct_last_tip_merkleroot = r\<rparr>
         (\<lambda>old. if ct_last_event_index old \<le> int (unat tip)
            then Some \<lparr>ct_last_event_index = int (unat tip), ct_last_tip_merkleroot = r\<rparr> else None)
         (chain_tips db)) \<noteq> 0"
    by (auto split: prod.splits if_splits)
  ultimately show ?thesis
    using that [of "\<lparr>ct_last_event_index = int (unat tip), ct_last_tip_merkleroot = r\<rparr>"]
    unfolding insert_affected by (fastforce split: prod.splits if_splits)
qed

lemma advance_tip_grows:
  assumes "advance_chain_tip h l c url tip root db = Inr db'"
  shows "tips_grow (chain_tips db) (chain_tips db')" and "poi_events db' = poi_events db"
    and "blocked_shields db' = blocked_shields db" and "poi_dataset_identity db' = poi_dataset_identity db"
proof -
  obtain row where row: "db' = db\<lparr>chain_tips := fst (insert_on_conflict (l, int (unat c), url) row
      (\<lambda>old. if ct_last_event_index old \<le> int (unat tip) then Some row else None) (chain_tips db))\<rparr>"
    "ct_last_event_index row = int (unat tip)"
    using assms by (rule advance_tip_is_insert)
  then show "tips_grow (chain_tips db) (chain_tips db')"
    by (auto simp: tips_grow_def intro!: rows_grow_insert split: if_splits)
  show "poi_events db' = poi_events db" "blocked_shields db' = blocked_shields db"
    "poi_dataset_identity db' = poi_dataset_identity db"
    using row(1) by simp_all
qed

lemma poi_op_grows:
  assumes "poi_op_result h op db = Inr db'"
  shows "poi_grow db db'"
proof (cases op)
  case (InsertEvents l c events)
  with assms obtain chain t where
    "try_fold (insert_event h l c chain) (poi_events db) events = Inr t" "db' = db\<lparr>poi_events := t\<rparr>"
    by (auto simp: insert_events_def result_simps)
  with try_fold_grows [OF _ insert_event_grows] show ?thesis by (auto simp: poi_grow_def)
next
  case (InsertEventLeaves l c start leaves)
  with assms obtain chain t where
    "try_fold (insert_event_leaf l c chain start) (poi_events db) (List.enumerate 0 leaves) = Inr t"
    "db' = db\<lparr>poi_events := t\<rparr>"
    by (auto simp: insert_event_leaves_def result_simps)
  with try_fold_grows [OF _ insert_event_leaf_grows] show ?thesis by (auto simp: poi_grow_def)
next
  case (AdvanceChainTip l c url tip root)
  with assms advance_tip_grows show ?thesis by (auto simp: poi_grow_def)
next
  case (ReplaceBlockedShields l c shields)
  with assms show ?thesis
    by (auto simp: poi_grow_def replace_blocked_shields_def upsert_blocked_shields_def result_simps)
next
  case (SetTxidVersion pub version adopt)
  with assms show ?thesis
    by (auto simp: poi_grow_def set_poi_txid_version_def result_simps split: option.splits if_splits)
qed

text \<open>C28: The POI tables only grow. Whatever operations run on the store, with whatever arguments: an event
  that was complete is stored for ever with the same commitment, signature and type, an incomplete one
  keeps its commitment until it is completed, a tip never moves back, and the recorded version of the
  dataset never changes.\<close>

theorem poi_tables_only_grow: "poi_grow db (run_poi_ops h ops db)"
proof (induction ops arbitrary: db)
  case (Cons op ops)
  have "poi_grow db (case poi_op_result h op db of Inl _ \<Rightarrow> db | Inr db' \<Rightarrow> db')"
    using poi_op_grows by (auto split: sum.splits)
  with Cons.IH show ?case by (auto intro: poi_grow_trans)
qed simp

end
