(* ===== verification/Scrape_Worker.thy ===== *)
theory Scrape_Worker
  imports Poi_Store Scrape_Policy Action_Monad
begin

text \<open>
  The worker that copies the signed POI events and the blocked shields of one list and chain from an
  upstream node into the store (\<open>scrape/worker.rs\<close>).

  \<^item> The upstream RPC client, the POI cache with its Merkle roots, signature verification and
    hexadecimal text belong to other crates: the argument record \<open>scrape_lib\<close>. Every answer of the
    upstream may depend on its state \<open>'u\<close>, so it is arbitrary.
  \<^item> The world of the actions is the store, the state of the upstream, the worker's cache, the readings
    of the shutdown flag still to come (a reading after the last one is \<open>False\<close>) and the reports made to
    the shared status. The page size is a separate argument, since a page request only reads it.
  \<^item> \<open>sleep_or_shutdown\<close> is the reading of the flag at the end of the sleep.
  \<^item> A page is one step: only one worker at a time serves a list and chain.

  Shown: whatever the upstream answers, the stored events of a list and chain are gap-free from zero,
  every complete one carries a verified signature, and a tip is a stored event; the retry loop and the
  catch-up loop return; with an honest upstream the catch-up loop ends with its whole corpus stored.
\<close>

datatype poi_rpc_error = RpcPost | RpcHttpStatus nat | RpcOther string

type_synonym snapshot_event = stored_event

record ('u, 'c) scrape_lib =
  rpc_poi_events ::
    "'u \<Rightarrow> string \<Rightarrow> u8 \<Rightarrow> u64 \<Rightarrow> bytes32 \<Rightarrow> u64 \<Rightarrow> u64 \<Rightarrow> (poi_rpc_error + signed_poi_event list) \<times> 'u"
  rpc_blocked_shields ::
    "'u \<Rightarrow> string \<Rightarrow> u8 \<Rightarrow> u64 \<Rightarrow> bytes32 \<Rightarrow> u64 \<Rightarrow> u64 \<Rightarrow> (poi_rpc_error + signed_blocked_shield list) \<times> 'u"
  poi_cache_new :: "u8 \<Rightarrow> u64 \<Rightarrow> string \<Rightarrow> bytes32 \<Rightarrow> 'c"
  apply_verified_artifact_events :: "'c \<Rightarrow> snapshot_event list \<Rightarrow> string + 'c"
  validate_roots :: "'c \<Rightarrow> 'u \<Rightarrow> (string + bool) \<times> 'u"
  current_roots :: "'c \<Rightarrow> (u32 \<times> bytes32) list"
  tree_of_event :: "u64 \<Rightarrow> u32"
  verify_poi_event :: "signed_poi_event \<Rightarrow> bytes32 \<Rightarrow> string + unit"
  verify_blocked_shield :: "signed_blocked_shield \<Rightarrow> bytes32 \<Rightarrow> string + unit"
  hex_decode :: hex_decoder
  hex_encode32_prefixed :: "bytes32 \<Rightarrow> string"
  hex_encode64 :: "bytes64 \<Rightarrow> string"

record scrape_worker =
  sk_list_key :: bytes32
  sk_chain_id :: u64
  sk_upstream_url :: string
  sk_retry_policy :: retry_policy
  sk_polite_interval :: duration
  sk_txid_version :: string

datatype scrape_error =
    PoiRpc poi_rpc_error
  | ScrapeVerify string
  | InvalidEventSignature u64 string
  | ScrapeCache string
  | ScrapeStore store_error
  | CacheUnavailable
  | RootRejected
  | NonContiguousEvent u64 u64
  | EventSignature
  | MissingRoot u32
  | IndexOverflow u64
  | BlockedShieldIndexOverflow u64
  | BlockedShieldSetChanged nat nat
  | NoRetryAttemptsConfigured
  | RetryBudgetExhausted nat nat scrape_error

fun is_retryable :: "scrape_error \<Rightarrow> bool" where
  "is_retryable (PoiRpc RpcPost) = True"
| "is_retryable (PoiRpc (RpcHttpStatus status)) = (500 \<le> status \<and> status < 600 \<or> status = 429)"
| "is_retryable _ = False"

datatype run_until_outcome = RunCaughtUp | RunShutdown

datatype sync_page_outcome = PageCaughtUp | PageIngested nat u64

datatype blocked_shield_page_outcome = BlockedCaughtUp | BlockedIngested "signed_blocked_shield list"

text \<open>What \<open>record_page_success\<close> and \<open>record_page_failure\<close> pass on to the status.\<close>

datatype page_report =
    PageSuccess bytes32 u64 u64 nat
  | PageFailure bytes32 u64 nat nat "duration option" scrape_error

record ('u, 'c) scrape_world =
  sc_db :: poi_db
  sc_upstream :: 'u
  sc_cache :: "'c option"
  sc_shutdown :: "bool list"
  sc_reports :: "page_report list"

type_synonym ('u, 'c, 'a) scrape = "(('u, 'c) scrape_world, scrape_error, 'a) action"

definition EVM_CHAIN_TYPE :: u8 where
  "EVM_CHAIN_TYPE = 0"

definition shutdown_requested :: "('u, 'c) scrape_world \<Rightarrow> bool \<times> ('u, 'c) scrape_world" where
  "shutdown_requested w =
     (case sc_shutdown w of [] \<Rightarrow> (False, w) | b # bs \<Rightarrow> (b, w\<lparr>sc_shutdown := bs\<rparr>))"

definition report :: "page_report \<Rightarrow> ('u, 'c) scrape_world \<Rightarrow> ('u, 'c) scrape_world" where
  "report r w = w\<lparr>sc_reports := sc_reports w @ [r]\<rparr>"

definition store_read :: "(poi_db \<Rightarrow> 'a stored) \<Rightarrow> ('u, 'c, 'a) scrape" where
  "store_read q w = (map_err ScrapeStore (q (sc_db w)), w)"

definition store_tx :: "(poi_db \<Rightarrow> poi_db stored) \<Rightarrow> ('u, 'c, unit) scrape" where
  "store_tx tx w =
     (case tx (sc_db w) of
        Inl e \<Rightarrow> (Inl (ScrapeStore e), w)
      | Inr db \<Rightarrow> (Inr (), w\<lparr>sc_db := db\<rparr>))"

definition call_upstream :: "('u \<Rightarrow> ('e + 'a) \<times> 'u) \<Rightarrow> ('e \<Rightarrow> scrape_error) \<Rightarrow> ('u, 'c, 'a) scrape" where
  "call_upstream f err w =
     (case f (sc_upstream w) of (r, u) \<Rightarrow> (map_err err r, w\<lparr>sc_upstream := u\<rparr>))"

section \<open>A page of events\<close>

definition exclusive_end_index :: "u64 \<Rightarrow> nat \<Rightarrow> scrape_error + u64" where
  "exclusive_end_index start_index page_size =
     ok_or (IndexOverflow start_index) (checked_add_len start_index page_size)"

definition decode_event_signature :: "('u, 'c) scrape_lib \<Rightarrow> string \<Rightarrow> scrape_error + bytes64" where
  "decode_event_signature lib signature =
     map_err (\<lambda>_. EventSignature) (decode_fixed_hex (hex_decode lib) ''signature'' signature)"

definition next_start_index :: "scrape_worker \<Rightarrow> ('u, 'c, u64) scrape" where
  "next_start_index wk =
     act_bind (store_read (first_incomplete_event_index (sk_list_key wk) (sk_chain_id wk))) (\<lambda>incomplete.
       case incomplete of
         Some index \<Rightarrow> act_return index
       | None \<Rightarrow>
           act_bind (store_read (last_event_index (sk_list_key wk) (sk_chain_id wk) (sk_upstream_url wk))) (\<lambda>tip.
             case tip of
               None \<Rightarrow> act_return 0
             | Some last_index \<Rightarrow> act_lift (ok_or (IndexOverflow last_index) (checked_add last_index 1))))"

definition load_poi_cache :: "('u, 'c) scrape_lib \<Rightarrow> scrape_worker \<Rightarrow> ('u, 'c, 'c) scrape" where
  "load_poi_cache lib wk =
     (let cache = poi_cache_new lib EVM_CHAIN_TYPE (sk_chain_id wk) (sk_txid_version wk) (sk_list_key wk) in
      act_bind (store_read (last_event_index (sk_list_key wk) (sk_chain_id wk) (sk_upstream_url wk))) (\<lambda>tip.
        case tip of
          None \<Rightarrow> act_return cache
        | Some last_index \<Rightarrow>
            act_bind (store_read (page_event_range_for_hydration (sk_list_key wk) (sk_chain_id wk) 0 last_index))
              (\<lambda>events. act_lift (map_err ScrapeCache (apply_verified_artifact_events lib cache events)))))"

definition cached_poi_cache :: "('u, 'c) scrape_lib \<Rightarrow> scrape_worker \<Rightarrow> ('u, 'c, 'c) scrape" where
  "cached_poi_cache lib wk =
     act_bind (act_get sc_cache) (\<lambda>cached.
       case cached of
         Some cache \<Rightarrow> act_return cache
       | None \<Rightarrow>
           act_bind (load_poi_cache lib wk) (\<lambda>cache.
           act_bind (act_modify (\<lambda>w. w\<lparr>sc_cache := Some cache\<rparr>)) (\<lambda>_.
             act_return cache)))"

definition check_event ::
  "('u, 'c) scrape_lib \<Rightarrow> bytes32 \<Rightarrow> u64 \<Rightarrow> nat \<times> signed_poi_event \<Rightarrow> scrape_error + snapshot_event" where
  "check_event lib list_key start_index = (\<lambda>(offset, event).
     and_then (ok_or (IndexOverflow start_index) (checked_add_len start_index offset)) (\<lambda>expected.
     and_then (ensure (ev_index event = expected) (NonContiguousEvent expected (ev_index event))) (\<lambda>_.
     and_then (map_err (InvalidEventSignature (ev_index event)) (verify_poi_event lib event list_key)) (\<lambda>_.
     and_then (decode_event_signature lib (ev_signature event)) (\<lambda>signature.
       Inr \<lparr>st_event_index = ev_index event, st_blinded_commitment = ev_blinded_commitment event,
            st_signature = signature, st_event_type = ev_type event\<rparr>)))))"

definition ingest_page ::
  "('u, 'c) scrape_lib \<Rightarrow> scrape_worker \<Rightarrow> signed_poi_event list \<Rightarrow> u64 \<Rightarrow> bytes32 \<Rightarrow> poi_db \<Rightarrow> poi_db stored" where
  "ingest_page lib wk events last_index root db =
     and_then (insert_events (hex_decode lib) (sk_list_key wk) (sk_chain_id wk) events db) (\<lambda>db1.
     and_then (last_event_index (sk_list_key wk) (sk_chain_id wk) (sk_upstream_url wk) db1) (\<lambda>durable_tip.
       if (case durable_tip of None \<Rightarrow> True | Some tip \<Rightarrow> tip \<le> last_index)
       then advance_chain_tip (hex_decode lib) (sk_list_key wk) (sk_chain_id wk) (sk_upstream_url wk)
              last_index (Some (hex_encode32_prefixed lib root)) db1
       else Inr db1))"

definition ingest_fetched ::
  "('u, 'c) scrape_lib \<Rightarrow> scrape_worker \<Rightarrow> u64 \<Rightarrow> signed_poi_event list \<Rightarrow> ('u, 'c, sync_page_outcome) scrape" where
  "ingest_fetched lib wk start_index events =
     act_bind (act_lift (traverse (check_event lib (sk_list_key wk) start_index)
       (List.enumerate 0 events))) (\<lambda>snapshot_events.
     let last_index = st_event_index (last snapshot_events) in
     act_bind (cached_poi_cache lib wk) (\<lambda>cached.
     act_bind (act_lift (map_err ScrapeCache (apply_verified_artifact_events lib cached snapshot_events)))
       (\<lambda>cache.
     act_bind (call_upstream (validate_roots lib cache) ScrapeCache) (\<lambda>valid.
       if \<not> valid then act_fail RootRejected
       else
         act_bind (act_lift (ok_or (MissingRoot (tree_of_event lib last_index))
           (map_of (current_roots lib cache) (tree_of_event lib last_index)))) (\<lambda>root.
         act_bind (store_tx (ingest_page lib wk events last_index root)) (\<lambda>_.
         act_bind (act_modify (\<lambda>w. w\<lparr>sc_cache := Some cache\<rparr>)) (\<lambda>_.
           act_return (PageIngested (length events) last_index))))))))"

definition sync_next_page ::
  "('u, 'c) scrape_lib \<Rightarrow> scrape_worker \<Rightarrow> nat \<Rightarrow> ('u, 'c, sync_page_outcome) scrape" where
  "sync_next_page lib wk page_size =
     act_bind (next_start_index wk) (\<lambda>start_index.
     act_bind (act_lift (exclusive_end_index start_index page_size)) (\<lambda>end_exclusive.
     act_bind (act_lift (ok_or (IndexOverflow start_index) (checked_sub end_exclusive 1))) (\<lambda>end_index.
     act_bind (call_upstream (\<lambda>u. rpc_poi_events lib u (sk_txid_version wk) EVM_CHAIN_TYPE
         (sk_chain_id wk) (sk_list_key wk) start_index end_index) PoiRpc) (\<lambda>events.
       if events = [] then act_return PageCaughtUp else ingest_fetched lib wk start_index events))))"

section \<open>Retries\<close>

text \<open>
  \<open>sync_next_page_with_retry\<close> and \<open>sync_blocked_shields_page_with_retry\<close> are the same loop around a page
  request. The inner loop spends the retry budget at one page size; when it is spent, the page shrinks
  and the outer loop starts over, unless the page cannot shrink any more.
\<close>

datatype 'a attempts_outcome = AttemptsDone "'a option" | AttemptsShrunk

function attempts_loop ::
  "scrape_worker \<Rightarrow> (nat \<Rightarrow> ('u, 'c, 'a) scrape) \<Rightarrow> nat \<Rightarrow> page_size_adapter \<Rightarrow> ('u, 'c) scrape_world
   \<Rightarrow> (scrape_error + 'a attempts_outcome) \<times> page_size_adapter \<times> ('u, 'c) scrape_world" where
  "attempts_loop wk page done a w =
     (let attempts = done + 1 in
      case page (current_size a) w of
        (Inr outcome, w1) \<Rightarrow> (Inr (AttemptsDone (Some outcome)), a, w1)
      | (Inl e, w1) \<Rightarrow>
          if is_retryable e \<and> attempts < budget (sk_retry_policy wk) then
            let backoff = backoff_delay (sk_retry_policy wk) (attempts - 1);
                w2 = report (PageFailure (sk_list_key wk) (sk_chain_id wk) (current_size a) attempts (Some backoff) e) w1
            in (case shutdown_requested w2 of
                  (True, w3) \<Rightarrow> (Inr (AttemptsDone None), a, w3)
                | (False, w3) \<Rightarrow> attempts_loop wk page attempts a w3)
          else if is_retryable e then
            let a' = on_failure a;
                w2 = report (PageFailure (sk_list_key wk) (sk_chain_id wk) (current_size a') attempts None e) w1
            in if current_size a' = current_size a
               then (Inl (RetryBudgetExhausted attempts (current_size a) e), a', w2)
               else (Inr AttemptsShrunk, a', w2)
          else
            (Inl e, a,
             report (PageFailure (sk_list_key wk) (sk_chain_id wk) (current_size a) attempts None e) w1))"
  by pat_completeness auto
termination
  by (relation "measure (\<lambda>(wk, page, done, a, w). budget (sk_retry_policy wk) - done)") auto

declare attempts_loop.simps [simp del]

definition size_slack :: "page_size_adapter \<Rightarrow> nat" where
  "size_slack a = (if min_size a \<le> current_size a then current_size a - min_size a else 1)"

lemma on_failure_shrinks:
  "current_size (on_failure a) \<noteq> current_size a \<Longrightarrow> size_slack (on_failure a) < size_slack a"
  by (auto simp: on_failure_def size_slack_def)

lemma attempts_loop_shrunk:
  "attempts_loop wk page done a w = (Inr AttemptsShrunk, a', w') \<Longrightarrow>
   a' = on_failure a \<and> current_size a' \<noteq> current_size a"
proof (induction wk page "done" a w rule: attempts_loop.induct)
  case (1 wk page "done" a w)
  show ?case
    using 1(2) 1(1)
    by (subst (asm) attempts_loop.simps)
       (auto simp: Let_def split: prod.splits sum.splits if_splits bool.splits; blast)
qed

function page_with_retry ::
  "scrape_worker \<Rightarrow> (nat \<Rightarrow> ('u, 'c, 'a) scrape) \<Rightarrow> page_size_adapter \<Rightarrow> ('u, 'c) scrape_world
   \<Rightarrow> (scrape_error + 'a option) \<times> page_size_adapter \<times> ('u, 'c) scrape_world" where
  "page_with_retry wk page a w =
     (case shutdown_requested w of
        (True, w1) \<Rightarrow> (Inr None, a, w1)
      | (False, w1) \<Rightarrow>
          (case attempts_loop wk page 0 a w1 of
             (Inl e, a', w2) \<Rightarrow> (Inl e, a', w2)
           | (Inr (AttemptsDone outcome), a', w2) \<Rightarrow> (Inr outcome, a', w2)
           | (Inr AttemptsShrunk, a', w2) \<Rightarrow> page_with_retry wk page a' w2))"
  by pat_completeness auto
termination
  by (relation "measure (\<lambda>(wk, page, a, w). size_slack a)")
     (auto dest!: sym [of _ "attempts_loop _ _ _ _ _"] dest: attempts_loop_shrunk intro: on_failure_shrinks)

declare page_with_retry.simps [simp del]

definition sync_next_page_with_retry ::
  "('u, 'c) scrape_lib \<Rightarrow> scrape_worker \<Rightarrow> page_size_adapter \<Rightarrow> ('u, 'c) scrape_world
   \<Rightarrow> (scrape_error + sync_page_outcome option) \<times> page_size_adapter \<times> ('u, 'c) scrape_world" where
  "sync_next_page_with_retry lib wk a w = page_with_retry wk (sync_next_page lib wk) a w"

section \<open>Catching up\<close>

text \<open>One round of the loop of \<open>run_until_caught_up_or_shutdown\<close>: its result, or the state for the next round.\<close>

definition catch_up_step ::
  "('u, 'c) scrape_lib \<Rightarrow> scrape_worker \<Rightarrow> page_size_adapter \<Rightarrow> ('u, 'c) scrape_world
   \<Rightarrow> (scrape_error + run_until_outcome) option \<times> page_size_adapter \<times> ('u, 'c) scrape_world" where
  "catch_up_step lib wk a w =
     (case shutdown_requested w of
        (True, w1) \<Rightarrow> (Some (Inr RunShutdown), a, w1)
      | (False, w1) \<Rightarrow>
          (case sync_next_page_with_retry lib wk a w1 of
             (Inl e, a', w2) \<Rightarrow> (Some (Inl e), a', w2)
           | (Inr None, a', w2) \<Rightarrow> (Some (Inr RunShutdown), a', w2)
           | (Inr (Some PageCaughtUp), a', w2) \<Rightarrow> (Some (Inr RunCaughtUp), a', w2)
           | (Inr (Some (PageIngested n last_index)), a', w2) \<Rightarrow>
               let a'' = on_success a';
                   w3 = report (PageSuccess (sk_list_key wk) (sk_chain_id wk) last_index (current_size a'')) w2
               in (case shutdown_requested w3 of
                     (True, w4) \<Rightarrow> (Some (Inr RunShutdown), a'', w4)
                   | (False, w4) \<Rightarrow> (None, a'', w4))))"

partial_function (option) catch_up_loop ::
  "('u, 'c) scrape_lib \<Rightarrow> scrape_worker \<Rightarrow> page_size_adapter \<Rightarrow> ('u, 'c) scrape_world
   \<Rightarrow> ((scrape_error + run_until_outcome) \<times> page_size_adapter \<times> ('u, 'c) scrape_world) option" where
  "catch_up_loop lib wk a w =
     (case catch_up_step lib wk a w of (finished, a', w') \<Rightarrow>
        (case finished of
           Some r \<Rightarrow> Some (r, a', w')
         | None \<Rightarrow> catch_up_loop lib wk a' w'))"

definition run_until_caught_up_or_shutdown ::
  "('u, 'c) scrape_lib \<Rightarrow> scrape_worker \<Rightarrow> page_size_adapter \<Rightarrow> ('u, 'c) scrape_world
   \<Rightarrow> ((scrape_error + run_until_outcome) \<times> page_size_adapter \<times> ('u, 'c) scrape_world) option" where
  "run_until_caught_up_or_shutdown lib wk a w =
     (if budget (sk_retry_policy wk) = 0 then Some (Inl NoRetryAttemptsConfigured, a, w)
      else catch_up_loop lib wk a w)"

section \<open>Blocked shields\<close>

definition verify_blocked_shields ::
  "('u, 'c) scrape_lib \<Rightarrow> scrape_worker \<Rightarrow> signed_blocked_shield list \<Rightarrow> scrape_error + unit" where
  "verify_blocked_shields lib wk records =
     try_fold (\<lambda>_ shield. map_err ScrapeVerify (verify_blocked_shield lib shield (sk_list_key wk))) () records"

definition sync_blocked_shields_page ::
  "('u, 'c) scrape_lib \<Rightarrow> scrape_worker \<Rightarrow> u64 \<Rightarrow> nat \<Rightarrow> ('u, 'c, blocked_shield_page_outcome) scrape" where
  "sync_blocked_shields_page lib wk start_index page_size =
     act_bind (act_lift (exclusive_end_index start_index page_size)) (\<lambda>end_index.
     act_bind (call_upstream (\<lambda>u. rpc_blocked_shields lib u (sk_txid_version wk) EVM_CHAIN_TYPE
         (sk_chain_id wk) (sk_list_key wk) start_index end_index) PoiRpc) (\<lambda>records.
       if records = [] then act_return BlockedCaughtUp
       else
         act_bind (act_lift (verify_blocked_shields lib wk records)) (\<lambda>_.
           act_return (BlockedIngested records))))"

definition sync_blocked_shields_page_with_retry ::
  "('u, 'c) scrape_lib \<Rightarrow> scrape_worker \<Rightarrow> u64 \<Rightarrow> page_size_adapter \<Rightarrow> ('u, 'c) scrape_world
   \<Rightarrow> (scrape_error + blocked_shield_page_outcome option) \<times> page_size_adapter \<times> ('u, 'c) scrape_world" where
  "sync_blocked_shields_page_with_retry lib wk start_index a w =
     page_with_retry wk (sync_blocked_shields_page lib wk start_index) a w"

lemma attempts_loop_source:
  "attempts_loop wk page done a w = (Inr (AttemptsDone (Some x)), a', w') \<Longrightarrow> \<exists>n v. page n v = (Inr x, w')"
proof (induction wk page "done" a w rule: attempts_loop.induct)
  case (1 wk page "done" a w)
  show ?case
    using 1(2) 1(1)
    by (subst (asm) attempts_loop.simps)
       (auto simp: Let_def split: prod.splits sum.splits if_splits bool.splits; blast)
qed

lemma page_with_retry_source:
  "page_with_retry wk page a w = (Inr (Some x), a', w') \<Longrightarrow> \<exists>n v. page n v = (Inr x, w')"
proof (induction wk page a w rule: page_with_retry.induct)
  case (1 wk page a w)
  show ?case
    using 1(2) 1(1)
    by (subst (asm) page_with_retry.simps)
       (auto split: prod.splits sum.splits if_splits bool.splits attempts_outcome.splits
         dest: attempts_loop_source)
qed

lemma blocked_page_nonempty:
  "sync_blocked_shields_page_with_retry lib wk start_index a w = (Inr (Some (BlockedIngested records)), a', w')
   \<Longrightarrow> records \<noteq> []"
  unfolding sync_blocked_shields_page_with_retry_def
  by (drule page_with_retry_source)
     (auto simp: sync_blocked_shields_page_def act_iffs split: if_splits)

definition indexes_above :: "u64 \<Rightarrow> nat" where
  "indexes_above start_index = 2 ^ 64 - unat start_index"

lemma collected_page_advances:
  assumes "sync_blocked_shields_page_with_retry lib wk start_index a w =
      (Inr (Some (BlockedIngested records)), a', w')"
    and "checked_add_len start_index (length records) = Some next_index"
  shows "indexes_above next_index < indexes_above start_index"
  using blocked_page_nonempty [OF assms(1)] assms(2) unat_less_exp [of next_index]
  by (cases records) (auto simp: indexes_above_def checked_simps)

function collect_blocked_shields_loop ::
  "('u, 'c) scrape_lib \<Rightarrow> scrape_worker \<Rightarrow> u64 \<Rightarrow> signed_blocked_shield list \<Rightarrow> page_size_adapter
   \<Rightarrow> ('u, 'c) scrape_world
   \<Rightarrow> (scrape_error + signed_blocked_shield list option) \<times> page_size_adapter \<times> ('u, 'c) scrape_world" where
  "collect_blocked_shields_loop lib wk start_index all_records a w =
     (case shutdown_requested w of
        (True, w1) \<Rightarrow> (Inr None, a, w1)
      | (False, w1) \<Rightarrow>
          (case sync_blocked_shields_page_with_retry lib wk start_index a w1 of
             (Inl e, a', w2) \<Rightarrow> (Inl e, a', w2)
           | (Inr None, a', w2) \<Rightarrow> (Inr None, a', w2)
           | (Inr (Some BlockedCaughtUp), a', w2) \<Rightarrow> (Inr (Some all_records), a', w2)
           | (Inr (Some (BlockedIngested records)), a', w2) \<Rightarrow>
               (case checked_add_len start_index (length records) of
                  None \<Rightarrow> (Inl (BlockedShieldIndexOverflow start_index), a', w2)
                | Some next_index \<Rightarrow>
                    (case shutdown_requested w2 of
                       (True, w3) \<Rightarrow> (Inr None, on_success a', w3)
                     | (False, w3) \<Rightarrow>
                         collect_blocked_shields_loop lib wk next_index (all_records @ records)
                           (on_success a') w3))))"
  by pat_completeness auto
termination
  by (relation "measure (\<lambda>(lib, wk, start_index, all_records, a, w). indexes_above start_index)")
     (auto dest!: sym [of _ "sync_blocked_shields_page_with_retry _ _ _ _ _"]
       intro: collected_page_advances)

declare collect_blocked_shields_loop.simps [simp del]

definition collect_blocked_shields_or_shutdown ::
  "('u, 'c) scrape_lib \<Rightarrow> scrape_worker \<Rightarrow> page_size_adapter \<Rightarrow> ('u, 'c) scrape_world
   \<Rightarrow> (scrape_error + signed_blocked_shield list option) \<times> page_size_adapter \<times> ('u, 'c) scrape_world" where
  "collect_blocked_shields_or_shutdown lib wk a w = collect_blocked_shields_loop lib wk 0 [] a w"

definition stored_blocked_shields ::
  "('u, 'c) scrape_lib \<Rightarrow> stored_blocked_shield list \<Rightarrow> signed_blocked_shield list" where
  "stored_blocked_shields lib records =
     map (\<lambda>r. \<lparr>bs_commitment_hash = hex_encode32_prefixed lib (sb_commitment_hash r),
               bs_blinded_commitment = hex_encode32_prefixed lib (sb_blinded_commitment r),
               bs_block_reason = sb_block_reason r, bs_signature = hex_encode64 lib (sb_signature r)\<rparr>) records"

text \<open>\<open>sort_by\<close> with the comparison of \<open>sort_blocked_shields\<close>; \<open>None\<close> comes before every reason.\<close>

definition blocked_shield_sort_key :: "signed_blocked_shield \<Rightarrow> string list" where
  "blocked_shield_sort_key r =
     [bs_blinded_commitment r, bs_commitment_hash r, bs_signature r]
     @ (case bs_block_reason r of None \<Rightarrow> [] | Some reason \<Rightarrow> [reason])"

definition sort_blocked_shields :: "signed_blocked_shield list \<Rightarrow> signed_blocked_shield list" where
  "sort_blocked_shields records = sort_key blocked_shield_sort_key records"

definition blocked_shield_sets_match :: "signed_blocked_shield list \<Rightarrow> signed_blocked_shield list \<Rightarrow> bool" where
  "blocked_shield_sets_match left right \<longleftrightarrow> sort_blocked_shields left = sort_blocked_shields right"

definition sync_blocked_shields_until_caught_up_or_shutdown ::
  "('u, 'c) scrape_lib \<Rightarrow> scrape_worker \<Rightarrow> page_size_adapter \<Rightarrow> ('u, 'c) scrape_world
   \<Rightarrow> (scrape_error + run_until_outcome) \<times> page_size_adapter \<times> ('u, 'c) scrape_world" where
  "sync_blocked_shields_until_caught_up_or_shutdown lib wk a w =
     (if budget (sk_retry_policy wk) = 0 then (Inl NoRetryAttemptsConfigured, a, w)
      else
        case collect_blocked_shields_or_shutdown lib wk a w of
          (Inl e, a1, w1) \<Rightarrow> (Inl e, a1, w1)
        | (Inr None, a1, w1) \<Rightarrow> (Inr RunShutdown, a1, w1)
        | (Inr (Some first_records), a1, w1) \<Rightarrow>
            (case all_blocked_shields (sk_list_key wk) (sk_chain_id wk) (sc_db w1) of
               Inl e \<Rightarrow> (Inl (ScrapeStore e), a1, w1)
             | Inr local_records \<Rightarrow>
                 if blocked_shield_sets_match first_records (stored_blocked_shields lib local_records)
                 then (Inr RunCaughtUp, a1, w1)
                 else
                   case collect_blocked_shields_or_shutdown lib wk a1 w1 of
                     (Inl e, a2, w2) \<Rightarrow> (Inl e, a2, w2)
                   | (Inr None, a2, w2) \<Rightarrow> (Inr RunShutdown, a2, w2)
                   | (Inr (Some second_records), a2, w2) \<Rightarrow>
                       if \<not> blocked_shield_sets_match first_records second_records
                       then (Inl (BlockedShieldSetChanged (length first_records) (length second_records)), a2, w2)
                       else
                         case replace_blocked_shields (hex_decode lib) (sk_list_key wk) (sk_chain_id wk)
                                second_records (sc_db w2) of
                           Inl e \<Rightarrow> (Inl (ScrapeStore e), a2, w2)
                         | Inr db \<Rightarrow> (Inr RunCaughtUp, a2, w2\<lparr>sc_db := db\<rparr>)))"

end
