(* ===== verification/Scrape_Facts.thy ===== *)
theory Scrape_Facts
  imports Scrape_Worker
begin

text \<open>
  What the scrape worker guarantees: the invariant of the stored corpus, termination of the catch-up
  loop against any upstream, and completeness against an honest one.
\<close>

section \<open>What a page does to the store\<close>

definition next_start :: "scrape_worker \<Rightarrow> poi_db \<Rightarrow> scrape_error + u64" where
  "next_start wk db =
     and_then (map_err ScrapeStore (first_incomplete_event_index (sk_list_key wk) (sk_chain_id wk) db)) (\<lambda>incomplete.
       case incomplete of
         Some index \<Rightarrow> Inr index
       | None \<Rightarrow>
           and_then (map_err ScrapeStore
             (last_event_index (sk_list_key wk) (sk_chain_id wk) (sk_upstream_url wk) db)) (\<lambda>tip.
             case tip of
               None \<Rightarrow> Inr 0
             | Some last_index \<Rightarrow> ok_or (IndexOverflow last_index) (checked_add last_index 1)))"

lemma next_start_index_eq: "next_start_index wk w = (next_start wk (sc_db w), w)"
  by (auto simp: next_start_index_def next_start_def store_read_def act_defs and_then_def
      split: sum.splits option.splits)

definition page_effect ::
  "('u, 'c) scrape_lib \<Rightarrow> scrape_worker \<Rightarrow> poi_db \<Rightarrow> sync_page_outcome \<Rightarrow> poi_db \<Rightarrow> bool" where
  "page_effect lib wk db r db' \<longleftrightarrow>
     (case r of
        PageCaughtUp \<Rightarrow> db' = db
      | PageIngested n last_index \<Rightarrow>
          \<exists>start_index events snaps root.
            events \<noteq> [] \<and> next_start wk db = Inr start_index
            \<and> traverse (check_event lib (sk_list_key wk) start_index) (List.enumerate 0 events) = Inr snaps
            \<and> last_index = st_event_index (last snaps)
            \<and> ingest_page lib wk events last_index root db = Inr db')"

lemma keeps_db:
  "keeps (\<lambda>w. sc_db w = db) (call_upstream f err)"
  "keeps (\<lambda>w. sc_db w = db) (cached_poi_cache lib wk)"
  by (auto simp: keeps_def triple_def call_upstream_def cached_poi_cache_def load_poi_cache_def store_read_def
      act_defs Let_def split: prod.splits sum.splits option.splits)

lemma ingest_fetched_effect:
  assumes "events \<noteq> []" and "next_start wk db = Inr start_index"
  shows "triple (\<lambda>w. sc_db w = db) (ingest_fetched lib wk start_index events)
     (\<lambda>r w. page_effect lib wk db r (sc_db w)) (\<lambda>w. sc_db w = db)"
proof -
  have tx: "triple (\<lambda>w. sc_db w = db \<and> P) (store_tx f) (\<lambda>_ w. f db = Inr (sc_db w) \<and> P) (\<lambda>w. sc_db w = db)" for P f
    by (auto simp: triple_def store_tx_def split: sum.splits)
  show ?thesis
    unfolding ingest_fetched_def Let_def
    apply (rule triple_bind [where Q = "\<lambda>snaps w. sc_db w = db \<and>
        traverse (check_event lib (sk_list_key wk) start_index) (List.enumerate 0 events) = Inr snaps"])
     apply (rule triple_lift; simp)
    apply (rule triple_assume)
    apply (rule triple_bind [OF keeps_db(2) [unfolded keeps_def]])
    apply (rule triple_bind [where Q = "\<lambda>_ w. sc_db w = db"])
     apply (rule triple_lift; simp)
    apply (rule triple_bind [OF keeps_db(1) [unfolded keeps_def]])
    apply (rule triple_if)
     apply (rule triple_fail, simp)
    apply (rule triple_bind [where Q = "\<lambda>_ w. sc_db w = db \<and> True"])
     apply (rule triple_lift; simp)
    apply (rule triple_bind [OF tx])
    using assms by (auto simp: triple_def act_defs page_effect_def)
qed

lemma sync_next_page_effect:
  "triple (\<lambda>w. sc_db w = db) (sync_next_page lib wk n)
     (\<lambda>r w. page_effect lib wk db r (sc_db w)) (\<lambda>w. sc_db w = db)"
  unfolding sync_next_page_def
  apply (rule triple_bind [where Q = "\<lambda>start w. sc_db w = db \<and> next_start wk db = Inr start"])
   apply (auto simp: triple_def next_start_index_eq split: sum.splits) []
  apply (rule triple_assume)
  apply (rule triple_bind [where Q = "\<lambda>_ w. sc_db w = db"], (rule triple_lift; simp))+
  apply (rule triple_bind [OF keeps_db(1) [unfolded keeps_def]])
  apply (rule triple_if)
   apply (rule triple_return, simp add: page_effect_def)
  apply (rule triple_assume)
  apply (rule ingest_fetched_effect; assumption)
  done

section \<open>The corpus\<close>

text \<open>
  The stored events of every list and chain are gap-free from zero, every tip is the index of a stored
  event, and every complete event is one whose signature was verified.
\<close>

definition stored_at :: "poi_db \<Rightarrow> bytes32 \<Rightarrow> i64 \<Rightarrow> i64 \<Rightarrow> bool" where
  "stored_at db l c i \<longleftrightarrow> map_of (poi_events db) (l, c, i) \<noteq> None"

definition gap_free :: "poi_db \<Rightarrow> bool" where
  "gap_free db \<longleftrightarrow>
     (\<forall>l c i. stored_at db l c i \<longrightarrow> 0 \<le> i \<and> (\<forall>j. 0 \<le> j \<and> j \<le> i \<longrightarrow> stored_at db l c j))"

definition tips_stored :: "poi_db \<Rightarrow> bool" where
  "tips_stored db \<longleftrightarrow>
     (\<forall>l c url tip. map_of (chain_tips db) (l, c, url) = Some tip \<longrightarrow> stored_at db l c (ct_last_event_index tip))"

definition complete_verified :: "('u, 'c) scrape_lib \<Rightarrow> poi_db \<Rightarrow> bool" where
  "complete_verified lib db \<longleftrightarrow>
     (\<forall>l c i r. map_of (poi_events db) (l, c, i) = Some r \<and> pe_event_data_complete r \<longrightarrow>
        (\<exists>event. verify_poi_event lib event l = Inr () \<and> int (unat (ev_index event)) = i
                 \<and> r = event_row (hex_decode lib) event))"

definition corpus_ok :: "('u, 'c) scrape_lib \<Rightarrow> poi_db \<Rightarrow> bool" where
  "corpus_ok lib db \<longleftrightarrow>
     keyed (poi_events db) \<and> gap_free db \<and> tips_stored db \<and> complete_verified lib db"

text \<open>The events of a page that passed the checks.\<close>

lemma checked_events:
  assumes "traverse (check_event lib l start_index) (List.enumerate 0 events) = Inr snaps"
  shows "length snaps = length events"
    and "i < length events \<Longrightarrow> unat (ev_index (events ! i)) = unat start_index + i"
    and "i < length events \<Longrightarrow> verify_poi_event lib (events ! i) l = Inr ()"
    and "i < length events \<Longrightarrow> snaps ! i = \<lparr>st_event_index = ev_index (events ! i),
      st_blinded_commitment = ev_blinded_commitment (events ! i),
      st_signature = event_signature (hex_decode lib) (events ! i), st_event_type = ev_type (events ! i)\<rparr>"
    and "events \<noteq> [] \<Longrightarrow> Suc (unat (st_event_index (last snaps))) = unat start_index + length events"
proof -
  show len: "length snaps = length events"
    using traverse_length [OF assms] by simp
  have nth: "check_event lib l start_index (i, events ! i) = Inr (snaps ! i)" if "i < length events" for i
    using traverse_nth [OF assms, of i] that by (simp add: nth_enumerate_eq)
  show *: "unat (ev_index (events ! i)) = unat start_index + i" if "i < length events" for i
    using nth [OF that] by (auto simp: check_event_def result_simps checked_simps)
  show "verify_poi_event lib (events ! i) l = Inr ()" if "i < length events"
    using nth [OF that] by (auto simp: check_event_def result_simps)
  show **: "snaps ! i = \<lparr>st_event_index = ev_index (events ! i),
      st_blinded_commitment = ev_blinded_commitment (events ! i),
      st_signature = event_signature (hex_decode lib) (events ! i), st_event_type = ev_type (events ! i)\<rparr>"
    if "i < length events" for i
    using nth [OF that]
    by (auto simp: check_event_def result_simps decode_event_signature_def event_signature_def)
  show "Suc (unat (st_event_index (last snaps))) = unat start_index + length events" if "events \<noteq> []"
  proof -
    from that obtain n where n: "length events = Suc n" by (cases events) auto
    then show ?thesis using len * [of n] ** [of n] by (cases "snaps = []") (auto simp: last_conv_nth)
  qed
qed

text \<open>What storing a checked page writes.\<close>

lemma insert_events_lookup:
  assumes ins: "insert_events h l c events db = Inr db'"
    and idx: "\<forall>i < length events. unat (ev_index (events ! i)) = start + i"
  shows "map_of (poi_events db') (l', c', j) =
    (if l' = l \<and> c' = int (unat c) \<and> int start \<le> j \<and> j < int (start + length events)
     then Some (event_row h (events ! (nat j - start))) else map_of (poi_events db) (l', c', j))"
    and "keyed (poi_events db) \<Longrightarrow> keyed (poi_events db')"
    and "chain_tips db' = chain_tips db" and "blocked_shields db' = blocked_shields db"
    and "poi_dataset_identity db' = poi_dataset_identity db"
proof -
  define C where "C = int (unat c)"
  from ins obtain t where
    fold: "try_fold (insert_event h l c C) (poi_events db) events = Inr t"
    and db': "db' = db\<lparr>poi_events := t\<rparr>"
    by (auto simp: insert_events_def result_simps C_def)
  show "keyed (poi_events db) \<Longrightarrow> keyed (poi_events db')"
    using event_writer.steps_keyed [OF fold] by (simp add: db')
  show "chain_tips db' = chain_tips db" "blocked_shields db' = blocked_shields db"
    "poi_dataset_identity db' = poi_dataset_identity db"
    by (simp_all add: db')
  have key: "event_key l C (events ! i) = (l, C, int (start + i))" if "i < length events" for i
    unfolding event_key_def idx [rule_format, OF that] ..
  have "distinct (map (event_key l C) events)"
    by (auto simp: distinct_conv_nth key)
  note unique = event_writer.steps_unique [OF fold this]
  show "map_of (poi_events db') (l', c', j) =
    (if l' = l \<and> c' = int (unat c) \<and> int start \<le> j \<and> j < int (start + length events)
     then Some (event_row h (events ! (nat j - start))) else map_of (poi_events db) (l', c', j))"
    unfolding C_def [symmetric]
  proof (cases "l' = l \<and> c' = C \<and> int start \<le> j \<and> j < int (start + length events)")
    case True
    then have i: "nat j - start < length events" "int (start + (nat j - start)) = j" by linarith+
    with unique [OF nth_mem [OF i(1)]] key [OF i(1)] True show "map_of (poi_events db') (l', c', j) =
      (if l' = l \<and> c' = C \<and> int start \<le> j \<and> j < int (start + length events)
       then Some (event_row h (events ! (nat j - start))) else map_of (poi_events db) (l', c', j))"
      by (simp add: db')
  next
    case False
    then have "(l', c', j) \<notin> event_key l C ` set events"
      by (auto simp: in_set_conv_nth key)
    from event_writer.steps_frame [OF fold this] False show "map_of (poi_events db') (l', c', j) =
      (if l' = l \<and> c' = C \<and> int start \<le> j \<and> j < int (start + length events)
       then Some (event_row h (events ! (nat j - start))) else map_of (poi_events db) (l', c', j))"
      unfolding if_not_P [OF False] db' by simp
  qed
qed

text \<open>Where the next page starts, and that it joins the stored events.\<close>

lemma first_incomplete_iff:
  assumes "first_incomplete_event_index l c db = Inr (Some i)" and "keyed (poi_events db)"
  shows "\<exists>r. map_of (poi_events db) (l, int (unat c), int (unat i)) = Some r \<and> \<not> pe_event_data_complete r"
proof -
  let ?sel = "select_where (\<lambda>(l', c', _) r. l' = l \<and> c' = int (unat c) \<and> \<not> pe_event_data_complete r) (poi_events db)"
  from assms(1) obtain x xs where x: "sort (map (\<lambda>((_, _, i), _). i) ?sel) = x # xs" "x = int (unat i)"
    by (auto simp: first_incomplete_event_index_def result_simps split: list.splits)
  then have "int (unat i) \<in> set (sort (map (\<lambda>((_, _, i), _). i) ?sel))" by simp
  then show ?thesis
    unfolding set_sort using keyed_lookup [OF assms(2)] by auto
qed

lemma no_incomplete:
  assumes "first_incomplete_event_index l c db = Inr None" and "keyed (poi_events db)"
    and "map_of (poi_events db) (l, int (unat c), i) = Some r"
  shows "pe_event_data_complete r"
proof -
  let ?sel = "select_where (\<lambda>(l', c', _) r. l' = l \<and> c' = int (unat c) \<and> \<not> pe_event_data_complete r) (poi_events db)"
  have "sort (map (\<lambda>((_, _, i), _). i) ?sel) = []"
    using assms(1) by (auto simp: first_incomplete_event_index_def result_simps split: list.splits)
  then have "set (sort (map (\<lambda>((_, _, i), _). i) ?sel)) = {}" by simp
  then have "set ?sel = {}" by simp
  then show ?thesis using map_of_SomeD [OF assms(3)] by (auto simp: select_where_def)
qed

definition joins :: "poi_db \<Rightarrow> bytes32 \<Rightarrow> i64 \<Rightarrow> nat \<Rightarrow> bool" where
  "joins db l c start \<longleftrightarrow> (\<forall>j. 0 \<le> j \<and> j < int start \<longrightarrow> stored_at db l c j)"

lemma stored_below: "gap_free db \<Longrightarrow> stored_at db l c i \<Longrightarrow> 0 \<le> j \<Longrightarrow> j \<le> i \<Longrightarrow> stored_at db l c j"
  unfolding gap_free_def by blast

lemma tip_stored:
  assumes "corpus_ok lib db" and "last_event_index l c url db = Inr (Some i)"
  shows "stored_at db l (int (unat c)) (int (unat i))"
proof -
  from assms(2) obtain tip where "map_of (chain_tips db) (l, int (unat c), url) = Some tip"
    "ct_last_event_index tip = int (unat i)"
    by (auto simp: last_event_index_def result_simps split: option.splits)
  with assms(1) show ?thesis unfolding corpus_ok_def tips_stored_def by metis
qed

lemma next_start_joins:
  assumes "next_start wk db = Inr start" and "corpus_ok lib db"
  shows "joins db (sk_list_key wk) (int (unat (sk_chain_id wk))) (unat start)"
proof -
  from assms(1) obtain inc where
    inc: "first_incomplete_event_index (sk_list_key wk) (sk_chain_id wk) db = Inr inc"
    by (auto simp: next_start_def result_simps)
  show ?thesis
  proof (cases inc)
    case (Some i)
    with assms(1) inc have "start = i" by (simp add: next_start_def)
    have "stored_at db (sk_list_key wk) (int (unat (sk_chain_id wk))) (int (unat i))"
      using first_incomplete_iff [OF inc [unfolded Some]] assms(2) by (auto simp: corpus_ok_def stored_at_def)
    with \<open>start = i\<close> assms(2) show ?thesis
      by (auto simp: joins_def corpus_ok_def intro: stored_below)
  next
    case None
    with assms(1) inc obtain tip where
      tip: "last_event_index (sk_list_key wk) (sk_chain_id wk) (sk_upstream_url wk) db = Inr tip"
      by (auto simp: next_start_def result_simps)
    show ?thesis
    proof (cases tip)
      case None
      with assms(1) inc \<open>inc = None\<close> tip show ?thesis by (auto simp: next_start_def joins_def)
    next
      case (Some last_index)
      then have "unat start = unat last_index + 1"
        using assms(1) inc \<open>inc = None\<close> tip by (auto simp: next_start_def result_simps checked_simps)
      moreover have "stored_at db (sk_list_key wk) (int (unat (sk_chain_id wk))) (int (unat last_index))"
        using tip_stored [OF assms(2)] tip Some by blast
      ultimately show ?thesis
        using assms(2) by (auto simp: joins_def corpus_ok_def intro: stored_below)
    qed
  qed
qed

text \<open>Storing a checked page that joins the corpus keeps it well-formed.\<close>

lemma insert_page_ok:
  assumes ok: "corpus_ok lib db" and ins: "insert_events (hex_decode lib) l c events db = Inr db'"
    and checked: "traverse (check_event lib l start) (List.enumerate 0 events) = Inr snaps"
    and joins: "joins db l (int (unat c)) (unat start)"
  shows "corpus_ok lib db'"
    and "stored_at db' l' c' j \<longleftrightarrow> stored_at db l' c' j \<or>
      l' = l \<and> c' = int (unat c) \<and> int (unat start) \<le> j \<and> j < int (unat start + length events)"
proof -
  have "\<forall>i < length events. unat (ev_index (events ! i)) = unat start + i"
    using checked_events(2) [OF checked] by blast
  note look = insert_events_lookup [OF ins this]
  show st: "stored_at db' l' c' j \<longleftrightarrow> stored_at db l' c' j \<or>
      l' = l \<and> c' = int (unat c) \<and> int (unat start) \<le> j \<and> j < int (unat start + length events)" for l' c' j
    unfolding stored_at_def look(1) by auto
  have "gap_free db'"
    unfolding gap_free_def st
  proof (intro allI impI, elim disjE)
    fix l' c' i assume "stored_at db l' c' i"
    then show "0 \<le> i \<and> (\<forall>j. 0 \<le> j \<and> j \<le> i \<longrightarrow> stored_at db l' c' j \<or>
      l' = l \<and> c' = int (unat c) \<and> int (unat start) \<le> j \<and> j < int (unat start + length events))"
      using ok unfolding corpus_ok_def gap_free_def by blast
  next
    fix l' c' i
    assume new: "l' = l \<and> c' = int (unat c) \<and> int (unat start) \<le> i \<and> i < int (unat start + length events)"
    then show "0 \<le> i \<and> (\<forall>j. 0 \<le> j \<and> j \<le> i \<longrightarrow> stored_at db l' c' j \<or>
      l' = l \<and> c' = int (unat c) \<and> int (unat start) \<le> j \<and> j < int (unat start + length events))"
      using joins unfolding joins_def by (meson not_le of_nat_0_le_iff order_trans le_less_trans)
  qed
  moreover have "complete_verified lib db'"
    unfolding complete_verified_def
  proof (intro allI impI)
    fix l' c' i r
    assume r: "map_of (poi_events db') (l', c', i) = Some r \<and> pe_event_data_complete r"
    show "\<exists>event. verify_poi_event lib event l' = Inr () \<and> int (unat (ev_index event)) = i
        \<and> r = event_row (hex_decode lib) event"
    proof (cases "l' = l \<and> c' = int (unat c) \<and> int (unat start) \<le> i \<and> i < int (unat start + length events)")
      case True
      then have n: "nat i - unat start < length events" "int (unat start + (nat i - unat start)) = i" by linarith+
      have "r = event_row (hex_decode lib) (events ! (nat i - unat start))"
        using r unfolding look(1) if_P [OF True] by simp
      with checked_events(2,3) [OF checked n(1)] n(2) True show ?thesis by metis
    next
      case False
      have "map_of (poi_events db) (l', c', i) = Some r \<and> pe_event_data_complete r"
        using r unfolding look(1) if_not_P [OF False] .
      with ok show ?thesis unfolding corpus_ok_def complete_verified_def by blast
    qed
  qed
  moreover have "tips_stored db'"
    using ok unfolding tips_stored_def st look(3) corpus_ok_def by blast
  ultimately show "corpus_ok lib db'"
    using ok look(2) by (simp add: corpus_ok_def)
qed

lemma advance_tip_ok:
  assumes "corpus_ok lib db" and "advance_chain_tip h l c url i root db = Inr db'"
    and "stored_at db l (int (unat c)) (int (unat i))"
  shows "corpus_ok lib db'"
proof -
  obtain row where row: "db' = db\<lparr>chain_tips := fst (insert_on_conflict (l, int (unat c), url) row
      (\<lambda>old. if ct_last_event_index old \<le> int (unat i) then Some row else None) (chain_tips db))\<rparr>"
    "ct_last_event_index row = int (unat i)"
    "\<forall>old. map_of (chain_tips db) (l, int (unat c), url) = Some old \<longrightarrow> ct_last_event_index old \<le> int (unat i)"
    using advance_tip_is_insert [OF assms(2)] by blast
  have st: "stored_at db' = stored_at db" using row(1) by (simp add: stored_at_def fun_eq_iff)
  have "tips_stored db'"
    unfolding tips_stored_def st
  proof (intro allI impI)
    fix l' c' url' tip
    assume tip: "map_of (chain_tips db') (l', c', url') = Some tip"
    show "stored_at db l' c' (ct_last_event_index tip)"
    proof (cases "(l', c', url') = (l, int (unat c), url)")
      case True
      then have "tip = row"
        using tip row(3) by (auto simp: row(1) insert_lookup split: option.splits if_splits)
      with True row(2) assms(3) show ?thesis by simp
    next
      case False
      then have "map_of (chain_tips db) (l', c', url') = Some tip"
        using tip by (auto simp: row(1) insert_lookup split: if_splits)
      with assms(1) show ?thesis unfolding corpus_ok_def tips_stored_def by blast
    qed
  qed
  moreover have ev: "poi_events db' = poi_events db" using row(1) by simp
  moreover have "gap_free db' = gap_free db" "complete_verified lib db' = complete_verified lib db"
    by (simp_all only: gap_free_def complete_verified_def st ev)
  ultimately show ?thesis
    using assms(1) by (simp add: corpus_ok_def)
qed

lemma page_effect_ok:
  assumes "page_effect lib wk db r db'" and ok: "corpus_ok lib db"
  shows "corpus_ok lib db'"
proof (cases r)
  case (PageIngested n last_index)
  with assms(1) obtain start events snaps root where
    page: "events \<noteq> []" "next_start wk db = Inr start"
      "traverse (check_event lib (sk_list_key wk) start) (List.enumerate 0 events) = Inr snaps"
      "last_index = st_event_index (last snaps)" "ingest_page lib wk events last_index root db = Inr db'"
    by (auto simp: page_effect_def)
  from page(5) obtain db1 tip where
    ins: "insert_events (hex_decode lib) (sk_list_key wk) (sk_chain_id wk) events db = Inr db1"
    and tip: "db' = db1 \<or> advance_chain_tip (hex_decode lib) (sk_list_key wk) (sk_chain_id wk)
      (sk_upstream_url wk) last_index tip db1 = Inr db'"
    by (auto simp: ingest_page_def result_simps split: if_splits)
  note new = insert_page_ok [OF ok ins page(3) next_start_joins [OF page(2) ok]]
  have "Suc (unat last_index) = unat start + length events"
    using checked_events(5) [OF page(3,1)] page(4) by simp
  moreover have "0 < length events" using page(1) by simp
  ultimately have "unat start \<le> unat last_index" "unat last_index < unat start + length events" by linarith+
  then have "stored_at db1 (sk_list_key wk) (int (unat (sk_chain_id wk))) (int (unat last_index))"
    unfolding new(2) by (intro disjI2 conjI refl) (simp_all only: of_nat_le_iff of_nat_less_iff)
  from tip show ?thesis
    by (elim disjE) (simp add: new(1), erule advance_tip_ok [OF new(1)], fact)
qed (use assms in \<open>simp add: page_effect_def\<close>)

lemma page_effect_grows:
  assumes "page_effect lib wk db r db'"
  shows "poi_grow db db'"
proof (cases r)
  case (PageIngested n last_index)
  with assms obtain events root where "ingest_page lib wk events last_index root db = Inr db'"
    by (auto simp: page_effect_def)
  then obtain db1 tip where
    ins: "poi_op_result (hex_decode lib) (InsertEvents (sk_list_key wk) (sk_chain_id wk) events) db = Inr db1"
    and tip: "db' = db1 \<or> poi_op_result (hex_decode lib) (AdvanceChainTip (sk_list_key wk) (sk_chain_id wk)
      (sk_upstream_url wk) last_index tip) db1 = Inr db'"
    by (auto simp: ingest_page_def result_simps split: if_splits)
  from tip have "poi_grow db1 db'"
    by (elim disjE) (simp, erule poi_op_grows)
  with poi_op_grows [OF ins] show ?thesis by (rule poi_grow_trans)
qed (use assms in \<open>simp add: page_effect_def\<close>)

lemma sync_next_page_keeps:
  fixes lib :: "('u, 'c) scrape_lib"
  shows "keeps (\<lambda>w. corpus_ok lib (sc_db w)) (sync_next_page lib wk n)"
  unfolding keeps_def triple_def
proof (intro allI impI)
  fix w :: "('u, 'c) scrape_world"
  assume ok: "corpus_ok lib (sc_db w)"
  show "case sync_next_page lib wk n w of (Inl _, w') \<Rightarrow> corpus_ok lib (sc_db w')
      | (Inr x, w') \<Rightarrow> corpus_ok lib (sc_db w')"
    using triple_use [OF sync_next_page_effect, of w "sc_db w" lib wk n] ok page_effect_ok [OF _ ok]
    by (auto split: prod.splits sum.splits)
qed

text \<open>Pages of any workers in any order, each with any page size and whatever its worker has cached.\<close>

definition run_page ::
  "('u, 'c) scrape_lib \<Rightarrow> scrape_worker \<times> nat \<times> 'c option \<Rightarrow> ('u, 'c) scrape_world \<Rightarrow> ('u, 'c) scrape_world" where
  "run_page lib = (\<lambda>(wk, page_size, cache) w. snd (sync_next_page lib wk page_size (w\<lparr>sc_cache := cache\<rparr>)))"

definition empty_poi_db :: poi_db where
  "empty_poi_db = \<lparr>poi_events = [], blocked_shields = [], chain_tips = [], poi_dataset_identity = None\<rparr>"

lemma empty_corpus_ok [simp]: "corpus_ok lib empty_poi_db"
  by (simp add: corpus_ok_def empty_poi_db_def gap_free_def tips_stored_def complete_verified_def stored_at_def)

lemma run_page_ok: "corpus_ok lib (sc_db w) \<Longrightarrow> corpus_ok lib (sc_db (run_page lib x w))"
  using keeps_use [OF sync_next_page_keeps, of lib "w\<lparr>sc_cache := c\<rparr>" for c]
  by (cases x) (simp add: run_page_def)

text \<open>C26: Whatever the upstream answers to however many pages of however many workers in whatever order, the
  store that they build from nothing is a well-formed corpus: for every list and chain the stored events
  are gap-free from index zero, every tip is the index of a stored event, and every complete event carries
  a signature that was verified against the key of its list.\<close>

theorem scraped_corpus_ok:
  "corpus_ok lib (sc_db (fold (run_page lib) pages (w\<lparr>sc_db := empty_poi_db\<rparr>)))"
proof -
  have "corpus_ok lib (sc_db v) \<Longrightarrow> corpus_ok lib (sc_db (fold (run_page lib) pages v))" for v
    by (induction pages arbitrary: v) (simp_all add: run_page_ok)
  then show ?thesis by simp
qed

section \<open>Retrying and catching up\<close>

lemma shutdown_requested_db [simp]: "sc_db (snd (shutdown_requested w)) = sc_db w"
  by (simp add: shutdown_requested_def split: list.splits)

lemma shutdown_requested_world: "shutdown_requested w = (b, w') \<Longrightarrow> sc_db w' = sc_db w"
  using shutdown_requested_db [of w] by simp

lemma report_db [simp]: "sc_db (report r w) = sc_db w"
  by (simp add: report_def)

text \<open>What a page guarantees about the store holds for the whole retry loop around it.\<close>

definition page_contract ::
  "(poi_db \<Rightarrow> 'a \<Rightarrow> poi_db \<Rightarrow> bool) \<Rightarrow> (nat \<Rightarrow> ('u, 'c, 'a) scrape) \<Rightarrow> bool" where
  "page_contract Q page \<longleftrightarrow>
     (\<forall>db n. triple (\<lambda>w. sc_db w = db) (page n) (\<lambda>r w. Q db r (sc_db w)) (\<lambda>w. sc_db w = db))"

lemma page_contract_use:
  assumes "page_contract Q page" and "page n w = (r, w')"
  shows "case r of Inl _ \<Rightarrow> sc_db w' = sc_db w | Inr x \<Rightarrow> Q (sc_db w) x (sc_db w')"
  using triple_use [OF assms(1) [unfolded page_contract_def, rule_format], of w "sc_db w" n] assms(2)
  by (auto split: sum.splits)

lemma attempts_loop_effect:
  assumes "page_contract Q page" and "attempts_loop wk page done a w = (res, a', w')"
  shows "case res of Inr (AttemptsDone (Some r)) \<Rightarrow> Q (sc_db w) r (sc_db w') | _ \<Rightarrow> sc_db w' = sc_db w"
  using assms
proof (induction wk page "done" a w rule: attempts_loop.induct)
  case (1 wk page "done" a w)
  obtain r w1 where rw: "page (current_size a) w = (r, w1)" by fastforce
  note use = page_contract_use [OF 1(2) rw]
  show ?case
  proof (cases r)
    case (Inr x)
    with 1(3) rw use show ?thesis by (subst (asm) attempts_loop.simps) auto
  next
    case (Inl e)
    with use have db: "sc_db w1 = sc_db w" by simp
    show ?thesis
    proof (cases "is_retryable e \<and> done + 1 < budget (sk_retry_policy wk)")
      case True
      define w2 where "w2 = report (PageFailure (sk_list_key wk) (sk_chain_id wk) (current_size a) (done + 1)
        (Some (backoff_delay (sk_retry_policy wk) done)) e) w1"
      obtain b w3 where b: "shutdown_requested w2 = (b, w3)" by fastforce
      have db3: "sc_db w3 = sc_db w" using shutdown_requested_world [OF b] db by (simp add: w2_def)
      have eq: "attempts_loop wk page done a w =
          (if b then (Inr (AttemptsDone None), a, w3) else attempts_loop wk page (done + 1) a w3)"
        using rw Inl True b by (subst attempts_loop.simps) (auto simp: Let_def w2_def split: bool.splits)
      show ?thesis
      proof (cases b)
        case False
        have "case res of Inr (AttemptsDone (Some r)) \<Rightarrow> Q (sc_db w3) r (sc_db w') | _ \<Rightarrow> sc_db w' = sc_db w3"
          by (rule 1(1) [OF refl rw [symmetric] Inl True refl refl])
             (use b False 1(2,3) eq in \<open>simp_all add: w2_def\<close>)
        then show ?thesis unfolding db3 .
      qed (use 1(3) eq db3 in auto)
    next
      case False
      then show ?thesis
        using 1(3) rw Inl db by (subst (asm) attempts_loop.simps) (auto simp: Let_def split: if_splits)
    qed
  qed
qed

lemma page_with_retry_effect:
  assumes "page_contract Q page" and "page_with_retry wk page a w = (res, a', w')"
  shows "case res of Inr (Some r) \<Rightarrow> Q (sc_db w) r (sc_db w') | _ \<Rightarrow> sc_db w' = sc_db w"
  using assms
proof (induction wk page a w rule: page_with_retry.induct)
  case (1 wk page a w)
  obtain b w1 where b: "shutdown_requested w = (b, w1)" by fastforce
  obtain r a1 w2 where r: "attempts_loop wk page 0 a w1 = (r, a1, w2)" by (metis prod.exhaust)
  note db = shutdown_requested_world [OF b]
  note eff = attempts_loop_effect [OF 1(2) r]
  show ?case
  proof (cases "\<not> b \<and> r = Inr AttemptsShrunk")
    case True
    then have "page_with_retry wk page a w = page_with_retry wk page a1 w2"
      using b r by (subst page_with_retry.simps) simp
    moreover have db2: "sc_db w2 = sc_db w" using eff True db by simp
    moreover have "case res of Inr (Some r) \<Rightarrow> Q (sc_db w2) r (sc_db w') | _ \<Rightarrow> sc_db w' = sc_db w2"
      by (rule 1(1) [OF b [symmetric] _ r [symmetric]]) (use True 1(2,3) calculation in auto)
    then show ?thesis unfolding db2 .
  next
    case False
    then show ?thesis
      using 1(3) b r db eff
      by (subst (asm) page_with_retry.simps)
         (auto split: bool.splits sum.splits attempts_outcome.splits option.splits)
  qed
qed

lemma sync_contract: "page_contract (page_effect lib wk) (sync_next_page lib wk)"
  by (simp add: page_contract_def sync_next_page_effect)

lemma catch_up_step_effect:
  assumes "catch_up_step lib wk a w = (finished, a', w')"
  shows "case finished of
      None \<Rightarrow> \<exists>n i. page_effect lib wk (sc_db w) (PageIngested n i) (sc_db w')
    | Some r \<Rightarrow> sc_db w' = sc_db w \<or> (\<exists>n i. page_effect lib wk (sc_db w) (PageIngested n i) (sc_db w'))"
proof -
  obtain b w1 where b: "shutdown_requested w = (b, w1)" by fastforce
  obtain r a1 w2 where r: "sync_next_page_with_retry lib wk a w1 = (r, a1, w2)" by (metis prod.exhaust)
  note db = shutdown_requested_world [OF b]
  note eff = page_with_retry_effect [OF sync_contract r [unfolded sync_next_page_with_retry_def]]
  show ?thesis
    using assms b r eff db
    by (auto simp: catch_up_step_def Let_def page_effect_def [of _ _ _ PageCaughtUp]
        dest!: shutdown_requested_world
        split: bool.splits sum.splits option.splits sync_page_outcome.splits prod.splits; blast)
qed

text \<open>
  The catch-up loop returns whatever the upstream does: a page either completes an incomplete event or
  moves the tip up, and indexes are bounded by the width of the column.
\<close>

definition incomplete_at :: "poi_db \<Rightarrow> bytes32 \<Rightarrow> i64 \<Rightarrow> i64 set" where
  "incomplete_at db l c = {i. \<exists>r. map_of (poi_events db) (l, c, i) = Some r \<and> \<not> pe_event_data_complete r}"

definition tip_height :: "poi_db \<Rightarrow> bytes32 \<Rightarrow> i64 \<Rightarrow> string \<Rightarrow> nat" where
  "tip_height db l c url =
     (case map_of (chain_tips db) (l, c, url) of None \<Rightarrow> 0 | Some tip \<Rightarrow> nat (ct_last_event_index tip) + 1)"

definition work_left :: "scrape_worker \<Rightarrow> poi_db \<Rightarrow> nat" where
  "work_left wk db =
     card (incomplete_at db (sk_list_key wk) (int (unat (sk_chain_id wk))))
     + (2 ^ 63 - tip_height db (sk_list_key wk) (int (unat (sk_chain_id wk))) (sk_upstream_url wk))"

lemma finite_incomplete: "finite (incomplete_at db l c)"
proof (rule finite_subset)
  show "incomplete_at db l c \<subseteq> (\<lambda>(_, _, i). i) ` dom (map_of (poi_events db))"
    by (force simp: incomplete_at_def)
qed (simp add: finite_dom_map_of)

lemma advance_tip_height:
  assumes "advance_chain_tip h l c url i root db = Inr db'"
  shows "tip_height db' l (int (unat c)) url = unat i + 1" and "unat i < 2 ^ 63"
    and "poi_events db' = poi_events db"
proof -
  obtain row where row: "db' = db\<lparr>chain_tips := fst (insert_on_conflict (l, int (unat c), url) row
      (\<lambda>old. if ct_last_event_index old \<le> int (unat i) then Some row else None) (chain_tips db))\<rparr>"
    "ct_last_event_index row = int (unat i)" "unat i < 2 ^ 63"
    "\<forall>old. map_of (chain_tips db) (l, int (unat c), url) = Some old \<longrightarrow> ct_last_event_index old \<le> int (unat i)"
    using advance_tip_is_insert [OF assms] by blast
  have "map_of (chain_tips db') (l, int (unat c), url) = Some row"
    using row(4) by (auto simp: row(1) insert_lookup split: option.splits)
  then show "tip_height db' l (int (unat c)) url = unat i + 1"
    unfolding tip_height_def using row(2) by (simp add: nat_int flip: row(2))
  show "unat i < 2 ^ 63" by (rule row(3))
  show "poi_events db' = poi_events db" by (simp add: row(1))
qed

lemma last_index_height:
  "last_event_index l c url db = Inr tip \<Longrightarrow>
   tip_height db l (int (unat c)) url = (case tip of None \<Rightarrow> 0 | Some t \<Rightarrow> unat t + 1)"
  by (auto simp: last_event_index_def tip_height_def result_simps split: option.splits)

lemma page_makes_progress:
  assumes eff: "page_effect lib wk db (PageIngested n i) db'" and keyed: "keyed (poi_events db)"
  shows "work_left wk db' < work_left wk db"
proof -
  let ?l = "sk_list_key wk" and ?c = "sk_chain_id wk" and ?url = "sk_upstream_url wk"
  define C where "C = int (unat ?c)"
  from eff obtain start events snaps root where
    page: "events \<noteq> []" "next_start wk db = Inr start"
      "traverse (check_event lib ?l start) (List.enumerate 0 events) = Inr snaps"
      "i = st_event_index (last snaps)" "ingest_page lib wk events i root db = Inr db'"
    by (auto simp: page_effect_def)
  have len: "Suc (unat i) = unat start + length events" "0 < length events"
    using checked_events(5) [OF page(3,1)] page(1,4) by simp_all
  from page(5) obtain db1 tip where
    ins: "insert_events (hex_decode lib) ?l ?c events db = Inr db1"
    and tip: "last_event_index ?l ?c ?url db1 = Inr tip"
    and db': "if (case tip of None \<Rightarrow> True | Some t \<Rightarrow> t \<le> i)
       then advance_chain_tip (hex_decode lib) ?l ?c ?url i (Some (hex_encode32_prefixed lib root)) db1 = Inr db'
       else db' = db1"
    by (auto simp: ingest_page_def result_simps split: if_splits)
  have "\<forall>k < length events. unat (ev_index (events ! k)) = unat start + k"
    using checked_events(2) [OF page(3)] by blast
  note look = insert_events_lookup [OF ins this]
  have inc1: "incomplete_at db1 ?l C = incomplete_at db ?l C - {int (unat start)..<int (unat start + length events)}"
    unfolding incomplete_at_def look(1) C_def by (auto simp: event_row_def complete_row_def)
  have ev: "poi_events db' = poi_events db1"
    using db' advance_tip_height(3) by (auto split: if_splits)
  then have inc: "incomplete_at db' ?l C = incomplete_at db1 ?l C" by (simp add: incomplete_at_def)
  have h1: "tip_height db1 ?l C ?url = tip_height db ?l C ?url" by (simp add: tip_height_def look(3))
  have h: "tip_height db ?l C ?url = (case tip of None \<Rightarrow> 0 | Some t \<Rightarrow> unat t + 1)"
    using last_index_height [OF tip, folded C_def] h1 by simp
  show ?thesis
  proof (cases "first_incomplete_event_index ?l ?c db = Inr None")
    case False
    with page(2) have "first_incomplete_event_index ?l ?c db = Inr (Some start)"
      by (auto simp: next_start_def result_simps split: option.splits)
    from first_incomplete_iff [OF this keyed] have "int (unat start) \<in> incomplete_at db ?l C"
      unfolding incomplete_at_def C_def by blast
    moreover have "int (unat start) \<notin> incomplete_at db' ?l C" using len(2) unfolding inc inc1 by simp
    moreover have "incomplete_at db' ?l C \<subseteq> incomplete_at db ?l C" unfolding inc inc1 by blast
    ultimately have "incomplete_at db' ?l C \<subset> incomplete_at db ?l C" by blast
    then have "card (incomplete_at db' ?l C) < card (incomplete_at db ?l C)"
      by (rule psubset_card_mono [OF finite_incomplete])
    moreover have "tip_height db ?l C ?url \<le> tip_height db' ?l C ?url"
      using db' h h1 advance_tip_height(1) [of "hex_decode lib" ?l ?c ?url i _ db1 db']
      by (auto simp: C_def word_le_nat_alt split: if_splits option.splits)
    ultimately show ?thesis unfolding work_left_def C_def [symmetric] by linarith
  next
    case True
    then have none: "incomplete_at db ?l C = {}"
      using no_incomplete [OF True keyed] by (auto simp: incomplete_at_def C_def)
    have tip0: "last_event_index ?l ?c ?url db = Inr tip"
      using tip by (simp add: last_event_index_def look(3))
    have start: "unat start = (case tip of None \<Rightarrow> 0 | Some t \<Rightarrow> unat t + 1)"
      using page(2) True tip0
      by (auto simp: next_start_def result_simps checked_simps split: option.splits)
    have "case tip of None \<Rightarrow> True | Some t \<Rightarrow> t \<le> i"
      using len start by (auto simp: word_le_nat_alt split: option.splits)
    with db' have adv: "advance_chain_tip (hex_decode lib) ?l ?c ?url i (Some (hex_encode32_prefixed lib root)) db1 = Inr db'"
      by simp
    have "tip_height db ?l C ?url < tip_height db' ?l C ?url" "tip_height db' ?l C ?url \<le> 2 ^ 63"
      using advance_tip_height(1,2) [OF adv] h start len by (auto simp: C_def split: option.splits)
    then show ?thesis
      unfolding work_left_def C_def [symmetric] inc inc1 none by simp
  qed
qed

lemma catch_up_loop_returns:
  assumes "corpus_ok lib (sc_db w)"
  shows "\<exists>r a' w'. catch_up_loop lib wk a w = Some (r, a', w') \<and> corpus_ok lib (sc_db w')
    \<and> poi_grow (sc_db w) (sc_db w')"
  using assms
proof (induction "work_left wk (sc_db w)" arbitrary: a w rule: less_induct)
  case less
  obtain finished a1 w1 where step: "catch_up_step lib wk a w = (finished, a1, w1)" by (metis prod.exhaust)
  note eff = catch_up_step_effect [OF step]
  have ok: "corpus_ok lib (sc_db w1)" "poi_grow (sc_db w) (sc_db w1)"
    using eff less.prems page_effect_ok page_effect_grows by (cases finished; fastforce)+
  show ?case
  proof (cases finished)
    case (Some r)
    with step ok show ?thesis by (subst catch_up_loop.simps) simp
  next
    case None
    with eff less.prems have "work_left wk (sc_db w1) < work_left wk (sc_db w)"
      using page_makes_progress by (auto simp: corpus_ok_def)
    from less.hyps [OF this ok(1)] obtain r a' w' where
      "catch_up_loop lib wk a1 w1 = Some (r, a', w')" "corpus_ok lib (sc_db w')"
      "poi_grow (sc_db w1) (sc_db w')" by blast
    with step None poi_grow_trans [OF ok(2)] show ?thesis by (subst catch_up_loop.simps) simp
  qed
qed

text \<open>C27: Catching up always comes to a result, whatever the upstream answers, however often it fails and
  however it is shut down; the store that it leaves is again a well-formed corpus that extends the one it
  found.\<close>

theorem catching_up_returns:
  assumes "corpus_ok lib (sc_db w)"
  shows "\<exists>r a' w'. run_until_caught_up_or_shutdown lib wk a w = Some (r, a', w')
    \<and> corpus_ok lib (sc_db w') \<and> poi_grow (sc_db w) (sc_db w')"
  using catch_up_loop_returns [OF assms] assms by (simp add: run_until_caught_up_or_shutdown_def)

text \<open>An upstream with a given corpus whose cache is a height, to instantiate what is proved.\<close>

definition example_lib :: "signed_poi_event list \<Rightarrow> (unit, nat) scrape_lib" where
  "example_lib corpus =
     \<lparr>rpc_poi_events = (\<lambda>u _ _ _ _ s e. (Inr (take (Suc (unat e) - unat s) (drop (unat s) corpus)), u)),
      rpc_blocked_shields = (\<lambda>u _ _ _ _ _ _. (Inr [], u)),
      poi_cache_new = (\<lambda>_ _ _ _. 0),
      apply_verified_artifact_events = (\<lambda>c snaps.
        Inr (if snaps = [] then c else max c (Suc (unat (st_event_index (last snaps)))))),
      validate_roots = (\<lambda>_ u. (Inr True, u)),
      current_roots = (\<lambda>c. if c = 0 then [] else [(0, of_nat c)]),
      tree_of_event = (\<lambda>_. 0),
      verify_poi_event = (\<lambda>_ _. Inr ()),
      verify_blocked_shield = (\<lambda>_ _. Inr ()),
      hex_decode = (\<lambda>s. Some (map of_char s)),
      hex_encode32_prefixed = (\<lambda>r. ''0x'' @ map (\<lambda>b. char_of (unat b)) (be_bytes r)),
      hex_encode64 = (\<lambda>r. map (\<lambda>b. char_of (unat b)) (be_bytes r))\<rparr>"

definition example_worker :: scrape_worker where
  "example_worker =
     \<lparr>sk_list_key = 7, sk_chain_id = 1, sk_upstream_url = ''upstream'',
      sk_retry_policy = \<lparr>budget = 3, base_delay = 1, max_delay = 4\<rparr>,
      sk_polite_interval = 1, sk_txid_version = ''V2''\<rparr>"

definition example_world :: "poi_db \<Rightarrow> (unit, nat) scrape_world" where
  "example_world db = \<lparr>sc_db = db, sc_upstream = (), sc_cache = None, sc_shutdown = [], sc_reports = []\<rparr>"

theorem catching_up_returns_witness:
  "corpus_ok (example_lib []) (sc_db (example_world empty_poi_db))
   \<and> (\<exists>r a' w'. run_until_caught_up_or_shutdown (example_lib []) example_worker (page_size_new 10 20 1)
        (example_world empty_poi_db) = Some (r, a', w')
      \<and> corpus_ok (example_lib []) (sc_db w') \<and> poi_grow empty_poi_db (sc_db w'))"
  using catching_up_returns [of "example_lib []" "example_world empty_poi_db" example_worker "page_size_new 10 20 1"]
  by (simp add: example_world_def)

end
