(* ===== verification/Scrape_Complete.thy ===== *)
theory Scrape_Complete
  imports Scrape_Facts
begin

text \<open>
  Catching up with an honest upstream. What is relied on of the other side is written out:
  \<^item> \<open>serves\<close>: a request for the events from \<open>s\<close> to \<open>e\<close> inclusive returns exactly those of the corpus
    that exist;
  \<^item> \<open>well_signed\<close>: the corpus is numbered from zero and its signatures are well-formed and valid;
  \<^item> \<open>cache_tracks\<close>: the POI cache accepts events of the corpus that join what it covers, and then
    validates and has the roots of the trees of the events it covers;
  \<^item> \<open>hex_round_trip\<close>: the text of a root decodes to it.
\<close>

definition serves :: "('u, 'c) scrape_lib \<Rightarrow> scrape_worker \<Rightarrow> signed_poi_event list \<Rightarrow> bool" where
  "serves lib wk corpus \<longleftrightarrow>
     (\<forall>u s e. \<exists>u'. rpc_poi_events lib u (sk_txid_version wk) EVM_CHAIN_TYPE (sk_chain_id wk) (sk_list_key wk) s e
        = (Inr (take (Suc (unat e) - unat s) (drop (unat s) corpus)), u'))"

definition well_signed :: "('u, 'c) scrape_lib \<Rightarrow> scrape_worker \<Rightarrow> signed_poi_event list \<Rightarrow> bool" where
  "well_signed lib wk corpus \<longleftrightarrow>
     length corpus < 2 ^ 63 \<and>
     (\<forall>i < length corpus. unat (ev_index (corpus ! i)) = i
        \<and> verify_poi_event lib (corpus ! i) (sk_list_key wk) = Inr ()
        \<and> (\<exists>sig :: bytes64. decode_fixed_hex (hex_decode lib) ''signature'' (ev_signature (corpus ! i)) = Inr sig))"

definition follows :: "signed_poi_event list \<Rightarrow> nat \<Rightarrow> snapshot_event list \<Rightarrow> bool" where
  "follows corpus s snaps \<longleftrightarrow>
     s + length snaps \<le> length corpus
     \<and> (\<forall>k < length snaps. unat (st_event_index (snaps ! k)) = s + k
          \<and> st_blinded_commitment (snaps ! k) = ev_blinded_commitment (corpus ! (s + k)))"

definition cache_tracks ::
  "('u, 'c) scrape_lib \<Rightarrow> scrape_worker \<Rightarrow> signed_poi_event list \<Rightarrow> ('c \<Rightarrow> nat \<Rightarrow> bool) \<Rightarrow> bool" where
  "cache_tracks lib wk corpus covers \<longleftrightarrow>
     covers (poi_cache_new lib EVM_CHAIN_TYPE (sk_chain_id wk) (sk_txid_version wk) (sk_list_key wk)) 0
     \<and> (\<forall>c n s snaps. covers c n \<and> s \<le> n \<and> follows corpus s snaps \<longrightarrow>
          (\<exists>c'. apply_verified_artifact_events lib c snaps = Inr c' \<and> covers c' (max n (s + length snaps))))
     \<and> (\<forall>c n u. covers c n \<longrightarrow> (\<exists>u'. validate_roots lib c u = (Inr True, u')))
     \<and> (\<forall>c n i. covers c n \<and> unat i < n \<longrightarrow> map_of (current_roots lib c) (tree_of_event lib i) \<noteq> None)"

definition hex_round_trip :: "('u, 'c) scrape_lib \<Rightarrow> bool" where
  "hex_round_trip lib \<longleftrightarrow>
     (\<forall>field (root :: bytes32). decode_fixed_hex (hex_decode lib) field (hex_encode32_prefixed lib root) = Inr root)"

text \<open>The store holds part of the corpus: its rows are rows of the corpus, and incomplete ones lie below
  the worker's tip.\<close>

definition compatible :: "hex_decoder \<Rightarrow> signed_poi_event \<Rightarrow> poi_event_row \<Rightarrow> bool" where
  "compatible h event r \<longleftrightarrow>
     pe_blinded_commitment r = ev_blinded_commitment event
     \<and> (pe_event_data_complete r \<longrightarrow> r = event_row h event)
     \<and> (\<exists>event_type. pe_event_type r = event_type_discriminant event_type)"

definition agrees :: "hex_decoder \<Rightarrow> bytes32 \<Rightarrow> i64 \<Rightarrow> signed_poi_event list \<Rightarrow> event_table \<Rightarrow> bool" where
  "agrees h l c corpus t \<longleftrightarrow>
     (\<forall>i r. map_of t (l, c, i) = Some r \<longrightarrow> nat i < length corpus \<and> compatible h (corpus ! nat i) r)"

abbreviation worker_chain :: "scrape_worker \<Rightarrow> i64" where
  "worker_chain wk \<equiv> int (unat (sk_chain_id wk))"

abbreviation worker_height :: "scrape_worker \<Rightarrow> poi_db \<Rightarrow> nat" where
  "worker_height wk db \<equiv> tip_height db (sk_list_key wk) (worker_chain wk) (sk_upstream_url wk)"

definition partial_copy ::
  "('u, 'c) scrape_lib \<Rightarrow> scrape_worker \<Rightarrow> signed_poi_event list \<Rightarrow> poi_db \<Rightarrow> bool" where
  "partial_copy lib wk corpus db \<longleftrightarrow>
     corpus_ok lib db \<and> agrees (hex_decode lib) (sk_list_key wk) (worker_chain wk) corpus (poi_events db)
     \<and> (\<forall>i \<in> incomplete_at db (sk_list_key wk) (worker_chain wk). i < int (worker_height wk db))"

definition full_copy ::
  "('u, 'c) scrape_lib \<Rightarrow> scrape_worker \<Rightarrow> signed_poi_event list \<Rightarrow> poi_db \<Rightarrow> bool" where
  "full_copy lib wk corpus db \<longleftrightarrow>
     (\<forall>i. map_of (poi_events db) (sk_list_key wk, worker_chain wk, i) =
        (if 0 \<le> i \<and> i < int (length corpus) then Some (event_row (hex_decode lib) (corpus ! nat i)) else None))
     \<and> worker_height wk db = length corpus"

section \<open>Storing events of the corpus does not fail\<close>

lemma insert_event_total:
  assumes "unat (ev_index event) < 2 ^ 63"
    and "decode_fixed_hex h ''signature'' (ev_signature event) = Inr (sig :: bytes64)"
    and "\<And>old. map_of t (event_key l c event) = Some old \<Longrightarrow> compatible h event old"
  shows "\<exists>t'. insert_event h l cid c t event = Inr t'"
proof -
  have row: "event_row h event = complete_row event sig"
    using assms(2) by (simp add: event_row_def event_signature_def)
  have "map_of t (event_key l c event) = Some (complete_row event sig)"
    if "snd (insert_on_conflict (event_key l c event) (complete_row event sig)
      (\<lambda>old. if \<not> pe_event_data_complete old \<and> pe_blinded_commitment old = ev_blinded_commitment event
        then Some (complete_row event sig) else None) t) = 0"
    using that assms(3) unfolding insert_affected
    by (auto simp: compatible_def row split: if_splits)
  then show ?thesis
    using assms(1,2)
    by (auto simp: insert_event_def event_key_def Let_def split_beta u64_to_i64_def i64_of_u64_def)
qed

lemma insert_events_total:
  assumes "unat cid < 2 ^ 63" and "well_signed lib wk corpus" and "l = sk_list_key wk"
    and "set events \<subseteq> set corpus"
    and "agrees (hex_decode lib) l (int (unat cid)) corpus (poi_events db)"
  shows "\<exists>db'. insert_events (hex_decode lib) l cid events db = Inr db'"
proof -
  define C where "C = int (unat cid)"
  have "\<exists>t'. try_fold (insert_event (hex_decode lib) l cid C) t events = Inr t'"
    if "agrees (hex_decode lib) l C corpus t" for t
    using that assms(4)
  proof (induction events arbitrary: t)
    case (Cons e es)
    then obtain n where n: "n < length corpus" "e = corpus ! n" by (auto simp: in_set_conv_nth)
    with assms(2) obtain sig :: bytes64 where e: "unat (ev_index e) = n" "n < 2 ^ 63"
      "decode_fixed_hex (hex_decode lib) ''signature'' (ev_signature e) = Inr sig"
      by (auto simp: well_signed_def)
    have key: "event_key l C e = (l, C, int n)" unfolding event_key_def e(1) ..
    have "\<exists>t'. insert_event (hex_decode lib) l cid C t e = Inr t'"
    proof (rule insert_event_total)
      fix old assume "map_of t (event_key l C e) = Some old"
      then have "map_of t (l, C, int n) = Some old" unfolding key .
      with Cons.prems(1) n(2) show "compatible (hex_decode lib) e old"
        unfolding agrees_def by (metis nat_int)
    qed (use e in simp_all)
    then obtain t1 where t1: "insert_event (hex_decode lib) l cid C t e = Inr t1" by blast
    have "compatible (hex_decode lib) e (event_row (hex_decode lib) e)"
      by (auto simp: compatible_def event_row_def complete_row_def)
    moreover have "map_of t1 = (map_of t)((l, C, int n) \<mapsto> event_row (hex_decode lib) e)"
      using insert_event_cases(2) [OF t1] unfolding key .
    ultimately have "agrees (hex_decode lib) l C corpus t1"
      using Cons.prems(1) n by (auto simp: agrees_def)
    with Cons t1 show ?case by auto
  qed simp
  from this [of "poi_events db"] assms(1,5) show ?thesis
    by (auto simp: insert_events_def u64_to_i64_def i64_of_u64_def C_def)
qed

section \<open>Reading the stored part back into a cache\<close>

lemma event_type_discriminant_inverse:
  "event_type_from_discriminant (event_type_discriminant event_type) = Inr event_type"
  by (cases event_type) (simp_all add: event_type_from_discriminant_def)

lemma index_list: "sorted xs \<Longrightarrow> distinct xs \<Longrightarrow> set xs = {0..<int n} \<Longrightarrow> xs = map int [0..<n]"
  by (rule sorted_distinct_set_unique)
     (simp_all add: distinct_map sorted_map sorted_wrt_upt image_int_atLeastLessThan)

lemma hydrate:
  assumes copy: "partial_copy lib wk corpus db" and chain: "unat (sk_chain_id wk) < 2 ^ 63"
    and small: "length corpus < 2 ^ 63"
    and tip: "last_event_index (sk_list_key wk) (sk_chain_id wk) (sk_upstream_url wk) db = Inr (Some final)"
  shows "\<exists>snaps. page_event_range_for_hydration (sk_list_key wk) (sk_chain_id wk) 0 final db = Inr snaps
    \<and> follows corpus 0 snaps \<and> length snaps = Suc (unat final)"
proof -
  define l where "l = sk_list_key wk"
  define C where "C = worker_chain wk"
  define N where "N = int (unat final)"
  define rows where "rows = sort_key (\<lambda>((_, _, i), _). i) (select_where (\<lambda>(l', c, i) _.
    l' = l \<and> c = C \<and> 0 \<le> i \<and> i \<le> N) (poi_events db))"
  from copy have ok: "corpus_ok lib db" and agr: "agrees (hex_decode lib) l C corpus (poi_events db)"
    by (simp_all add: partial_copy_def l_def C_def)
  then have keyed: "keyed (poi_events db)" and gap: "gap_free db" by (simp_all add: corpus_ok_def)
  have st: "stored_at db l C N" unfolding l_def C_def N_def by (rule tip_stored [OF ok tip])
  then obtain r where "map_of (poi_events db) (l, C, N) = Some r" by (auto simp: stored_at_def)
  with agr have final: "unat final < length corpus" unfolding agrees_def N_def by (metis nat_int)
  have idx: "map (\<lambda>((_, _, i), _). i) rows = map int [0..<Suc (unat final)]"
  proof (rule index_list)
    show "sorted (map (\<lambda>((_, _, i), _). i) rows)" unfolding rows_def by (rule sorted_sort_key)
    have "distinct (map (\<lambda>((_, _, i), _). i) (select_where (\<lambda>(l', c, i) _.
        l' = l \<and> c = C \<and> 0 \<le> i \<and> i \<le> N) (poi_events db)))"
      using keyed [unfolded keyed_def] keyed_lookup [OF keyed] unfolding select_where_def distinct_map
      by (auto simp: inj_on_def)
    then show "distinct (map (\<lambda>((_, _, i), _). i) rows)"
      unfolding rows_def by (metis (no_types, lifting) distinct_map distinct_sort set_sort)
    have "i \<in> (\<lambda>((_, _, i), _). i) ` set rows \<longleftrightarrow> 0 \<le> i \<and> i \<le> N" for i
    proof
      assume "0 \<le> i \<and> i \<le> N"
      then obtain r where "map_of (poi_events db) (l, C, i) = Some r"
        using stored_below [OF gap st, of i] by (auto simp: stored_at_def)
      with \<open>0 \<le> i \<and> i \<le> N\<close> have "((l, C, i), r) \<in> set rows"
        unfolding rows_def set_sort by (auto dest: map_of_SomeD)
      then show "i \<in> (\<lambda>((_, _, i), _). i) ` set rows" by (rule rev_image_eqI) simp
    qed (auto simp: rows_def)
    then have "set (map (\<lambda>((_, _, i), _). i) rows) = {0..N}"
      unfolding set_map by (intro set_eqI) (simp only: atLeastAtMost_iff)
    also have "{0..N} = {0..<int (Suc (unat final))}" unfolding N_def by auto
    finally show "set (map (\<lambda>((_, _, i), _). i) rows) = {0..<int (Suc (unat final))}" .
  qed
  have len: "length rows = Suc (unat final)" using arg_cong [OF idx, of length] by simp
  have row: "\<exists>r. rows ! k = ((l, C, int k), r) \<and> k < length corpus \<and> compatible (hex_decode lib) (corpus ! k) r"
    if "k < length rows" for k
  proof -
    obtain l' c' i r where x: "rows ! k = ((l', c', i), r)" by (metis prod.exhaust)
    have "((l', c', i), r) \<in> set rows" using nth_mem [OF that] unfolding x .
    then have mem: "l' = l" "c' = C" "map_of (poi_events db) (l, C, i) = Some r"
      using keyed_lookup [OF keyed] unfolding rows_def set_sort by auto
    have "i = int k"
      using arg_cong [OF idx, of "\<lambda>xs. xs ! k"] that x
      by (simp del: upt_Suc add: nth_map [OF that] len [symmetric])
    with mem x agr show ?thesis unfolding agrees_def by (metis nat_int)
  qed
  define read where "read = (\<lambda>((_ :: bytes32, _ :: i64, i), r :: poi_event_row).
    and_then (i64_to_u64 i ''event_index'') (\<lambda>index.
    and_then (event_type_from_discriminant (pe_event_type r)) (\<lambda>event_type.
      Inr \<lparr>st_event_index = index, st_blinded_commitment = pe_blinded_commitment r,
           st_signature = pe_signature r, st_event_type = event_type\<rparr>)))"
  have read: "\<exists>y. read (rows ! k) = Inr y \<and> unat (st_event_index y) = k
      \<and> st_blinded_commitment y = ev_blinded_commitment (corpus ! k)" if k: "k < length rows" for k
  proof -
    from row [OF k] obtain r event_type where r: "rows ! k = ((l, C, int k), r)"
      "pe_blinded_commitment r = ev_blinded_commitment (corpus ! k)" "k < length corpus"
      "pe_event_type r = event_type_discriminant event_type" by (auto simp: compatible_def)
    have "unat (of_nat k :: u64) = k" using small r(3) by (simp add: unat_of_nat take_bit_nat_eq_self)
    then have "i64_to_u64 (int k) f = Inr (of_nat k)" for f
      by (simp add: i64_to_u64_def result_simps checked_simps)
    with r \<open>unat (of_nat k :: u64) = k\<close> show ?thesis
      by (auto simp: read_def event_type_discriminant_inverse)
  qed
  then have "\<forall>x \<in> set rows. \<exists>y. read x = Inr y" by (metis in_set_conv_nth)
  then obtain snaps where snaps: "traverse read rows = Inr snaps" using traverse_ex by blast
  have "unat (st_event_index (snaps ! k)) = k \<and> st_blinded_commitment (snaps ! k) = ev_blinded_commitment (corpus ! k)"
    if "k < length rows" for k
    using read [OF that] traverse_nth [OF snaps that] by auto
  then have "follows corpus 0 snaps" "length snaps = Suc (unat final)"
    using traverse_length [OF snaps] final len by (auto simp: follows_def)
  moreover have "page_event_range_for_hydration (sk_list_key wk) (sk_chain_id wk) 0 final db = Inr snaps"
  proof -
    have conv: "u64_to_i64 (sk_chain_id wk) f = Inr C" "u64_to_i64 0 f = Inr 0" "u64_to_i64 final f = Inr N" for f
      using chain final small by (simp_all add: u64_to_i64_def i64_of_u64_def C_def N_def)
    show ?thesis
      unfolding page_event_range_for_hydration_def page_event_range_with_completeness_def conv and_then_simps(2) Let_def
        l_def [symmetric] rows_def [symmetric] read_def [symmetric] snaps [symmetric]
      by (auto split: list.splits)
  qed
  ultimately show ?thesis by blast
qed

section \<open>A page from an honest upstream\<close>

definition honest ::
  "('u, 'c) scrape_lib \<Rightarrow> scrape_worker \<Rightarrow> signed_poi_event list \<Rightarrow> ('c \<Rightarrow> nat \<Rightarrow> bool) \<Rightarrow> bool" where
  "honest lib wk corpus covers \<longleftrightarrow>
     serves lib wk corpus \<and> well_signed lib wk corpus \<and> cache_tracks lib wk corpus covers
     \<and> hex_round_trip lib \<and> unat (sk_chain_id wk) < 2 ^ 63"

definition ready ::
  "('u, 'c) scrape_lib \<Rightarrow> scrape_worker \<Rightarrow> signed_poi_event list \<Rightarrow> ('c \<Rightarrow> nat \<Rightarrow> bool)
   \<Rightarrow> ('u, 'c) scrape_world \<Rightarrow> bool" where
  "ready lib wk corpus covers w \<longleftrightarrow>
     partial_copy lib wk corpus (sc_db w)
     \<and> (\<forall>c. sc_cache w = Some c \<longrightarrow> covers c (worker_height wk (sc_db w)))"

lemma stored_in_corpus:
  assumes "agrees h l c corpus (poi_events db)" and "stored_at db l c i" and "gap_free db"
  shows "0 \<le> i" and "i < int (length corpus)"
proof -
  show "0 \<le> i" using assms(2,3) unfolding gap_free_def by blast
  moreover have "nat i < length corpus" using assms(1,2) unfolding agrees_def stored_at_def by blast
  ultimately show "i < int (length corpus)" by simp
qed

lemma tip_in_corpus:
  assumes "partial_copy lib wk corpus db" and "unat (sk_chain_id wk) < 2 ^ 63" and "length corpus < 2 ^ 63"
  shows "\<exists>tip. last_event_index (sk_list_key wk) (sk_chain_id wk) (sk_upstream_url wk) db = Inr tip
      \<and> worker_height wk db = (case tip of None \<Rightarrow> 0 | Some t \<Rightarrow> unat t + 1)"
    and "worker_height wk db \<le> length corpus"
proof -
  define l where "l = sk_list_key wk"
  define C where "C = worker_chain wk"
  have conv: "u64_to_i64 (sk_chain_id wk) f = Inr C" for f
    using assms(2) by (simp add: u64_to_i64_def i64_of_u64_def C_def)
  have ok: "tips_stored db" "gap_free db" "agrees (hex_decode lib) l C corpus (poi_events db)"
    using assms(1) by (simp_all add: partial_copy_def corpus_ok_def l_def C_def)
  have idx: "0 \<le> ct_last_event_index row" "ct_last_event_index row < int (length corpus)"
    if "map_of (chain_tips db) (l, C, sk_upstream_url wk) = Some row" for row
    using stored_in_corpus [OF ok(3) _ ok(2)] ok(1) that unfolding tips_stored_def by blast+
  then show "worker_height wk db \<le> length corpus"
    by (auto simp: tip_height_def l_def C_def split: option.splits)
  have fits: "\<exists>i. i64_to_u64 x f = Inr i" if "0 \<le> x" "x < int (length corpus)" for x f
    using that assms(3) by (auto simp: i64_to_u64_def word_of_i64_def try_from_len_def)
  show "\<exists>tip. last_event_index (sk_list_key wk) (sk_chain_id wk) (sk_upstream_url wk) db = Inr tip
      \<and> worker_height wk db = (case tip of None \<Rightarrow> 0 | Some t \<Rightarrow> unat t + 1)"
  proof -
    have "\<exists>tip. last_event_index l (sk_chain_id wk) (sk_upstream_url wk) db = Inr tip"
    proof (cases "map_of (chain_tips db) (l, C, sk_upstream_url wk)")
      case (Some row)
      with fits [OF idx [OF Some]] show ?thesis
        unfolding last_event_index_def conv and_then_simps(2) Some by (auto simp: result_simps)
    qed (simp add: last_event_index_def conv)
    with last_index_height show ?thesis unfolding l_def by blast
  qed
qed

text \<open>The next page starts at the first incomplete event, or else right above the tip.\<close>

lemma next_start_honest:
  assumes "partial_copy lib wk corpus db" and "unat (sk_chain_id wk) < 2 ^ 63" and "length corpus < 2 ^ 63"
  shows "\<exists>start. next_start wk db = Inr start \<and> unat start \<le> worker_height wk db
    \<and> (unat start < worker_height wk db \<or> incomplete_at db (sk_list_key wk) (worker_chain wk) = {})"
proof -
  define l where "l = sk_list_key wk"
  define C where "C = worker_chain wk"
  define H where "H = worker_height wk db"
  have conv: "u64_to_i64 (sk_chain_id wk) f = Inr C" for f
    using assms(2) by (simp add: u64_to_i64_def i64_of_u64_def C_def)
  have ok: "keyed (poi_events db)" "gap_free db" "agrees (hex_decode lib) l C corpus (poi_events db)"
    "\<forall>i \<in> incomplete_at db l C. i < int H"
    using assms(1) by (simp_all add: partial_copy_def corpus_ok_def l_def C_def H_def)
  have H: "H \<le> length corpus" using tip_in_corpus(2) [OF assms] by (simp add: H_def)
  let ?inc = "sort (map (\<lambda>((_, _, i), _). i)
    (select_where (\<lambda>(l', c, _) r. l' = l \<and> c = C \<and> \<not> pe_event_data_complete r) (poi_events db)))"
  show ?thesis
  proof (cases ?inc)
    case Nil
    then have first: "first_incomplete_event_index l (sk_chain_id wk) db = Inr None"
      unfolding first_incomplete_event_index_def conv and_then_simps(2) Nil by simp
    have none: "incomplete_at db l C = {}"
      using no_incomplete [OF first ok(1), folded C_def] by (auto simp: incomplete_at_def)
    from tip_in_corpus(1) [OF assms] obtain tip where
      tip: "last_event_index l (sk_chain_id wk) (sk_upstream_url wk) db = Inr tip"
      "H = (case tip of None \<Rightarrow> 0 | Some t \<Rightarrow> unat t + 1)"
      unfolding l_def H_def by metis
    have "\<exists>start. next_start wk db = Inr start \<and> unat start = H"
    proof (cases tip)
      case None
      with first tip show ?thesis by (simp add: next_start_def l_def)
    next
      case (Some t)
      have "checked_add t 1 = Some (t + 1) \<and> unat (t + 1) = unat t + 1"
        using Some tip(2) H assms(3) by (auto simp: checked_add_def unat_word_ariths)
      with first tip Some show ?thesis by (auto simp: next_start_def l_def)
    qed
    with none show ?thesis unfolding l_def C_def H_def by auto
  next
    case (Cons i rest)
    then have "i \<in> set ?inc" by simp
    then obtain r where "((l, C, i), r) \<in> set (poi_events db)" "\<not> pe_event_data_complete r"
      unfolding set_sort by auto
    then have r: "map_of (poi_events db) (l, C, i) = Some r" and "i \<in> incomplete_at db l C"
      using keyed_lookup [OF ok(1)] by (auto simp: incomplete_at_def)
    then have iH: "i < int H" "0 \<le> i"
      using ok(4) stored_in_corpus(1) [OF ok(3) _ ok(2), of i] by (auto simp: stored_at_def)
    then obtain n where n: "i = int n" "n < H" by (auto elim: nonneg_int_cases)
    have unat: "unat (of_nat n :: u64) = n"
      using n(2) H assms(3) by (simp add: unat_of_nat take_bit_nat_eq_self)
    then have "i64_to_u64 (int n) f = Inr (of_nat n)" for f
      by (simp add: i64_to_u64_def result_simps checked_simps)
    then have "next_start wk db = Inr (of_nat n)"
      unfolding next_start_def first_incomplete_event_index_def l_def [symmetric] conv and_then_simps(2) Cons n(1)
      by simp
    with unat n(2) show ?thesis by (metis H_def less_imp_le)
  qed
qed

lemma check_page:
  assumes "well_signed lib wk corpus" and "events = take n (drop (unat start) corpus)" and "events \<noteq> []"
  shows "\<exists>snaps. traverse (check_event lib (sk_list_key wk) start) (List.enumerate 0 events) = Inr snaps
    \<and> follows corpus (unat start) snaps \<and> length snaps = length events"
proof -
  have nth: "events ! k = corpus ! (unat start + k)" "unat start + k < length corpus" if "k < length events" for k
    using that assms(2) by auto
  have "\<exists>y. check_event lib (sk_list_key wk) start (k, events ! k) = Inr y" if k: "k < length events" for k
  proof -
    from assms(1) nth [OF k] obtain sig :: bytes64 where e: "unat (ev_index (events ! k)) = unat start + k"
      "verify_poi_event lib (events ! k) (sk_list_key wk) = Inr ()"
      "decode_fixed_hex (hex_decode lib) ''signature'' (ev_signature (events ! k)) = Inr sig"
      by (auto simp: well_signed_def)
    then have "checked_add_len start k = Some (ev_index (events ! k))" by (simp add: checked_simps)
    with e show ?thesis by (simp add: check_event_def decode_event_signature_def ensure_def)
  qed
  then have "\<forall>x \<in> set (List.enumerate 0 events). \<exists>y. check_event lib (sk_list_key wk) start x = Inr y"
    by (auto simp: in_set_enumerate_eq)
  then obtain snaps where snaps: "traverse (check_event lib (sk_list_key wk) start) (List.enumerate 0 events) = Inr snaps"
    using traverse_ex by blast
  have len: "length snaps = length events" by (rule checked_events(1) [OF snaps])
  moreover have "unat start + length events \<le> length corpus"
    using assms(2,3) by auto
  ultimately have "follows corpus (unat start) snaps"
    using checked_events(2,4) [OF snaps] nth by (auto simp: follows_def)
  with snaps len show ?thesis by blast
qed

lemma cached_honest:
  assumes "ready lib wk corpus covers w" and "honest lib wk corpus covers"
  shows "\<exists>c w'. cached_poi_cache lib wk w = (Inr c, w') \<and> covers c (worker_height wk (sc_db w))
    \<and> sc_db w' = sc_db w \<and> sc_shutdown w' = sc_shutdown w \<and> sc_cache w' = Some c"
proof (cases "sc_cache w")
  case (Some c)
  with assms(1) show ?thesis
    by (auto simp: cached_poi_cache_def act_defs ready_def)
next
  case None
  let ?new = "poi_cache_new lib EVM_CHAIN_TYPE (sk_chain_id wk) (sk_txid_version wk) (sk_list_key wk)"
  from assms have copy: "partial_copy lib wk corpus (sc_db w)" and chain: "unat (sk_chain_id wk) < 2 ^ 63"
    and small: "length corpus < 2 ^ 63" and new: "covers ?new 0"
    and app: "\<And>c n s snaps. covers c n \<Longrightarrow> s \<le> n \<Longrightarrow> follows corpus s snaps \<Longrightarrow>
      \<exists>c'. apply_verified_artifact_events lib c snaps = Inr c' \<and> covers c' (max n (s + length snaps))"
    by (simp_all add: ready_def honest_def well_signed_def cache_tracks_def)
  define H where "H = worker_height wk (sc_db w)"
  from tip_in_corpus(1) [OF copy chain small] obtain tip where
    tip: "last_event_index (sk_list_key wk) (sk_chain_id wk) (sk_upstream_url wk) (sc_db w) = Inr tip"
    "H = (case tip of None \<Rightarrow> 0 | Some t \<Rightarrow> unat t + 1)" unfolding H_def by blast
  have "\<exists>c. load_poi_cache lib wk w = (Inr c, w) \<and> covers c H"
  proof (cases tip)
    case None
    with tip new show ?thesis by (simp add: load_poi_cache_def act_defs store_read_def Let_def)
  next
    case (Some t)
    from hydrate [OF copy chain small tip(1) [unfolded Some]] obtain snaps where
      snaps: "page_event_range_for_hydration (sk_list_key wk) (sk_chain_id wk) 0 t (sc_db w) = Inr snaps"
        "follows corpus 0 snaps" "length snaps = Suc (unat t)" by blast
    from app [OF new le_refl snaps(2)] obtain c where
      "apply_verified_artifact_events lib ?new snaps = Inr c" "covers c (max 0 (0 + length snaps))" by blast
    with Some tip snaps show ?thesis by (simp add: load_poi_cache_def act_defs store_read_def Let_def)
  qed
  then show ?thesis using None unfolding H_def by (auto simp: cached_poi_cache_def act_defs)
qed

lemma advance_total:
  assumes "unat c < 2 ^ 63" and "unat i < 2 ^ 63"
    and "decode_fixed_hex h ''last_tip_merkleroot'' root = Inr (r :: bytes32)"
    and "last_event_index l c url db = Inr tip" and "case tip of None \<Rightarrow> True | Some t \<Rightarrow> t \<le> i"
  shows "\<exists>db'. advance_chain_tip h l c url i (Some root) db = Inr db'"
proof -
  define C where "C = int (unat c)"
  have conv: "u64_to_i64 c f = Inr C" "u64_to_i64 i f = Inr (int (unat i))" for f
    using assms(1,2) by (simp_all add: u64_to_i64_def i64_of_u64_def C_def)
  have "ct_last_event_index old \<le> int (unat i)" if "map_of (chain_tips db) (l, C, url) = Some old" for old
    using assms(4,5) that unfolding last_event_index_def conv
    by (auto simp: result_simps i64_to_u64_def checked_simps word_le_def split: option.splits)
  then have "snd (insert_on_conflict (l, C, url) row
      (\<lambda>old. if ct_last_event_index old \<le> int (unat i) then Some row else None) (chain_tips db)) \<noteq> 0" for row
    unfolding insert_affected by (auto split: option.splits)
  note affected = this [THEN if_not_P]
  show ?thesis
    unfolding advance_chain_tip_def conv and_then_simps option.case assms(3) Let_def split_beta affected by blast
qed

lemma store_page:
  assumes copy: "partial_copy lib wk corpus db" and honest: "honest lib wk corpus covers"
    and start: "next_start wk db = Inr start" "unat start \<le> worker_height wk db"
    and events: "events = take n (drop (unat start) corpus)" "events \<noteq> []"
    and snaps: "traverse (check_event lib (sk_list_key wk) start) (List.enumerate 0 events) = Inr snaps"
    and last: "last_index = st_event_index (last snaps)"
  shows "\<exists>db'. ingest_page lib wk events last_index root db = Inr db' \<and> partial_copy lib wk corpus db'
    \<and> worker_height wk db' = max (worker_height wk db) (unat start + length events)"
proof -
  let ?l = "sk_list_key wk" and ?c = "sk_chain_id wk" and ?url = "sk_upstream_url wk"
  define C where "C = int (unat ?c)"
  from honest have chain: "unat ?c < 2 ^ 63" and ws: "well_signed lib wk corpus" and small: "length corpus < 2 ^ 63"
    and hex: "hex_round_trip lib" by (simp_all add: honest_def well_signed_def)
  from copy have ok: "corpus_ok lib db" "agrees (hex_decode lib) ?l C corpus (poi_events db)"
    "\<forall>i \<in> incomplete_at db ?l C. i < int (worker_height wk db)"
    by (simp_all add: partial_copy_def C_def)
  have len: "Suc (unat last_index) = unat start + length events" "unat start + length events \<le> length corpus"
    using checked_events(5) [OF snaps events(2)] last events by auto
  have sub: "set events \<subseteq> set corpus"
    unfolding events(1) by (meson set_drop_subset set_take_subset subset_trans)
  from insert_events_total [OF chain ws refl sub ok(2) [unfolded C_def]] obtain db1 where
    ins: "insert_events (hex_decode lib) ?l ?c events db = Inr db1" by blast
  have "\<forall>k < length events. unat (ev_index (events ! k)) = unat start + k"
    using checked_events(2) [OF snaps] by blast
  note look = insert_events_lookup [OF ins this]
  have h1: "worker_height wk db1 = worker_height wk db" by (simp add: tip_height_def look(3))
  from tip_in_corpus(1) [OF copy chain small] obtain tip where
    tip: "last_event_index ?l ?c ?url db = Inr tip"
    "worker_height wk db = (case tip of None \<Rightarrow> 0 | Some t \<Rightarrow> unat t + 1)" by blast
  then have tip1: "last_event_index ?l ?c ?url db1 = Inr tip" by (simp add: last_event_index_def look(3))
  have "unat last_index < 2 ^ 63" using len small by simp
  moreover have "decode_fixed_hex (hex_decode lib) ''last_tip_merkleroot'' (hex_encode32_prefixed lib root) = Inr root"
    using hex by (simp add: hex_round_trip_def)
  ultimately have "\<exists>db'. (if case tip of None \<Rightarrow> True | Some t \<Rightarrow> t \<le> last_index
      then advance_chain_tip (hex_decode lib) ?l ?c ?url last_index (Some (hex_encode32_prefixed lib root)) db1
      else Inr db1) = Inr db'"
    by (cases "case tip of None \<Rightarrow> True | Some t \<Rightarrow> t \<le> last_index")
       (simp_all only: if_True if_False, rule advance_total [OF chain _ _ tip1], simp_all)
  then obtain db' where
    db': "(if case tip of None \<Rightarrow> True | Some t \<Rightarrow> t \<le> last_index
      then advance_chain_tip (hex_decode lib) ?l ?c ?url last_index (Some (hex_encode32_prefixed lib root)) db1
      else Inr db1) = Inr db'" by blast
  then have page: "ingest_page lib wk events last_index root db = Inr db'"
    unfolding ingest_page_def ins and_then_simps tip1 .
  then have "page_effect lib wk db (PageIngested (length events) last_index) db'"
    using start(1) events(2) snaps last by (auto simp: page_effect_def)
  then have "corpus_ok lib db'" by (rule page_effect_ok [OF _ ok(1)])
  have ev: "poi_events db' = poi_events db1"
    using db' advance_tip_height(3) by (auto split: if_splits)
  have look': "map_of (poi_events db') (?l, C, j) =
    (if int (unat start) \<le> j \<and> j < int (unat start + length events)
     then Some (event_row (hex_decode lib) (events ! (nat j - unat start))) else map_of (poi_events db) (?l, C, j))" for j
    unfolding ev look(1) C_def by simp
  have comp: "compatible (hex_decode lib) e (event_row (hex_decode lib) e)" for e
    by (auto simp: compatible_def event_row_def complete_row_def)
  have "agrees (hex_decode lib) ?l C corpus (poi_events db')"
    unfolding agrees_def
  proof (intro allI impI)
    fix j r assume r: "map_of (poi_events db') (?l, C, j) = Some r"
    show "nat j < length corpus \<and> compatible (hex_decode lib) (corpus ! nat j) r"
    proof (cases "int (unat start) \<le> j \<and> j < int (unat start + length events)")
      case True
      then have k: "nat j - unat start < length events" "unat start + (nat j - unat start) = nat j" by linarith+
      then have "events ! (nat j - unat start) = corpus ! nat j" using events(1) by auto
      with True r comp [of "corpus ! nat j"] k len(2) show ?thesis unfolding look' by auto
    next
      case False
      then show ?thesis using r ok(2) unfolding look' if_not_P [OF False] agrees_def by blast
    qed
  qed
  moreover have height: "worker_height wk db' = max (worker_height wk db) (unat start + length events)"
  proof (cases "case tip of None \<Rightarrow> True | Some t \<Rightarrow> t \<le> last_index")
    case True
    with db' have "worker_height wk db' = unat last_index + 1" by (intro advance_tip_height(1)) simp
    moreover have "worker_height wk db \<le> unat last_index + 1"
      using True unfolding tip(2) by (auto simp: word_le_nat_alt split: option.splits)
    ultimately show ?thesis using len(1) by simp
  next
    case False
    with db' have "db' = db1" by simp
    moreover have "unat last_index + 1 \<le> worker_height wk db"
      using False unfolding tip(2) by (auto simp: word_le_nat_alt split: option.splits)
    ultimately show ?thesis using len(1) h1 by simp
  qed
  moreover have "\<forall>i \<in> incomplete_at db' ?l C. i < int (worker_height wk db')"
  proof
    fix i assume "i \<in> incomplete_at db' ?l C"
    then have "i \<in> incomplete_at db ?l C"
      unfolding incomplete_at_def look' by (auto simp: event_row_def complete_row_def split: if_splits)
    with ok(3) height show "i < int (worker_height wk db')" by force
  qed
  ultimately show ?thesis
    using page \<open>corpus_ok lib db'\<close> unfolding partial_copy_def C_def by blast
qed

lemma height_stored:
  assumes "corpus_ok lib db" and "0 \<le> i" and "i < int (worker_height wk db)"
  shows "stored_at db (sk_list_key wk) (worker_chain wk) i"
proof (cases "map_of (chain_tips db) (sk_list_key wk, worker_chain wk, sk_upstream_url wk)")
  case None
  with assms show ?thesis by (simp add: tip_height_def)
next
  case (Some tip)
  have ok: "tips_stored db" "gap_free db" using assms(1) by (simp_all add: corpus_ok_def)
  have tip: "stored_at db (sk_list_key wk) (worker_chain wk) (ct_last_event_index tip)"
    using ok(1) Some unfolding tips_stored_def by blast
  moreover have "0 \<le> ct_last_event_index tip" using tip ok(2) unfolding gap_free_def by blast
  then have "i \<le> ct_last_event_index tip" using assms(3) Some unfolding tip_height_def by simp
  ultimately show ?thesis using stored_below [OF ok(2)] assms(2) by blast
qed

lemma partial_copy_full:
  assumes copy: "partial_copy lib wk corpus db" and "worker_height wk db = length corpus"
    and none: "incomplete_at db (sk_list_key wk) (worker_chain wk) = {}"
  shows "full_copy lib wk corpus db"
proof -
  define l where "l = sk_list_key wk"
  define C where "C = worker_chain wk"
  from copy have ok: "corpus_ok lib db" "gap_free db" "agrees (hex_decode lib) l C corpus (poi_events db)"
    by (simp_all add: partial_copy_def corpus_ok_def l_def C_def)
  have "map_of (poi_events db) (l, C, i) =
      (if 0 \<le> i \<and> i < int (length corpus) then Some (event_row (hex_decode lib) (corpus ! nat i)) else None)" for i
  proof (cases "map_of (poi_events db) (l, C, i)")
    case None
    then show ?thesis
      using height_stored [OF ok(1), of i wk] assms(2) unfolding l_def C_def by (auto simp: stored_at_def)
  next
    case (Some r)
    then have "0 \<le> i" "i < int (length corpus)" "compatible (hex_decode lib) (corpus ! nat i) r"
      using stored_in_corpus [OF ok(3) _ ok(2), of i] ok(3) by (auto simp: stored_at_def agrees_def)
    moreover have "pe_event_data_complete r"
      using none Some unfolding incomplete_at_def l_def C_def by blast
    ultimately show ?thesis using Some by (simp add: compatible_def)
  qed
  with assms(2) show ?thesis unfolding full_copy_def l_def C_def by blast
qed

text \<open>A page never fails, and either brings the store closer to the corpus or finds it complete.\<close>

lemma honest_page:
  assumes ready: "ready lib wk corpus covers w" and honest: "honest lib wk corpus covers"
    and size: "1 \<le> n" "n \<le> UPSTREAM_MAX_PAGE_SIZE"
  shows "\<exists>r w'. sync_next_page lib wk n w = (Inr r, w') \<and> sc_shutdown w' = sc_shutdown w
    \<and> ready lib wk corpus covers w'
    \<and> (r = PageCaughtUp \<longrightarrow> full_copy lib wk corpus (sc_db w'))"
proof -
  let ?H = "worker_height wk (sc_db w)"
  from ready honest have copy: "partial_copy lib wk corpus (sc_db w)" and chain: "unat (sk_chain_id wk) < 2 ^ 63"
    and ws: "well_signed lib wk corpus" and small: "length corpus < 2 ^ 63" and serves: "serves lib wk corpus"
    and tracks: "cache_tracks lib wk corpus covers"
    by (simp_all add: ready_def honest_def well_signed_def)
  from next_start_honest [OF copy chain small] obtain start where
    start: "next_start wk (sc_db w) = Inr start" "unat start \<le> ?H"
      "unat start < ?H \<or> incomplete_at (sc_db w) (sk_list_key wk) (worker_chain wk) = {}" by blast
  have H: "?H \<le> length corpus" by (rule tip_in_corpus(2) [OF copy chain small])
  have fits: "unat start + n < 2 ^ 64" using start(2) H small size(2) by (simp add: UPSTREAM_MAX_PAGE_SIZE_def)
  obtain fin where fin: "checked_add_len start n = Some fin" "unat fin = unat start + n"
    using fits by (auto simp: checked_add_len_def try_from_len_def checked_add_def unat_word_ariths unat_of_nat take_bit_nat_eq_self)
  obtain upto where upto: "checked_sub fin 1 = Some upto" "Suc (unat upto) = unat start + n"
  proof -
    have "unat (fin - 1) = unat fin - 1" using fin(2) size(1) by (intro unat_minus_one) auto
    then show ?thesis using fin(2) size(1) by (intro that [of "fin - 1"]) (simp_all add: checked_sub_def)
  qed
  obtain u where rpc: "rpc_poi_events lib (sc_upstream w) (sk_txid_version wk) EVM_CHAIN_TYPE (sk_chain_id wk)
      (sk_list_key wk) start upto = (Inr (take n (drop (unat start) corpus)), u)"
  proof -
    have "Suc (unat upto) - unat start = n" using upto(2) by simp
    then show ?thesis using serves that unfolding serves_def by metis
  qed
  define events where "events = take n (drop (unat start) corpus)"
  define w1 where "w1 = w\<lparr>sc_upstream := u\<rparr>"
  have run: "sync_next_page lib wk n w =
      (if events = [] then (Inr PageCaughtUp, w1) else ingest_fetched lib wk start events w1)"
    using start(1) fin(1) upto(1) rpc
    by (simp add: sync_next_page_def act_bind_def next_start_index_eq act_lift_def exclusive_end_index_def
        call_upstream_def act_return_def events_def w1_def)
  show ?thesis
  proof (cases "events = []")
    case True
    then have "length corpus \<le> unat start" using size(1) by (simp add: events_def)
    then have "?H = length corpus" "incomplete_at (sc_db w) (sk_list_key wk) (worker_chain wk) = {}"
      using start(2,3) H by auto
    then have "full_copy lib wk corpus (sc_db w)" by (intro partial_copy_full copy)
    with True ready show ?thesis unfolding run by (simp add: w1_def ready_def)
  next
    case False
    have ready1: "ready lib wk corpus covers w1" using ready by (simp add: w1_def ready_def)
    from check_page [OF ws events_def False] obtain snaps where
      snaps: "traverse (check_event lib (sk_list_key wk) start) (List.enumerate 0 events) = Inr snaps"
        "follows corpus (unat start) snaps" "length snaps = length events" by blast
    from cached_honest [OF ready1 honest] obtain c w2 where
      c: "cached_poi_cache lib wk w1 = (Inr c, w2)" "covers c ?H" "sc_db w2 = sc_db w"
        "sc_shutdown w2 = sc_shutdown w" by (auto simp: w1_def)
    from tracks c(2) start(2) snaps(2) obtain c' where
      c': "apply_verified_artifact_events lib c snaps = Inr c'" "covers c' (max ?H (unat start + length events))"
      unfolding cache_tracks_def snaps(3) [symmetric] by blast
    from tracks c'(2) obtain u' where valid: "validate_roots lib c' (sc_upstream w2) = (Inr True, u')"
      unfolding cache_tracks_def by blast
    define last_index where "last_index = st_event_index (last snaps)"
    have "Suc (unat last_index) = unat start + length events"
      using checked_events(5) [OF snaps(1) False] by (simp add: last_index_def)
    then have "unat last_index < max ?H (unat start + length events)" by linarith
    with tracks c'(2) obtain root where root: "map_of (current_roots lib c') (tree_of_event lib last_index) = Some root"
      unfolding cache_tracks_def by blast
    from store_page [OF copy honest start(1,2) events_def False snaps(1) last_index_def] obtain db' where
      db': "ingest_page lib wk events last_index root (sc_db w) = Inr db'" "partial_copy lib wk corpus db'"
        "worker_height wk db' = max ?H (unat start + length events)" by blast
    have "ingest_fetched lib wk start events w1 = (Inr (PageIngested (length events) last_index),
        w2\<lparr>sc_upstream := u', sc_db := db', sc_cache := Some c'\<rparr>)"
      using snaps(1) c(1,3) c'(1) valid root db'(1)
      by (simp add: ingest_fetched_def act_bind_def act_lift_def call_upstream_def store_tx_def act_modify_def
          act_return_def last_index_def Let_def)
    with False c(4) db'(2,3) c'(2) show ?thesis unfolding run by (simp add: ready_def)
  qed
qed

section \<open>Catching up\<close>

lemma no_shutdown:
  assumes "True \<notin> set (sc_shutdown w)"
  obtains w' where "shutdown_requested w = (False, w')" and "True \<notin> set (sc_shutdown w')"
    and "sc_db w' = sc_db w" and "sc_cache w' = sc_cache w"
  using assms by (cases "sc_shutdown w") (auto simp: shutdown_requested_def)

lemma ready_cong: "sc_db w' = sc_db w \<Longrightarrow> sc_cache w' = sc_cache w \<Longrightarrow>
  ready lib wk corpus covers w' = ready lib wk corpus covers w"
  by (simp add: ready_def)

lemma honest_step:
  assumes ready: "ready lib wk corpus covers w" and honest: "honest lib wk corpus covers"
    and size: "page_size_wf a" and up: "True \<notin> set (sc_shutdown w)"
  shows "\<exists>finished a' w'. catch_up_step lib wk a w = (finished, a', w') \<and> page_size_wf a'
    \<and> ready lib wk corpus covers w' \<and> True \<notin> set (sc_shutdown w')
    \<and> (finished = None \<or> finished = Some (Inr RunCaughtUp) \<and> full_copy lib wk corpus (sc_db w'))"
proof -
  obtain w1 where w1: "shutdown_requested w = (False, w1)" "True \<notin> set (sc_shutdown w1)"
    "sc_db w1 = sc_db w" "sc_cache w1 = sc_cache w" by (rule no_shutdown [OF up])
  obtain w2 where w2: "shutdown_requested w1 = (False, w2)" "True \<notin> set (sc_shutdown w2)"
    "sc_db w2 = sc_db w1" "sc_cache w2 = sc_cache w1" by (rule no_shutdown [OF w1(2)])
  have ready2: "ready lib wk corpus covers w2" using ready ready_cong w1(3,4) w2(3,4) by metis
  from size have "1 \<le> current_size a" "current_size a \<le> UPSTREAM_MAX_PAGE_SIZE" by (auto simp: page_size_wf_def)
  from honest_page [OF ready2 honest this] obtain r w3 where
    page: "sync_next_page lib wk (current_size a) w2 = (Inr r, w3)" "sc_shutdown w3 = sc_shutdown w2"
      "ready lib wk corpus covers w3" "r = PageCaughtUp \<longrightarrow> full_copy lib wk corpus (sc_db w3)" by blast
  have retry: "sync_next_page_with_retry lib wk a w1 = (Inr (Some r), a, w3)"
    using w2(1) page(1)
    by (simp add: sync_next_page_with_retry_def page_with_retry.simps attempts_loop.simps)
  show ?thesis
  proof (cases r)
    case PageCaughtUp
    with w1(1) retry page size w2(2) show ?thesis by (simp add: catch_up_step_def)
  next
    case (PageIngested n i)
    define w4 where "w4 = report (PageSuccess (sk_list_key wk) (sk_chain_id wk) i (current_size (on_success a))) w3"
    have w4: "True \<notin> set (sc_shutdown w4)" "sc_db w4 = sc_db w3" "sc_cache w4 = sc_cache w3"
      using page(2) w2(2) by (simp_all add: w4_def report_def)
    obtain w5 where w5: "shutdown_requested w4 = (False, w5)" "True \<notin> set (sc_shutdown w5)"
      "sc_db w5 = sc_db w4" "sc_cache w5 = sc_cache w4" by (rule no_shutdown [OF w4(1)])
    have "ready lib wk corpus covers w5" using page(3) ready_cong w4(2,3) w5(3,4) by metis
    moreover have "catch_up_step lib wk a w = (None, on_success a, w5)"
      using w1(1) retry PageIngested w5(1) by (simp add: catch_up_step_def Let_def w4_def)
    ultimately show ?thesis using on_success_wf [OF size] w5(2) by simp
  qed
qed

lemma honest_loop:
  assumes "ready lib wk corpus covers w" and honest: "honest lib wk corpus covers"
    and "page_size_wf a" and "True \<notin> set (sc_shutdown w)"
  shows "\<exists>a' w'. catch_up_loop lib wk a w = Some (Inr RunCaughtUp, a', w')
    \<and> full_copy lib wk corpus (sc_db w') \<and> corpus_ok lib (sc_db w')"
  using assms(1,3,4)
proof (induction "work_left wk (sc_db w)" arbitrary: a w rule: less_induct)
  case less
  from honest_step [OF less.prems(1) honest less.prems(2,3)] obtain finished a1 w1 where
    step: "catch_up_step lib wk a w = (finished, a1, w1)" "page_size_wf a1" "ready lib wk corpus covers w1"
      "True \<notin> set (sc_shutdown w1)"
      "finished = None \<or> finished = Some (Inr RunCaughtUp) \<and> full_copy lib wk corpus (sc_db w1)" by blast
  have ok: "corpus_ok lib (sc_db v)" if "ready lib wk corpus covers v" for v
    using that by (simp add: ready_def partial_copy_def)
  show ?case
  proof (cases finished)
    case None
    with catch_up_step_effect [OF step(1)] have "work_left wk (sc_db w1) < work_left wk (sc_db w)"
      using page_makes_progress ok [OF less.prems(1)] by (auto simp: corpus_ok_def)
    from less.hyps [OF this step(3,2,4)] show ?thesis
      using step(1) None by (subst catch_up_loop.simps) simp
  next
    case (Some r)
    with step ok [OF step(3)] show ?thesis by (subst catch_up_loop.simps) simp
  qed
qed


definition example_corpus :: "signed_poi_event list" where
  "example_corpus = map (\<lambda>i. \<lparr>ev_index = i, ev_blinded_commitment = ucast i + 9,
     ev_signature = replicate 64 CHR ''s'', ev_type = PoiShield\<rparr>) [0, 1, 2]"

lemma example_signature:
  "\<exists>sig :: bytes64. decode_fixed_hex (\<lambda>s. Some (map of_char s)) f (replicate 64 CHR ''s'') = Inr sig"
proof -
  have "strip_prefix_0x (replicate 64 CHR ''s'') = replicate 64 CHR ''s''"
    by (simp add: strip_prefix_0x_def numeral_2_eq_2)
  then show ?thesis by (simp add: decode_fixed_hex_def exact_array_def)
qed

lemma example_honest: "honest (example_lib example_corpus) example_worker example_corpus (=)"
proof -
  have "well_signed (example_lib example_corpus) example_worker example_corpus"
    using example_signature
    by (auto simp: well_signed_def example_corpus_def example_lib_def less_Suc_eq)
  moreover have "serves (example_lib example_corpus) example_worker example_corpus"
    by (simp add: serves_def example_lib_def)
  moreover have "cache_tracks (example_lib example_corpus) example_worker example_corpus (=)"
    by (auto simp: cache_tracks_def example_lib_def follows_def last_conv_nth Suc_le_eq
        simp flip: add_Suc_right length_greater_0_conv)
  moreover have "(of_char (char_of (unat b)) :: u8) = b" for b :: u8
  proof -
    have "(of_char (char_of (unat b)) :: u8) = of_nat (of_char (char_of (unat b)))"
      by (simp only: of_nat_of_char)
    also have "\<dots> = b" using unat_less_exp [of b] unfolding of_char_of by simp
    finally show ?thesis .
  qed
  then have "hex_round_trip (example_lib example_corpus)"
    by (simp add: hex_round_trip_def example_lib_def decode_fixed_hex_def strip_prefix_0x_def exact_array_def o_def
        be_value_eq be_bytes_def le_value_le_bytes)
  ultimately show ?thesis by (simp add: honest_def example_worker_def)
qed

lemma example_ready: "ready (example_lib corpus) example_worker corpus (=) (example_world empty_poi_db)"
  by (simp add: ready_def example_world_def partial_copy_def agrees_def incomplete_at_def)
     (simp add: empty_poi_db_def)


end
