(* ===== verification/Chain_Store.thy ===== *)
theory Chain_Store
  imports Store_State Chunk_Format Calldata
begin

text \<open>
  The tables of the chain-indexed datasets and the transactions that write them (\<open>store.rs\<close>,
  \<open>record_chain_indexing_progress\<close> to \<open>record_source_transaction\<close>, with the schema of the migrations).

  \<^item> A row of every table belongs to a chain and contract, the \<open>chain_key\<close>. The contract column is the
    text of an address; the address itself is the key here.
  \<^item> \<open>BYTEA\<close> columns whose length the schema fixes at 32 are words; the others are byte lists.
  \<^item> The columns that say where a log comes from are the record \<open>log_columns\<close>, which the rows of the five
    log tables extend.
  \<^item> \<open>CHECK (chain_type = 0)\<close> is on every table: \<open>check_chain_type\<close>.
  \<^item> \<open>StoreDatasetKind\<close> has the variants of the artifact crate's dataset kind and shares its type.
  \<^item> Hashing and ABI-encoding of preimages belong to other crates: the arguments \<open>R\<close> and
    \<open>legacy_preimage_abi_encode\<close>.

  Shown here: what a batch writes row by row, through the contract of a row writer; what a rewind removes
  and keeps.
\<close>

type_synonym chain_key = "i64 \<times> i64 \<times> address"

record log_columns =
  lc_block_number :: i64
  lc_block_timestamp :: "i64 option"
  lc_block_hash :: bytes32
  lc_transaction_hash :: bytes32
  lc_log_index :: i64

record indexed_transact_row = log_columns +
  xt_commitment_hash :: bytes32
  xt_ciphertext :: "bytes option"

record indexed_shield_row = log_columns +
  xs_commitment_hash :: bytes32
  xs_preimage :: bytes
  xs_shield_ciphertext :: bytes

record indexed_encrypted_row = log_columns +
  xe_commitment_hash :: bytes32
  xe_ciphertext :: bytes

record indexed_generated_row = log_columns +
  xg_commitment_hash :: bytes32
  xg_preimage :: bytes
  xg_encrypted_random :: bytes

record public_transaction_row =
  pr_block_number :: i64
  pr_block_timestamp :: "i64 option"
  pr_block_hash :: bytes32
  pr_first_log_index :: i64
  pr_last_log_index :: i64

record public_txid_row =
  px_block_number :: i64
  px_block_timestamp :: i64
  px_block_hash :: bytes32
  px_first_log_index :: i64
  px_last_log_index :: i64
  px_row_id :: string
  px_nullifiers :: bytes
  px_commitments :: bytes
  px_bound_params_hash :: bytes32
  px_has_unshield :: bool
  px_unshield_preimage :: "bytes option"
  px_utxo_tree_in :: i64
  px_utxo_tree_out :: i64
  px_utxo_batch_start_position_out :: i64

record progress_row =
  pg_indexed_through_block :: i64
  pg_indexed_through_block_hash :: bytes32

record header_row =
  hr_block_hash :: bytes32
  hr_parent_hash :: bytes32

type_synonym tree_key = "chain_key \<times> i64 \<times> i64"

record chain_db =
  chain_indexing_progress_tbl :: "(chain_key \<times> indexed_dataset_kind, progress_row) tbl"
  indexed_block_headers :: "((i64 \<times> i64) \<times> i64, header_row) tbl"
  indexed_block_checkpoints :: "(chain_key \<times> string \<times> i64, header_row) tbl"
  indexed_transact_commitments :: "(tree_key, indexed_transact_row) tbl"
  indexed_shield_commitments :: "(tree_key, indexed_shield_row) tbl"
  indexed_nullifiers :: "(chain_key \<times> i64 \<times> bytes32, log_columns) tbl"
  indexed_legacy_encrypted_commitments :: "(tree_key, indexed_encrypted_row) tbl"
  indexed_legacy_generated_commitments :: "(tree_key, indexed_generated_row) tbl"
  indexed_public_transactions :: "(chain_key \<times> bytes32, public_transaction_row) tbl"
  indexed_public_txid_rows :: "(chain_key \<times> bytes32 \<times> i64, public_txid_row) tbl"

definition chain_key_of :: "u8 \<Rightarrow> u64 \<Rightarrow> address \<Rightarrow> chain_key stored" where
  "chain_key_of chain_type chain_id railgun_contract =
     and_then (u64_to_i64 chain_id ''chain_id'') (\<lambda>chain.
       Inr (int (unat chain_type), chain, railgun_contract))"

definition check_chain_type :: "i64 \<Rightarrow> unit stored" where
  "check_chain_type chain_type = ensure (chain_type = 0) (Sqlx CheckViolation)"

section \<open>Progress and headers\<close>

definition chain_indexing_progress ::
  "u8 \<Rightarrow> u64 \<Rightarrow> address \<Rightarrow> indexed_dataset_kind \<Rightarrow> chain_db \<Rightarrow> stored_chain_indexing_progress option stored" where
  "chain_indexing_progress chain_type chain_id railgun_contract dataset_kind db =
     and_then (chain_key_of chain_type chain_id railgun_contract) (\<lambda>ck.
       case map_of (chain_indexing_progress_tbl db) (ck, dataset_kind) of
         None \<Rightarrow> Inr None
       | Some row \<Rightarrow>
           and_then (i64_to_u64 (pg_indexed_through_block row) ''indexed_through_block'') (\<lambda>b.
             Inr (Some \<lparr>indexed_through_block = b,
                        indexed_through_block_hash = pg_indexed_through_block_hash row\<rparr>)))"

definition chain_indexing_resume_block ::
  "u8 \<Rightarrow> u64 \<Rightarrow> address \<Rightarrow> indexed_dataset_kind \<Rightarrow> u64 \<Rightarrow> chain_db \<Rightarrow> u64 stored" where
  "chain_indexing_resume_block chain_type chain_id railgun_contract dataset_kind configured_start_block db =
     and_then (chain_indexing_progress chain_type chain_id railgun_contract dataset_kind db) (\<lambda>progress.
       Inr (case progress of
              None \<Rightarrow> configured_start_block
            | Some p \<Rightarrow> saturating_add (indexed_through_block p) 1))"

definition record_chain_indexing_progress ::
  "u8 \<Rightarrow> u64 \<Rightarrow> address \<Rightarrow> indexed_dataset_kind \<Rightarrow> u64 \<Rightarrow> bytes32 \<Rightarrow> chain_db \<Rightarrow> chain_db stored" where
  "record_chain_indexing_progress chain_type chain_id railgun_contract dataset_kind through through_hash db =
     and_then (chain_key_of chain_type chain_id railgun_contract) (\<lambda>ck.
     and_then (u64_to_i64 through ''indexed_through_block'') (\<lambda>b.
     and_then (check_chain_type (fst ck)) (\<lambda>_.
       let row = \<lparr>pg_indexed_through_block = b, pg_indexed_through_block_hash = through_hash\<rparr>
       in Inr (db\<lparr>chain_indexing_progress_tbl := fst (insert_on_conflict (ck, dataset_kind) row
            (\<lambda>old. if pg_indexed_through_block old \<le> b then Some row else None)
            (chain_indexing_progress_tbl db))\<rparr>))))"

text \<open>The headers of a chain are unique by hash as well.\<close>

definition record_indexed_block_header ::
  "u8 \<Rightarrow> u64 \<Rightarrow> u64 \<Rightarrow> bytes32 \<Rightarrow> bytes32 \<Rightarrow> chain_db \<Rightarrow> chain_db stored" where
  "record_indexed_block_header chain_type chain_id number hash parent db =
     and_then (u64_to_i64 chain_id ''chain_id'') (\<lambda>chain.
     and_then (u64_to_i64 number ''block_number'') (\<lambda>b.
     and_then (check_chain_type (int (unat chain_type))) (\<lambda>_.
     and_then (ensure (\<not> exists_where (\<lambda>(scope, b') r.
         scope = (int (unat chain_type), chain) \<and> b' \<noteq> b \<and> hr_block_hash r = hash) (indexed_block_headers db))
       (Sqlx UniqueViolation)) (\<lambda>_.
       let row = \<lparr>hr_block_hash = hash, hr_parent_hash = parent\<rparr>
       in Inr (db\<lparr>indexed_block_headers := fst (insert_on_conflict ((int (unat chain_type), chain), b) row
            (\<lambda>_. Some row) (indexed_block_headers db))\<rparr>)))))"

definition indexed_block_header ::
  "u8 \<Rightarrow> u64 \<Rightarrow> u64 \<Rightarrow> chain_db \<Rightarrow> stored_indexed_block_header option stored" where
  "indexed_block_header chain_type chain_id number db =
     and_then (u64_to_i64 chain_id ''chain_id'') (\<lambda>chain.
     and_then (u64_to_i64 number ''block_number'') (\<lambda>b.
       Inr (map_option (\<lambda>row. \<lparr>header_block_number = number, header_block_hash = hr_block_hash row,
              header_parent_hash = hr_parent_hash row\<rparr>)
         (map_of (indexed_block_headers db) ((int (unat chain_type), chain), b)))))"

section \<open>Rewinding\<close>

record chain_indexing_rewind =
  deleted_indexed_rows :: nat
  deleted_public_transactions :: nat
  deleted_block_checkpoints :: nat
  deleted_block_headers :: nat
  rewound_progress_rows :: nat
  deleted_progress_rows :: nat

text \<open>\<open>DELETE FROM .. WHERE chain_type = .. AND block_number >= ..\<close> for a table whose block number is \<open>block\<close>.\<close>

definition delete_from_block ::
  "chain_key \<Rightarrow> i64 \<Rightarrow> ('v \<Rightarrow> i64) \<Rightarrow> (chain_key \<times> 'k, 'v) tbl \<Rightarrow> (chain_key \<times> 'k, 'v) tbl \<times> nat" where
  "delete_from_block ck from block t = delete_where (\<lambda>(ck', _) r. ck' = ck \<and> from \<le> block r) t"

definition rewind_chain_indexing_to_replay_block ::
  "u8 \<Rightarrow> u64 \<Rightarrow> address \<Rightarrow> u64 \<Rightarrow> chain_db \<Rightarrow> (chain_indexing_rewind \<times> chain_db) stored" where
  "rewind_chain_indexing_to_replay_block chain_type chain_id railgun_contract replay_from_block db =
     and_then (chain_key_of chain_type chain_id railgun_contract) (\<lambda>ck.
     and_then (u64_to_i64 replay_from_block ''replay_from_block'') (\<lambda>from.
       let scope = (fst ck, fst (snd ck));
           previous_hash =
             (if from > 0 then map_option hr_block_hash (map_of (indexed_block_headers db) (scope, from - 1))
              else None);
           (transacts, n1) = delete_from_block ck from lc_block_number (indexed_transact_commitments db);
           (shields, n2) = delete_from_block ck from lc_block_number (indexed_shield_commitments db);
           (nfs, n3) = delete_from_block ck from lc_block_number (indexed_nullifiers db);
           (encrypted, n4) = delete_from_block ck from lc_block_number (indexed_legacy_encrypted_commitments db);
           (generated, n5) = delete_from_block ck from lc_block_number (indexed_legacy_generated_commitments db);
           (transactions, n6) = delete_from_block ck from pr_block_number (indexed_public_transactions db);
           (txids, n7) = delete_from_block ck from px_block_number (indexed_public_txid_rows db);
           (checkpoints, n8) = delete_where (\<lambda>(ck', _, b) _. ck' = ck \<and> from \<le> b) (indexed_block_checkpoints db);
           (headers, n9) = delete_where (\<lambda>(scope', b) _. scope' = scope \<and> from \<le> b) (indexed_block_headers db);
           beyond = (\<lambda>(ck', _) r. ck' = ck \<and> from \<le> pg_indexed_through_block r);
           (progress, rewound, deleted) =
             (case previous_hash of
                Some hash \<Rightarrow>
                  (case update_where beyond (\<lambda>_. \<lparr>pg_indexed_through_block = from - 1,
                           pg_indexed_through_block_hash = hash\<rparr>) (chain_indexing_progress_tbl db) of
                     (t, n) \<Rightarrow> (t, n, 0))
              | None \<Rightarrow>
                  (case delete_where beyond (chain_indexing_progress_tbl db) of (t, n) \<Rightarrow> (t, 0, n)))
       in Inr (\<lparr>deleted_indexed_rows = n1 + n2 + n3 + n4 + n5, deleted_public_transactions = n6 + n7,
                deleted_block_checkpoints = n8, deleted_block_headers = n9,
                rewound_progress_rows = rewound, deleted_progress_rows = deleted\<rparr>,
               \<lparr>chain_indexing_progress_tbl = progress, indexed_block_headers = headers,
                indexed_block_checkpoints = checkpoints, indexed_transact_commitments = transacts,
                indexed_shield_commitments = shields, indexed_nullifiers = nfs,
                indexed_legacy_encrypted_commitments = encrypted,
                indexed_legacy_generated_commitments = generated,
                indexed_public_transactions = transactions, indexed_public_txid_rows = txids\<rparr>)))"

section \<open>Persisting a batch\<close>

definition source_block_timestamp_i64 :: "indexed_log_source \<Rightarrow> i64 stored" where
  "source_block_timestamp_i64 source =
     and_then (ok_or (MissingBlockTimestamp (block_number source) (block_hash source)) (block_timestamp source))
       (\<lambda>timestamp. u64_to_i64 timestamp ''block_timestamp'')"

text \<open>The source columns of a log row, bound in the order of the statements.\<close>

definition log_columns_of :: "indexed_log_source \<Rightarrow> log_columns stored" where
  "log_columns_of source =
     and_then (u64_to_i64 (block_number source) ''block_number'') (\<lambda>number.
     and_then (source_block_timestamp_i64 source) (\<lambda>timestamp.
     and_then (u64_to_i64 (log_index source) ''log_index'') (\<lambda>index.
       Inr \<lparr>lc_block_number = number, lc_block_timestamp = Some timestamp, lc_block_hash = block_hash source,
            lc_transaction_hash = transaction_hash source, lc_log_index = index\<rparr>)))"

definition merge_public_transaction :: "log_columns \<Rightarrow> public_transaction_row \<Rightarrow> public_transaction_row" where
  "merge_public_transaction c old =
     \<lparr>pr_block_number = min (pr_block_number old) (lc_block_number c),
      pr_block_timestamp = lc_block_timestamp c, pr_block_hash = lc_block_hash c,
      pr_first_log_index = min (pr_first_log_index old) (lc_log_index c),
      pr_last_log_index = max (pr_last_log_index old) (lc_log_index c)\<rparr>"

definition record_source_transaction :: "chain_key \<Rightarrow> chain_db \<Rightarrow> indexed_log_source \<Rightarrow> chain_db stored" where
  "record_source_transaction ck db source =
     and_then (log_columns_of source) (\<lambda>c.
     and_then (check_chain_type (fst ck)) (\<lambda>_.
       Inr (db\<lparr>indexed_public_transactions := fst (insert_on_conflict (ck, transaction_hash source)
         \<lparr>pr_block_number = lc_block_number c, pr_block_timestamp = lc_block_timestamp c,
          pr_block_hash = lc_block_hash c, pr_first_log_index = lc_log_index c,
          pr_last_log_index = lc_log_index c\<rparr>
         (\<lambda>old. Some (merge_public_transaction c old)) (indexed_public_transactions db))\<rparr>)))"

text \<open>\<open>INSERT .. ON CONFLICT .. DO UPDATE SET\<close> every column.\<close>

definition upsert :: "'k \<Rightarrow> 'v \<Rightarrow> ('k, 'v) tbl \<Rightarrow> ('k, 'v) tbl" where
  "upsert k v t = fst (insert_on_conflict k v (\<lambda>_. Some v) t)"

definition persist_transact :: "chain_key \<Rightarrow> chain_db \<Rightarrow> indexed_transact_commitment \<Rightarrow> chain_db stored" where
  "persist_transact ck db item =
     and_then (record_source_transaction ck db (tc_source item)) (\<lambda>db1.
     and_then (log_columns_of (tc_source item)) (\<lambda>c.
     and_then (u64_to_i64 (tc_tree_position item) ''tree_position'') (\<lambda>position.
     and_then (check_chain_type (fst ck)) (\<lambda>_.
       Inr (db1\<lparr>indexed_transact_commitments := upsert (ck, int (unat (tc_tree_number item)), position)
         (log_columns.extend c (indexed_transact_row.fields (tc_hash item) (tc_ciphertext item)))
         (indexed_transact_commitments db1)\<rparr>)))))"

definition persist_shield ::
  "railgun_lib \<Rightarrow> chain_key \<Rightarrow> chain_db \<Rightarrow> indexed_shield_commitment \<Rightarrow> chain_db stored" where
  "persist_shield R ck db item =
     and_then (record_source_transaction ck db (sc_source item)) (\<lambda>db1.
     and_then (log_columns_of (sc_source item)) (\<lambda>c.
     and_then (u64_to_i64 (sc_tree_position item) ''tree_position'') (\<lambda>position.
     and_then (check_chain_type (fst ck)) (\<lambda>_.
       Inr (db1\<lparr>indexed_shield_commitments := upsert (ck, int (unat (sc_tree_number item)), position)
         (log_columns.extend c (indexed_shield_row.fields (preimage_hash R (sc_preimage item))
           (preimage_abi_encode R (sc_preimage item)) (sc_shield_ciphertext item)))
         (indexed_shield_commitments db1)\<rparr>)))))"

definition persist_nullifier :: "chain_key \<Rightarrow> chain_db \<Rightarrow> indexed_nullifier \<Rightarrow> chain_db stored" where
  "persist_nullifier ck db item =
     and_then (record_source_transaction ck db (nf_source item)) (\<lambda>db1.
     and_then (log_columns_of (nf_source item)) (\<lambda>c.
     and_then (check_chain_type (fst ck)) (\<lambda>_.
       Inr (db1\<lparr>indexed_nullifiers := upsert (ck, int (unat (nf_tree_number item)), nf_nullifier item) c
         (indexed_nullifiers db1)\<rparr>))))"

definition persist_legacy_encrypted ::
  "chain_key \<Rightarrow> chain_db \<Rightarrow> indexed_legacy_encrypted_commitment \<Rightarrow> chain_db stored" where
  "persist_legacy_encrypted ck db item =
     and_then (record_source_transaction ck db (le_source item)) (\<lambda>db1.
     and_then (log_columns_of (le_source item)) (\<lambda>c.
     and_then (u64_to_i64 (le_tree_position item) ''tree_position'') (\<lambda>position.
     and_then (check_chain_type (fst ck)) (\<lambda>_.
       Inr (db1\<lparr>indexed_legacy_encrypted_commitments := upsert (ck, int (unat (le_tree_number item)), position)
         (log_columns.extend c (indexed_encrypted_row.fields (le_hash item) (le_ciphertext item)))
         (indexed_legacy_encrypted_commitments db1)\<rparr>)))))"

definition persist_legacy_generated ::
  "railgun_lib \<Rightarrow> (legacy_commitment_preimage \<Rightarrow> bytes) \<Rightarrow> chain_key \<Rightarrow> chain_db
   \<Rightarrow> indexed_legacy_generated_commitment \<Rightarrow> chain_db stored" where
  "persist_legacy_generated R legacy_preimage_abi_encode ck db item =
     and_then (record_source_transaction ck db (lg_source item)) (\<lambda>db1.
     and_then (log_columns_of (lg_source item)) (\<lambda>c.
     and_then (u64_to_i64 (lg_tree_position item) ''tree_position'') (\<lambda>position.
     and_then (check_chain_type (fst ck)) (\<lambda>_.
       Inr (db1\<lparr>indexed_legacy_generated_commitments := upsert (ck, int (unat (lg_tree_number item)), position)
         (log_columns.extend c (indexed_generated_row.fields (legacy_preimage_hash R (lg_preimage item))
           (legacy_preimage_abi_encode (lg_preimage item))
           (be_bytes (fst (lg_encrypted_random item)) @ be_bytes (snd (lg_encrypted_random item)))))
         (indexed_legacy_generated_commitments db1)\<rparr>)))))"

definition flatten_fixed_bytes :: "bytes32 list \<Rightarrow> bytes" where
  "flatten_fixed_bytes values = concat (map be_bytes values)"

definition persist_public_transaction ::
  "chain_key \<Rightarrow> chain_db \<Rightarrow> indexed_public_transaction \<Rightarrow> chain_db stored" where
  "persist_public_transaction ck db item =
     and_then (u64_to_i64 (block_number (pt_source item)) ''block_number'') (\<lambda>number.
     and_then (u64_to_i64 (pt_block_timestamp item) ''block_timestamp'') (\<lambda>timestamp.
     and_then (u64_to_i64 (pt_first_log_index item) ''first_log_index'') (\<lambda>first_index.
     and_then (u64_to_i64 (pt_last_log_index item) ''last_log_index'') (\<lambda>last_index.
     and_then (u64_to_i64 (pt_railgun_transaction_index item) ''railgun_transaction_index'') (\<lambda>index.
     and_then (u64_to_i64 (pt_utxo_tree_in item) ''utxo_tree_in'') (\<lambda>tree_in.
     and_then (u64_to_i64 (pt_utxo_tree_out item) ''utxo_tree_out'') (\<lambda>tree_out.
     and_then (u64_to_i64 (pt_utxo_batch_start_position_out item) ''utxo_batch_start_position_out'') (\<lambda>position_out.
     and_then (check_chain_type (fst ck)) (\<lambda>_.
     and_then (ensure (pt_has_unshield item \<or> pt_unshield_preimage item = None) (Sqlx CheckViolation)) (\<lambda>_.
       Inr (db\<lparr>indexed_public_txid_rows := upsert (ck, transaction_hash (pt_source item), index)
         \<lparr>px_block_number = number, px_block_timestamp = timestamp, px_block_hash = block_hash (pt_source item),
          px_first_log_index = first_index, px_last_log_index = last_index, px_row_id = pt_id item,
          px_nullifiers = flatten_fixed_bytes (pt_nullifiers item),
          px_commitments = flatten_fixed_bytes (pt_commitments item),
          px_bound_params_hash = pt_bound_params_hash item, px_has_unshield = pt_has_unshield item,
          px_unshield_preimage = pt_unshield_preimage item, px_utxo_tree_in = tree_in,
          px_utxo_tree_out = tree_out, px_utxo_batch_start_position_out = position_out\<rparr>
         (indexed_public_txid_rows db)\<rparr>)))))))))))"

definition persist_indexed_log_batch ::
  "railgun_lib \<Rightarrow> (legacy_commitment_preimage \<Rightarrow> bytes) \<Rightarrow> u8 \<Rightarrow> u64 \<Rightarrow> address \<Rightarrow> indexed_log_batch
   \<Rightarrow> chain_db \<Rightarrow> chain_db stored" where
  "persist_indexed_log_batch R legacy_preimage_abi_encode chain_type chain_id railgun_contract batch db =
     and_then (chain_key_of chain_type chain_id railgun_contract) (\<lambda>ck.
     and_then (try_fold (persist_transact ck) db (transact_commitments batch)) (\<lambda>db1.
     and_then (try_fold (persist_shield R ck) db1 (shield_commitments batch)) (\<lambda>db2.
     and_then (try_fold (persist_nullifier ck) db2 (nullifiers batch)) (\<lambda>db3.
     and_then (try_fold (persist_legacy_encrypted ck) db3 (legacy_encrypted_commitments batch)) (\<lambda>db4.
     and_then (try_fold (persist_legacy_generated R legacy_preimage_abi_encode ck) db4
         (legacy_generated_commitments batch)) (\<lambda>db5.
       try_fold (persist_public_transaction ck) db5 (public_transactions batch)))))))"

end
