(* ===== verification/Chain_Readers.thy ===== *)
theory Chain_Readers
  imports Chain_Store Tree_Position "HOL-Library.List_Lexorder" "HOL-Library.Char_ord"
begin

text \<open>
  The queries on the chain-indexed tables and the two backfills (\<open>store.rs\<close>, \<open>public_txid_rows\<close> to
  \<open>commitment_tree_checkpoint\<close>): the public transaction ids in publication order, the rows of a wallet
  scan, the block ranges that hold any, missing timestamps and preimages, and the commitments of the
  trees.

  \<open>ORDER BY\<close> is a sort by the tuple of its columns. Where a query leaves the order of equal tuples open
  the order of the table decides here. \<open>TREE_LEAF_COUNT\<close> and \<open>MERKLE_ZERO_VALUE\<close> come from another
  crate: the arguments \<open>L\<close> and \<open>zero\<close>. Row counts are naturals; they stay far below the width of \<open>u64\<close>.
\<close>

section \<open>Public transaction ids\<close>

text \<open>\<open>PublicTxidCompatibilityOmission\<close> of the configuration.\<close>

record public_txid_omission =
  om_block_number :: u64
  om_transaction_hash :: bytes32
  om_railgun_transaction_index :: u64

record stored_missing_unshield_preimage =
  mu_id :: string
  mu_block_number :: u64
  mu_railgun_transaction_index :: u64
  mu_transaction_hash :: bytes32
  mu_nullifiers :: "bytes32 list"
  mu_commitments :: "bytes32 list"
  mu_bound_params_hash :: bytes32
  mu_utxo_tree_in :: u64
  mu_utxo_tree_out :: u64
  mu_utxo_batch_start_position_out :: u64

record unshield_preimage_update =
  up_id :: string
  up_railgun_transaction_index :: u64
  up_transaction_hash :: bytes32
  up_unshield_preimage :: bytes

fun as_chunks32 :: "bytes \<Rightarrow> bytes list" where
  "as_chunks32 bs = (if length bs < 32 then [] else take 32 bs # as_chunks32 (drop 32 bs))"

declare as_chunks32.simps [simp del]

definition fixed_bytes_vec :: "string \<Rightarrow> bytes \<Rightarrow> bytes32 list stored" where
  "fixed_bytes_vec field bs =
     (if length bs mod 32 \<noteq> 0 then Inl (HexLength field ((length bs div 32 + 1) * 32) (length bs))
      else traverse (exact_array field) (as_chunks32 bs))"

definition publication_order ::
  "(chain_key \<times> bytes32 \<times> i64) \<times> public_txid_row \<Rightarrow> i64 \<times> i64 \<times> bytes32 \<times> i64" where
  "publication_order = (\<lambda>((_, hash, index), r). (px_block_number r, px_first_log_index r, hash, index))"

definition ordered_public_txids ::
  "chain_key \<Rightarrow> i64 option \<Rightarrow> (i64 \<times> bytes32 \<times> i64) list \<Rightarrow> chain_db
   \<Rightarrow> ((chain_key \<times> bytes32 \<times> i64) \<times> public_txid_row) list" where
  "ordered_public_txids ck max_block omitted db =
     sort_key publication_order (select_where (\<lambda>(ck', hash, index) r.
       ck' = ck \<and> (case max_block of None \<Rightarrow> True | Some b \<Rightarrow> px_block_number r \<le> b)
       \<and> (px_block_number r, hash, index) \<notin> set omitted) (indexed_public_txid_rows db))"

definition unshield_columns :: "public_txid_row \<Rightarrow> bool \<times> bytes option" where
  "unshield_columns r =
     (let unshield_data =
            (if px_has_unshield r then Some (case px_unshield_preimage r of None \<Rightarrow> [] | Some bs \<Rightarrow> bs) else None)
      in case unshield_data of
           None \<Rightarrow> (False, None)
         | Some bs \<Rightarrow> if bs = [] then (True, None) else (True, Some bs))"

definition read_public_txid ::
  "nat \<times> (chain_key \<times> bytes32 \<times> i64) \<times> public_txid_row \<Rightarrow> stored_public_txid_row stored" where
  "read_public_txid = (\<lambda>(n, (_, hash, _), r).
     and_then (i64_to_u64 (int n) ''txid_index'') (\<lambda>index.
     and_then (i64_to_u64 (px_block_number r) ''block_number'') (\<lambda>number.
     and_then (i64_to_u64 (px_block_timestamp r) ''block_timestamp'') (\<lambda>timestamp.
     and_then (i64_to_u64 (px_first_log_index r) ''first_log_index'') (\<lambda>first_index.
     and_then (i64_to_u64 (px_last_log_index r) ''last_log_index'') (\<lambda>last_index.
     and_then (fixed_bytes_vec ''nullifiers'' (px_nullifiers r)) (\<lambda>nfs.
     and_then (fixed_bytes_vec ''commitments'' (px_commitments r)) (\<lambda>commitments.
     and_then (i64_to_u64 (px_utxo_tree_in r) ''utxo_tree_in'') (\<lambda>tree_in.
     and_then (i64_to_u64 (px_utxo_tree_out r) ''utxo_tree_out'') (\<lambda>tree_out.
     and_then (i64_to_u64 (px_utxo_batch_start_position_out r) ''utxo_batch_start_position_out'') (\<lambda>position_out.
       Inr \<lparr>txid_index = index, ptx_id = px_row_id r, ptx_block_number = number,
            ptx_block_timestamp = timestamp, ptx_block_hash = px_block_hash r, ptx_transaction_hash = hash,
            first_log_index = first_index, last_log_index = last_index, ptx_nullifiers = nfs,
            ptx_commitments = commitments, ptx_bound_params_hash = px_bound_params_hash r,
            ptx_has_unshield = fst (unshield_columns r), ptx_unshield_preimage = snd (unshield_columns r),
            ptx_utxo_tree_in = tree_in, ptx_utxo_tree_out = tree_out,
            ptx_utxo_batch_start_position_out = position_out\<rparr>)))))))))))"

definition omission_columns :: "public_txid_omission list \<Rightarrow> (i64 \<times> bytes32 \<times> i64) list stored" where
  "omission_columns omissions =
     and_then (traverse (\<lambda>o1. u64_to_i64 (om_block_number o1) ''omission_block_number'') omissions) (\<lambda>blocks.
     and_then (traverse (\<lambda>o1. u64_to_i64 (om_railgun_transaction_index o1)
         ''omission_railgun_transaction_index'') omissions) (\<lambda>indices.
       Inr (zip blocks (zip (map om_transaction_hash omissions) indices))))"

definition public_txid_rows_with_max_block_and_omissions ::
  "u8 \<Rightarrow> u64 \<Rightarrow> address \<Rightarrow> u64 \<Rightarrow> u64 \<Rightarrow> u64 option \<Rightarrow> public_txid_omission list \<Rightarrow> chain_db
   \<Rightarrow> stored_public_txid_row list stored" where
  "public_txid_rows_with_max_block_and_omissions chain_type chain_id railgun_contract offset limit max_block
       omissions db =
     and_then (chain_key_of chain_type chain_id railgun_contract) (\<lambda>ck.
     and_then (u64_to_i64 offset ''offset'') (\<lambda>skip.
     and_then (u64_to_i64 limit ''limit'') (\<lambda>count.
     and_then (case max_block of
                 None \<Rightarrow> Inr None
               | Some b \<Rightarrow> and_then (u64_to_i64 b ''max_block'') (\<lambda>b'. Inr (Some b'))) (\<lambda>through.
     and_then (omission_columns omissions) (\<lambda>omitted.
       traverse read_public_txid
         (take (nat count) (drop (nat skip)
           (List.enumerate 0 (ordered_public_txids ck through omitted db)))))))))"

definition public_txid_rows_with_max_block ::
  "u8 \<Rightarrow> u64 \<Rightarrow> address \<Rightarrow> u64 \<Rightarrow> u64 \<Rightarrow> u64 option \<Rightarrow> chain_db \<Rightarrow> stored_public_txid_row list stored" where
  "public_txid_rows_with_max_block chain_type chain_id railgun_contract offset limit max_block db =
     public_txid_rows_with_max_block_and_omissions chain_type chain_id railgun_contract offset limit max_block [] db"

definition public_txid_rows ::
  "u8 \<Rightarrow> u64 \<Rightarrow> address \<Rightarrow> u64 \<Rightarrow> u64 \<Rightarrow> chain_db \<Rightarrow> stored_public_txid_row list stored" where
  "public_txid_rows chain_type chain_id railgun_contract offset limit db =
     public_txid_rows_with_max_block chain_type chain_id railgun_contract offset limit None db"

definition public_txid_rows_through_block ::
  "u8 \<Rightarrow> u64 \<Rightarrow> address \<Rightarrow> u64 \<Rightarrow> u64 \<Rightarrow> u64 \<Rightarrow> chain_db \<Rightarrow> stored_public_txid_row list stored" where
  "public_txid_rows_through_block chain_type chain_id railgun_contract offset limit max_block db =
     public_txid_rows_with_max_block chain_type chain_id railgun_contract offset limit (Some max_block) db"

definition published_public_txid_rows_through_block ::
  "u8 \<Rightarrow> u64 \<Rightarrow> address \<Rightarrow> u64 \<Rightarrow> u64 \<Rightarrow> u64 \<Rightarrow> public_txid_omission list \<Rightarrow> chain_db
   \<Rightarrow> stored_public_txid_row list stored" where
  "published_public_txid_rows_through_block chain_type chain_id railgun_contract offset limit max_block omissions db =
     public_txid_rows_with_max_block_and_omissions chain_type chain_id railgun_contract offset limit
       (Some max_block) omissions db"

definition public_txid_compatibility_omission_match_count ::
  "u8 \<Rightarrow> u64 \<Rightarrow> address \<Rightarrow> public_txid_omission \<Rightarrow> chain_db \<Rightarrow> u64 stored" where
  "public_txid_compatibility_omission_match_count chain_type chain_id railgun_contract om db =
     and_then (chain_key_of chain_type chain_id railgun_contract) (\<lambda>ck.
     and_then (u64_to_i64 (om_block_number om) ''omission_block_number'') (\<lambda>number.
     and_then (u64_to_i64 (om_railgun_transaction_index om) ''omission_railgun_transaction_index'') (\<lambda>index.
       i64_to_u64 (int (length (select_where (\<lambda>(ck', hash, i) r.
           ck' = ck \<and> px_block_number r = number \<and> hash = om_transaction_hash om \<and> i = index)
         (indexed_public_txid_rows db)))) ''public_txid_compatibility_omission_match_count'')))"

definition missing_public_txid_unshield_preimages ::
  "u8 \<Rightarrow> u64 \<Rightarrow> address \<Rightarrow> u64 \<Rightarrow> u64 \<Rightarrow> chain_db \<Rightarrow> stored_missing_unshield_preimage list stored" where
  "missing_public_txid_unshield_preimages chain_type chain_id railgun_contract start_block end_block db =
     and_then (chain_key_of chain_type chain_id railgun_contract) (\<lambda>ck.
     and_then (u64_to_i64 start_block ''start_block'') (\<lambda>first_block.
     and_then (u64_to_i64 end_block ''end_block'') (\<lambda>final_block.
       traverse (\<lambda>((_, hash, i), r).
         and_then (i64_to_u64 (px_block_number r) ''block_number'') (\<lambda>number.
         and_then (i64_to_u64 i ''railgun_transaction_index'') (\<lambda>index.
         and_then (fixed_bytes_vec ''nullifiers'' (px_nullifiers r)) (\<lambda>nfs.
         and_then (fixed_bytes_vec ''commitments'' (px_commitments r)) (\<lambda>commitments.
         and_then (i64_to_u64 (px_utxo_tree_in r) ''utxo_tree_in'') (\<lambda>tree_in.
         and_then (i64_to_u64 (px_utxo_tree_out r) ''utxo_tree_out'') (\<lambda>tree_out.
         and_then (i64_to_u64 (px_utxo_batch_start_position_out r) ''utxo_batch_start_position_out'') (\<lambda>position_out.
           Inr \<lparr>mu_id = px_row_id r, mu_block_number = number, mu_railgun_transaction_index = index,
                mu_transaction_hash = hash, mu_nullifiers = nfs, mu_commitments = commitments,
                mu_bound_params_hash = px_bound_params_hash r, mu_utxo_tree_in = tree_in,
                mu_utxo_tree_out = tree_out, mu_utxo_batch_start_position_out = position_out\<rparr>))))))))
         (sort_key publication_order (select_where (\<lambda>(ck', _, _) r.
           ck' = ck \<and> first_block \<le> px_block_number r \<and> px_block_number r \<le> final_block
           \<and> px_has_unshield r \<and> px_unshield_preimage r = None) (indexed_public_txid_rows db))))))"

definition backfill_unshield_preimage ::
  "chain_key \<Rightarrow> (chain_key \<times> bytes32 \<times> i64, public_txid_row) tbl \<times> nat \<Rightarrow> unshield_preimage_update
   \<Rightarrow> ((chain_key \<times> bytes32 \<times> i64, public_txid_row) tbl \<times> nat) stored" where
  "backfill_unshield_preimage ck = (\<lambda>(t, updated) u.
     and_then (u64_to_i64 (up_railgun_transaction_index u) ''railgun_transaction_index'') (\<lambda>index.
       case update_where (\<lambda>(ck', hash, i) r. ck' = ck \<and> hash = up_transaction_hash u \<and> i = index
              \<and> px_row_id r = up_id u \<and> px_has_unshield r \<and> px_unshield_preimage r = None)
              (\<lambda>r. r\<lparr>px_unshield_preimage := Some (up_unshield_preimage u)\<rparr>) t of
         (t', n) \<Rightarrow> Inr (t', updated + n)))"

definition backfill_public_txid_unshield_preimages ::
  "u8 \<Rightarrow> u64 \<Rightarrow> address \<Rightarrow> unshield_preimage_update list \<Rightarrow> chain_db \<Rightarrow> (nat \<times> chain_db) stored" where
  "backfill_public_txid_unshield_preimages chain_type chain_id railgun_contract updates db =
     and_then (chain_key_of chain_type chain_id railgun_contract) (\<lambda>ck.
     and_then (try_fold (backfill_unshield_preimage ck) (indexed_public_txid_rows db, 0) updates) (\<lambda>(t, updated).
       Inr (updated, db\<lparr>indexed_public_txid_rows := t\<rparr>)))"

section \<open>Wallet-scan rows\<close>

definition indexed_source_row :: "('z log_columns_scheme) \<Rightarrow> stored_log_source_row stored" where
  "indexed_source_row r =
     and_then (i64_to_u64 (lc_block_number r) ''block_number'') (\<lambda>number.
     and_then (case lc_block_timestamp r of
                 None \<Rightarrow> Inr None
               | Some t \<Rightarrow> and_then (i64_to_u64 t ''block_timestamp'') (\<lambda>t'. Inr (Some t'))) (\<lambda>timestamp.
     and_then (i64_to_u64 (lc_log_index r) ''log_index'') (\<lambda>index.
       Inr \<lparr>src_block_number = number, src_block_timestamp = timestamp, src_block_hash = lc_block_hash r,
            src_transaction_hash = lc_transaction_hash r, src_log_index = index\<rparr>)))"

text \<open>The rows of a chain in a range of blocks, and a log table in the order of its query.\<close>

definition rows_between ::
  "chain_key \<Rightarrow> i64 \<Rightarrow> i64 \<Rightarrow> (chain_key \<times> 'k, 'z log_columns_scheme) tbl
   \<Rightarrow> (chain_key \<times> 'k, 'z log_columns_scheme) tbl" where
  "rows_between ck first_block final_block t =
     select_where (\<lambda>(ck', _) r. ck' = ck \<and> first_block \<le> lc_block_number r \<and> lc_block_number r \<le> final_block) t"

definition scan_order ::
  "(chain_key \<times> i64 \<times> 'k :: linorder) \<times> 'z log_columns_scheme \<Rightarrow> i64 \<times> i64 \<times> i64 \<times> 'k" where
  "scan_order = (\<lambda>((_, tree, item), r). (lc_block_number r, lc_log_index r, tree, item))"

definition scan_rows ::
  "chain_key \<Rightarrow> i64 \<Rightarrow> i64 \<Rightarrow> (chain_key \<times> i64 \<times> 'k :: linorder, 'z log_columns_scheme) tbl
   \<Rightarrow> ((chain_key \<times> i64 \<times> 'k) \<times> 'z log_columns_scheme) list" where
  "scan_rows ck first_block final_block t = sort_key scan_order (rows_between ck first_block final_block t)"

definition with_ciphertext :: "(tree_key, indexed_transact_row) tbl \<Rightarrow> (tree_key, indexed_transact_row) tbl" where
  "with_ciphertext t = select_where (\<lambda>_ r. xt_ciphertext r \<noteq> None) t"

definition read_transact :: "tree_key \<times> indexed_transact_row \<Rightarrow> stored_transact_commitment_row stored" where
  "read_transact = (\<lambda>((_, tree, position), r).
     and_then (indexed_source_row r) (\<lambda>source.
     and_then (i64_to_u32 tree ''tree_number'') (\<lambda>tree_number.
     and_then (i64_to_u64 position ''tree_position'') (\<lambda>tree_position.
       Inr \<lparr>wt_source = source, wt_tree_number = tree_number, wt_tree_position = tree_position,
            wt_commitment_hash = xt_commitment_hash r, wt_ciphertext = the (xt_ciphertext r)\<rparr>))))"

definition read_shield :: "tree_key \<times> indexed_shield_row \<Rightarrow> stored_shield_commitment_row stored" where
  "read_shield = (\<lambda>((_, tree, position), r).
     and_then (indexed_source_row r) (\<lambda>source.
     and_then (i64_to_u32 tree ''tree_number'') (\<lambda>tree_number.
     and_then (i64_to_u64 position ''tree_position'') (\<lambda>tree_position.
       Inr \<lparr>wsh_source = source, wsh_tree_number = tree_number, wsh_tree_position = tree_position,
            wsh_commitment_hash = xs_commitment_hash r, wsh_preimage = xs_preimage r,
            wsh_shield_ciphertext = xs_shield_ciphertext r\<rparr>))))"

definition read_nullifier :: "(chain_key \<times> i64 \<times> bytes32) \<times> log_columns \<Rightarrow> stored_nullifier_row stored" where
  "read_nullifier = (\<lambda>((_, tree, nullifier), r).
     and_then (indexed_source_row r) (\<lambda>source.
     and_then (i64_to_u32 tree ''tree_number'') (\<lambda>tree_number.
       Inr \<lparr>wn_source = source, wn_tree_number = tree_number, wn_nullifier = nullifier\<rparr>)))"

definition read_encrypted :: "tree_key \<times> indexed_encrypted_row \<Rightarrow> stored_legacy_encrypted_commitment_row stored" where
  "read_encrypted = (\<lambda>((_, tree, position), r).
     and_then (indexed_source_row r) (\<lambda>source.
     and_then (i64_to_u32 tree ''tree_number'') (\<lambda>tree_number.
     and_then (i64_to_u64 position ''tree_position'') (\<lambda>tree_position.
       Inr \<lparr>we_source = source, we_tree_number = tree_number, we_tree_position = tree_position,
            we_commitment_hash = xe_commitment_hash r, we_ciphertext = xe_ciphertext r\<rparr>))))"

definition read_generated :: "tree_key \<times> indexed_generated_row \<Rightarrow> stored_legacy_generated_commitment_row stored" where
  "read_generated = (\<lambda>((_, tree, position), r).
     and_then (indexed_source_row r) (\<lambda>source.
     and_then (i64_to_u32 tree ''tree_number'') (\<lambda>tree_number.
     and_then (i64_to_u64 position ''tree_position'') (\<lambda>tree_position.
     and_then (exact_array ''encrypted_random'' (xg_encrypted_random r)) (\<lambda>random.
       Inr \<lparr>wg_source = source, wg_tree_number = tree_number, wg_tree_position = tree_position,
            wg_commitment_hash = xg_commitment_hash r, wg_preimage = xg_preimage r,
            wg_encrypted_random = random\<rparr>)))))"

definition wallet_scan_rows ::
  "u8 \<Rightarrow> u64 \<Rightarrow> address \<Rightarrow> u64 \<Rightarrow> u64 \<Rightarrow> chain_db \<Rightarrow> stored_wallet_scan_rows stored" where
  "wallet_scan_rows chain_type chain_id railgun_contract start_block end_block db =
     and_then (chain_key_of chain_type chain_id railgun_contract) (\<lambda>ck.
     and_then (u64_to_i64 start_block ''start_block'') (\<lambda>a.
     and_then (u64_to_i64 end_block ''end_block'') (\<lambda>b.
     and_then (traverse read_transact (scan_rows ck a b (with_ciphertext (indexed_transact_commitments db))))
       (\<lambda>transacts.
     and_then (traverse read_shield (scan_rows ck a b (indexed_shield_commitments db))) (\<lambda>shields.
     and_then (traverse read_nullifier (scan_rows ck a b (indexed_nullifiers db))) (\<lambda>nfs.
     and_then (traverse read_encrypted (scan_rows ck a b (indexed_legacy_encrypted_commitments db))) (\<lambda>encrypted.
     and_then (traverse read_generated (scan_rows ck a b (indexed_legacy_generated_commitments db))) (\<lambda>generated.
       Inr \<lparr>ws_transact_commitments = transacts, ws_shield_commitments = shields, ws_nullifiers = nfs,
            ws_legacy_encrypted_commitments = encrypted, ws_legacy_generated_commitments = generated\<rparr>))))))))"

text \<open>The \<open>UNION ALL\<close> of the sources of all wallet-scan rows in a range of blocks.\<close>

definition wallet_scan_sources :: "chain_key \<Rightarrow> i64 \<Rightarrow> i64 \<Rightarrow> chain_db \<Rightarrow> log_columns list" where
  "wallet_scan_sources ck a b db =
     map (log_columns.truncate \<circ> snd) (rows_between ck a b (with_ciphertext (indexed_transact_commitments db)))
     @ map (log_columns.truncate \<circ> snd) (rows_between ck a b (indexed_shield_commitments db))
     @ map (log_columns.truncate \<circ> snd) (rows_between ck a b (indexed_nullifiers db))
     @ map (log_columns.truncate \<circ> snd) (rows_between ck a b (indexed_legacy_encrypted_commitments db))
     @ map (log_columns.truncate \<circ> snd) (rows_between ck a b (indexed_legacy_generated_commitments db))"

record stored_block_range =
  rg_start_block :: u64
  rg_end_block :: u64

definition bucket_ranges :: "i64 \<Rightarrow> i64 \<Rightarrow> i64 list \<Rightarrow> (i64 \<times> i64) list" where
  "bucket_ranges start span blocks =
     map (\<lambda>k. let bs = filter (\<lambda>b. (b - start) div span = k) blocks in (Min (set bs), Max (set bs)))
       (sort (remdups (map (\<lambda>b. (b - start) div span) blocks)))"

definition wallet_scan_populated_block_ranges ::
  "u8 \<Rightarrow> u64 \<Rightarrow> address \<Rightarrow> u64 \<Rightarrow> u64 \<Rightarrow> u64 \<Rightarrow> chain_db \<Rightarrow> stored_block_range list stored" where
  "wallet_scan_populated_block_ranges chain_type chain_id railgun_contract start_block end_block bucket_span db =
     (if end_block < start_block then Inr []
      else if bucket_span = 0 then Inl (StoreIntegerOutOfRange ''bucket_span'' (show_nat 0))
      else
        and_then (chain_key_of chain_type chain_id railgun_contract) (\<lambda>ck.
        and_then (u64_to_i64 start_block ''start_block'') (\<lambda>a.
        and_then (u64_to_i64 end_block ''end_block'') (\<lambda>b.
        and_then (u64_to_i64 bucket_span ''bucket_span'') (\<lambda>span.
          traverse (\<lambda>(x, y).
            and_then (i64_to_u64 x ''start_block'') (\<lambda>x'.
            and_then (i64_to_u64 y ''end_block'') (\<lambda>y'.
              Inr \<lparr>rg_start_block = x', rg_end_block = y'\<rparr>)))
            (bucket_ranges a span (map lc_block_number (wallet_scan_sources ck a b db))))))))"

section \<open>Missing timestamps\<close>

record missing_timestamp_block =
  mt_block_number :: u64
  mt_block_hash :: bytes32
  mt_missing_rows :: u64

definition missing_sources :: "chain_key \<Rightarrow> i64 \<Rightarrow> i64 \<Rightarrow> chain_db \<Rightarrow> log_columns list" where
  "missing_sources ck a b db = filter (\<lambda>c. lc_block_timestamp c = None) (wallet_scan_sources ck a b db)"

definition missing_wallet_scan_timestamp_blocks ::
  "u8 \<Rightarrow> u64 \<Rightarrow> address \<Rightarrow> u64 \<Rightarrow> u64 \<Rightarrow> u64 \<Rightarrow> chain_db \<Rightarrow> missing_timestamp_block list stored" where
  "missing_wallet_scan_timestamp_blocks chain_type chain_id railgun_contract start_block end_block limit db =
     (if end_block < start_block then Inr []
      else if limit = 0 then Inl (StoreIntegerOutOfRange ''limit'' (show_nat 0))
      else
        and_then (chain_key_of chain_type chain_id railgun_contract) (\<lambda>ck.
        and_then (u64_to_i64 start_block ''start_block'') (\<lambda>a.
        and_then (u64_to_i64 end_block ''end_block'') (\<lambda>b.
        and_then (u64_to_i64 limit ''limit'') (\<lambda>count.
          let sources = map (\<lambda>c. (lc_block_number c, lc_block_hash c)) (missing_sources ck a b db)
          in traverse (\<lambda>(number, hash).
               and_then (i64_to_u64 number ''block_number'') (\<lambda>number'.
               and_then (i64_to_u64 (int (count_list sources (number, hash))) ''missing_rows'') (\<lambda>rows.
                 Inr \<lparr>mt_block_number = number', mt_block_hash = hash, mt_missing_rows = rows\<rparr>)))
               (take (nat count) (sort_key fst (remdups sources))))))))"

definition count_missing_wallet_scan_timestamps ::
  "u8 \<Rightarrow> u64 \<Rightarrow> address \<Rightarrow> u64 \<Rightarrow> u64 \<Rightarrow> chain_db \<Rightarrow> u64 stored" where
  "count_missing_wallet_scan_timestamps chain_type chain_id railgun_contract start_block end_block db =
     (if end_block < start_block then Inr 0
      else
        and_then (chain_key_of chain_type chain_id railgun_contract) (\<lambda>ck.
        and_then (u64_to_i64 start_block ''start_block'') (\<lambda>a.
        and_then (u64_to_i64 end_block ''end_block'') (\<lambda>b.
          i64_to_u64 (int (length (missing_sources ck a b db))) ''missing_wallet_scan_timestamps''))))"

text \<open>The timestamp on which all sources of a block agree: \<open>GROUP BY .. HAVING MIN(..) = MAX(..)\<close>.\<close>

definition agreed_timestamp :: "((i64 \<times> bytes32) \<times> i64) list \<Rightarrow> i64 \<times> bytes32 \<Rightarrow> i64 option" where
  "agreed_timestamp sources block =
     (case map snd (filter (\<lambda>(k, _). k = block) sources) of
        [] \<Rightarrow> None
      | t # ts \<Rightarrow> if \<forall>x \<in> set ts. x = t then Some t else None)"

definition set_timestamps ::
  "chain_key \<Rightarrow> (i64 \<times> bytes32 \<Rightarrow> i64 option) \<Rightarrow> ('z log_columns_scheme \<Rightarrow> bool)
   \<Rightarrow> (chain_key \<times> 'k, 'z log_columns_scheme) tbl \<Rightarrow> (chain_key \<times> 'k, 'z log_columns_scheme) tbl \<times> nat" where
  "set_timestamps ck stamp extra t =
     update_where (\<lambda>(ck', _) r. ck' = ck \<and> stamp (lc_block_number r, lc_block_hash r) \<noteq> None
         \<and> lc_block_timestamp r = None \<and> extra r)
       (\<lambda>r. r\<lparr>lc_block_timestamp := stamp (lc_block_number r, lc_block_hash r)\<rparr>) t"

text \<open>The five updates, each with the timestamps that the sources give at that point.\<close>

definition set_all_timestamps ::
  "chain_key \<Rightarrow> (chain_db \<Rightarrow> i64 \<times> bytes32 \<Rightarrow> i64 option) \<Rightarrow> chain_db \<Rightarrow> nat \<times> chain_db" where
  "set_all_timestamps ck stamp db =
     (let (t1, n1) = set_timestamps ck (stamp db) (\<lambda>r. xt_ciphertext r \<noteq> None) (indexed_transact_commitments db);
          db1 = db\<lparr>indexed_transact_commitments := t1\<rparr>;
          (t2, n2) = set_timestamps ck (stamp db1) (\<lambda>_. True) (indexed_shield_commitments db1);
          db2 = db1\<lparr>indexed_shield_commitments := t2\<rparr>;
          (t3, n3) = set_timestamps ck (stamp db2) (\<lambda>_. True) (indexed_nullifiers db2);
          db3 = db2\<lparr>indexed_nullifiers := t3\<rparr>;
          (t4, n4) = set_timestamps ck (stamp db3) (\<lambda>_. True) (indexed_legacy_encrypted_commitments db3);
          db4 = db3\<lparr>indexed_legacy_encrypted_commitments := t4\<rparr>;
          (t5, n5) = set_timestamps ck (stamp db4) (\<lambda>_. True) (indexed_legacy_generated_commitments db4)
      in (n1 + n2 + n3 + n4 + n5, db4\<lparr>indexed_legacy_generated_commitments := t5\<rparr>))"

record timestamp_backfill =
  tb_block_number :: u64
  tb_block_hash :: bytes32
  tb_block_timestamp :: u64

definition backfill_wallet_scan_block_timestamps ::
  "u8 \<Rightarrow> u64 \<Rightarrow> address \<Rightarrow> timestamp_backfill list \<Rightarrow> chain_db \<Rightarrow> (nat \<times> chain_db) stored" where
  "backfill_wallet_scan_block_timestamps chain_type chain_id railgun_contract updates db =
     (if updates = [] then Inr (0, db)
      else
        and_then (chain_key_of chain_type chain_id railgun_contract) (\<lambda>ck.
        and_then (traverse (\<lambda>u. u64_to_i64 (tb_block_number u) ''block_number'') updates) (\<lambda>numbers.
        and_then (traverse (\<lambda>u. u64_to_i64 (tb_block_timestamp u) ''block_timestamp'') updates) (\<lambda>timestamps.
          Inr (set_all_timestamps ck
            (\<lambda>_. agreed_timestamp (zip (zip numbers (map tb_block_hash updates)) timestamps)) db)))))"

definition backfill_wallet_scan_block_timestamp ::
  "u8 \<Rightarrow> u64 \<Rightarrow> address \<Rightarrow> u64 \<Rightarrow> bytes \<Rightarrow> u64 \<Rightarrow> chain_db \<Rightarrow> (nat \<times> chain_db) stored" where
  "backfill_wallet_scan_block_timestamp chain_type chain_id railgun_contract number hash timestamp db =
     and_then (exact_array ''block_hash'' hash) (\<lambda>hash'.
       backfill_wallet_scan_block_timestamps chain_type chain_id railgun_contract
         [\<lparr>tb_block_number = number, tb_block_hash = hash', tb_block_timestamp = timestamp\<rparr>] db)"

definition stamped :: "'z log_columns_scheme list \<Rightarrow> ((i64 \<times> bytes32) \<times> i64) list" where
  "stamped rows = List.map_filter (\<lambda>r. map_option (Pair (lc_block_number r, lc_block_hash r)) (lc_block_timestamp r)) rows"

definition timestamp_sources :: "chain_key \<Rightarrow> i64 \<Rightarrow> i64 \<Rightarrow> chain_db \<Rightarrow> ((i64 \<times> bytes32) \<times> i64) list" where
  "timestamp_sources ck a b db =
     map (\<lambda>(_, r). ((px_block_number r, px_block_hash r), px_block_timestamp r))
       (select_where (\<lambda>(ck', _) r. ck' = ck \<and> a \<le> px_block_number r \<and> px_block_number r \<le> b)
         (indexed_public_txid_rows db))
     @ List.map_filter (\<lambda>(_, r). map_option (Pair (pr_block_number r, pr_block_hash r)) (pr_block_timestamp r))
         (select_where (\<lambda>(ck', _) r. ck' = ck \<and> a \<le> pr_block_number r \<and> pr_block_number r \<le> b)
           (indexed_public_transactions db))
     @ stamped (map snd (rows_between ck a b (indexed_transact_commitments db)))
     @ stamped (map snd (rows_between ck a b (indexed_shield_commitments db)))
     @ stamped (map snd (rows_between ck a b (indexed_nullifiers db)))
     @ stamped (map snd (rows_between ck a b (indexed_legacy_encrypted_commitments db)))
     @ stamped (map snd (rows_between ck a b (indexed_legacy_generated_commitments db)))"

definition backfill_wallet_scan_timestamps_from_local_sources ::
  "u8 \<Rightarrow> u64 \<Rightarrow> address \<Rightarrow> u64 \<Rightarrow> u64 \<Rightarrow> chain_db \<Rightarrow> (nat \<times> chain_db) stored" where
  "backfill_wallet_scan_timestamps_from_local_sources chain_type chain_id railgun_contract start_block end_block db =
     (if end_block < start_block then Inr (0, db)
      else
        and_then (chain_key_of chain_type chain_id railgun_contract) (\<lambda>ck.
        and_then (u64_to_i64 start_block ''start_block'') (\<lambda>a.
        and_then (u64_to_i64 end_block ''end_block'') (\<lambda>b.
          Inr (set_all_timestamps ck (\<lambda>db'. agreed_timestamp (timestamp_sources ck a b db')) db)))))"

section \<open>Commitments of the trees\<close>

record commitment_columns =
  cc_family :: string
  cc_block_number :: i64
  cc_tree_number :: i64
  cc_tree_position :: i64
  cc_commitment_hash :: bytes32

definition family_columns ::
  "chain_key \<Rightarrow> i64 option \<Rightarrow> string \<Rightarrow> ('z log_columns_scheme \<Rightarrow> bytes32) \<Rightarrow> (tree_key, 'z log_columns_scheme) tbl
   \<Rightarrow> commitment_columns list" where
  "family_columns ck through family hash t =
     map (\<lambda>((_, tree, position), r). \<lparr>cc_family = family, cc_block_number = lc_block_number r,
            cc_tree_number = tree, cc_tree_position = position, cc_commitment_hash = hash r\<rparr>)
       (select_where (\<lambda>(ck', _) r. ck' = ck
          \<and> (case through of None \<Rightarrow> True | Some b \<Rightarrow> lc_block_number r \<le> b)) t)"

definition all_commitments :: "chain_key \<Rightarrow> i64 option \<Rightarrow> chain_db \<Rightarrow> commitment_columns list" where
  "all_commitments ck through db =
     family_columns ck through ''transact'' xt_commitment_hash (indexed_transact_commitments db)
     @ family_columns ck through ''shield'' xs_commitment_hash (indexed_shield_commitments db)
     @ family_columns ck through ''legacy_encrypted'' xe_commitment_hash (indexed_legacy_encrypted_commitments db)
     @ family_columns ck through ''legacy_generated'' xg_commitment_hash (indexed_legacy_generated_commitments db)"

definition store_global_tree_position :: "u64 \<Rightarrow> u32 \<Rightarrow> u64 \<Rightarrow> u64 stored" where
  "store_global_tree_position L tree_number tree_position =
     ok_or (StoreIntegerOutOfRange ''global_tree_position''
         (''tree='' @ show_nat (unat tree_number) @ '' position='' @ show_nat (unat tree_position)))
       (Option.bind (checked_mul (ucast tree_number) L) (\<lambda>tree_offset. checked_add tree_offset tree_position))"

definition parse_commitment_family :: "string \<Rightarrow> stored_commitment_family stored" where
  "parse_commitment_family s =
     (if s = ''transact'' then Inr TransactRow
      else if s = ''shield'' then Inr ShieldRow
      else if s = ''legacy_encrypted'' then Inr LegacyEncryptedRow
      else if s = ''legacy_generated'' then Inr LegacyGeneratedRow
      else Inl (InvalidCommitmentFamily s))"

definition column_position :: "i64 \<Rightarrow> commitment_columns \<Rightarrow> i64" where
  "column_position leaf_count c = cc_tree_number c * leaf_count + cc_tree_position c"

definition read_commitment :: "u64 \<Rightarrow> commitment_columns \<Rightarrow> stored_commitment_row stored" where
  "read_commitment L c =
     and_then (i64_to_u32 (cc_tree_number c) ''tree_number'') (\<lambda>tree_number.
     and_then (i64_to_u64 (cc_tree_position c) ''tree_position'') (\<lambda>tree_position.
     and_then (store_global_tree_position L tree_number tree_position) (\<lambda>global_position.
     and_then (i64_to_u64 (cc_block_number c) ''block_number'') (\<lambda>number.
     and_then (parse_commitment_family (cc_family c)) (\<lambda>family.
       Inr \<lparr>cr_global_position = global_position, cr_block_number = number, cr_family = family,
            cr_tree_number = tree_number, cr_tree_position = tree_position,
            cr_commitment_hash = cc_commitment_hash c\<rparr>)))))"

definition optional_block :: "u64 option \<Rightarrow> string \<Rightarrow> i64 option stored" where
  "optional_block b field =
     (case b of None \<Rightarrow> Inr None | Some x \<Rightarrow> and_then (u64_to_i64 x field) (\<lambda>y. Inr (Some y)))"

definition commitment_rows ::
  "u64 \<Rightarrow> u8 \<Rightarrow> u64 \<Rightarrow> address \<Rightarrow> u64 \<Rightarrow> u64 \<Rightarrow> u64 option \<Rightarrow> chain_db \<Rightarrow> stored_commitment_row list stored" where
  "commitment_rows L chain_type chain_id railgun_contract start_global end_global through db =
     and_then (chain_key_of chain_type chain_id railgun_contract) (\<lambda>ck.
     and_then (u64_to_i64 start_global ''start_global_position'') (\<lambda>a.
     and_then (u64_to_i64 end_global ''end_global_position'') (\<lambda>b.
     and_then (u64_to_i64 L ''tree_leaf_count'') (\<lambda>leaf_count.
     and_then (optional_block through ''indexed_through_block'') (\<lambda>through'.
       let candidates = all_commitments ck through' db
       in and_then (ensure (\<forall>c \<in> set candidates. bigint_ok (cc_tree_number c * leaf_count)
              \<and> bigint_ok (column_position leaf_count c)) (Sqlx NumericOutOfRange)) (\<lambda>_.
            traverse (read_commitment L)
              (sort_key (\<lambda>c. (column_position leaf_count c, cc_block_number c, cc_family c))
                (filter (\<lambda>c. a \<le> column_position leaf_count c \<and> column_position leaf_count c \<le> b) candidates))))))))"

record stored_commitment_tree_summary =
  ts_tree_number :: u32
  ts_leaf_count :: u64
  ts_last_indexed_block :: u64

definition commitment_tree_summaries ::
  "u8 \<Rightarrow> u64 \<Rightarrow> address \<Rightarrow> u64 option \<Rightarrow> chain_db \<Rightarrow> stored_commitment_tree_summary list stored" where
  "commitment_tree_summaries chain_type chain_id railgun_contract through db =
     and_then (chain_key_of chain_type chain_id railgun_contract) (\<lambda>ck.
     and_then (optional_block through ''indexed_through_block'') (\<lambda>through'.
       let rows = all_commitments ck through' db
       in and_then (ensure (\<forall>c \<in> set rows. bigint_ok (cc_tree_position c + 1)) (Sqlx NumericOutOfRange)) (\<lambda>_.
            traverse (\<lambda>tree.
              let members = filter (\<lambda>c. cc_tree_number c = tree) rows in
              and_then (i64_to_u32 tree ''tree_number'') (\<lambda>tree_number.
              and_then (i64_to_u64 (Max (set (map cc_tree_position members)) + 1) ''leaf_count'') (\<lambda>leaf_count.
              and_then (i64_to_u64 (Max (set (map cc_block_number members))) ''last_indexed_block'') (\<lambda>last_block.
                Inr \<lparr>ts_tree_number = tree_number, ts_leaf_count = leaf_count,
                     ts_last_indexed_block = last_block\<rparr>))))
              (sort (remdups (map cc_tree_number rows))))))"

definition place_leaf ::
  "stored_commitment_tree_summary \<Rightarrow> bytes32 list \<times> bool list \<Rightarrow> stored_commitment_row
   \<Rightarrow> (bytes32 list \<times> bool list) stored" where
  "place_leaf summary = (\<lambda>(leaves, seen) row.
     if cr_tree_number row \<noteq> ts_tree_number summary \<or> ts_leaf_count summary \<le> cr_tree_position row
     then Inl (CommitmentTreePositionOutOfRange (ts_tree_number summary) (cr_tree_position row)
            (ts_leaf_count summary))
     else
       let index = unat (cr_tree_position row) in
       if seen ! index
       then Inl (DuplicateCommitmentTreePosition (ts_tree_number summary) (cr_tree_position row))
       else Inr (leaves[index := cr_commitment_hash row], seen[index := True]))"

definition commitment_tree_checkpoint ::
  "u64 \<Rightarrow> bytes32 \<Rightarrow> u8 \<Rightarrow> u64 \<Rightarrow> address \<Rightarrow> stored_commitment_tree_summary \<Rightarrow> u64 option \<Rightarrow> chain_db
   \<Rightarrow> stored_commitment_tree_checkpoint stored" where
  "commitment_tree_checkpoint L zero chain_type chain_id railgun_contract summary through db =
     and_then (ok_or (StoreIntegerOutOfRange ''leaf_count'' (show_nat (unat (ts_leaf_count summary))))
       (checked_sub (ts_leaf_count summary) 1)) (\<lambda>end_position.
     and_then (store_global_tree_position L (ts_tree_number summary) 0) (\<lambda>start_global.
     and_then (store_global_tree_position L (ts_tree_number summary) end_position) (\<lambda>end_global.
     and_then (commitment_rows L chain_type chain_id railgun_contract start_global end_global through db) (\<lambda>rows.
     let leaf_count = unat (ts_leaf_count summary) in
     and_then (try_fold (place_leaf summary) (replicate leaf_count zero, replicate leaf_count False) rows)
       (\<lambda>(leaves, _).
         Inr \<lparr>ck_tree_number = ts_tree_number summary, ck_leaf_count = ts_leaf_count summary,
              ck_last_indexed_block = ts_last_indexed_block summary, ck_leaves = leaves\<rparr>)))))"

end
