(* ===== verification/Chain_Store_Facts.thy ===== *)
theory Chain_Store_Facts
  imports Chain_Readers
begin

text \<open>
  What the transactions on the chain-indexed tables do.

  \<^item> The content of a chain is a set of rows with keys, \<open>view_rows\<close>: every loop of
    \<open>persist_indexed_log_batch\<close> puts its rows there, one after the other, and nothing anywhere else; a
    rewind removes those from a block on.
  \<^item> The store numbers leaves the way \<open>chain_logs.rs\<close> does: its conversion satisfies the contract
    \<open>leaf_numbering\<close>.
\<close>

section \<open>The content of a chain\<close>

datatype index_row =
    TransactIx i64 i64 indexed_transact_row
  | ShieldIx i64 i64 indexed_shield_row
  | NullifierIx i64 bytes32 log_columns
  | EncryptedIx i64 i64 indexed_encrypted_row
  | GeneratedIx i64 i64 indexed_generated_row
  | TxidIx bytes32 i64 public_txid_row

datatype index_key =
    TransactKey i64 i64
  | ShieldKey i64 i64
  | NullifierKey i64 bytes32
  | EncryptedKey i64 i64
  | GeneratedKey i64 i64
  | TxidKey bytes32 i64

fun ix_key :: "index_row \<Rightarrow> index_key" where
  "ix_key (TransactIx t p _) = TransactKey t p"
| "ix_key (ShieldIx t p _) = ShieldKey t p"
| "ix_key (NullifierIx t n _) = NullifierKey t n"
| "ix_key (EncryptedIx t p _) = EncryptedKey t p"
| "ix_key (GeneratedIx t p _) = GeneratedKey t p"
| "ix_key (TxidIx h i _) = TxidKey h i"

fun ix_block :: "index_row \<Rightarrow> i64" where
  "ix_block (TransactIx _ _ r) = lc_block_number r"
| "ix_block (ShieldIx _ _ r) = lc_block_number r"
| "ix_block (NullifierIx _ _ r) = lc_block_number r"
| "ix_block (EncryptedIx _ _ r) = lc_block_number r"
| "ix_block (GeneratedIx _ _ r) = lc_block_number r"
| "ix_block (TxidIx _ _ r) = px_block_number r"

fun row_stored :: "chain_key \<Rightarrow> chain_db \<Rightarrow> index_row \<Rightarrow> bool" where
  "row_stored ck db (TransactIx t p r) \<longleftrightarrow> map_of (indexed_transact_commitments db) (ck, t, p) = Some r"
| "row_stored ck db (ShieldIx t p r) \<longleftrightarrow> map_of (indexed_shield_commitments db) (ck, t, p) = Some r"
| "row_stored ck db (NullifierIx t n r) \<longleftrightarrow> map_of (indexed_nullifiers db) (ck, t, n) = Some r"
| "row_stored ck db (EncryptedIx t p r) \<longleftrightarrow> map_of (indexed_legacy_encrypted_commitments db) (ck, t, p) = Some r"
| "row_stored ck db (GeneratedIx t p r) \<longleftrightarrow> map_of (indexed_legacy_generated_commitments db) (ck, t, p) = Some r"
| "row_stored ck db (TxidIx h i r) \<longleftrightarrow> map_of (indexed_public_txid_rows db) (ck, h, i) = Some r"

definition view_rows :: "chain_key \<Rightarrow> chain_db \<Rightarrow> index_row set" where
  "view_rows ck db = {x. row_stored ck db x}"

definition put_row :: "index_row \<Rightarrow> index_row set \<Rightarrow> index_row set" where
  "put_row x rows = insert x {y \<in> rows. ix_key y \<noteq> ix_key x}"

text \<open>The columns of a source, the rows of the items of a batch and the whole batch.\<close>

definition source_columns :: "indexed_log_source \<Rightarrow> log_columns" where
  "source_columns s =
     \<lparr>lc_block_number = int (unat (block_number s)),
      lc_block_timestamp = map_option (\<lambda>t. int (unat t)) (block_timestamp s),
      lc_block_hash = block_hash s, lc_transaction_hash = transaction_hash s,
      lc_log_index = int (unat (log_index s))\<rparr>"

lemma log_columns_of_iff:
  "log_columns_of s = Inr c \<longleftrightarrow>
     c = source_columns s \<and> unat (block_number s) < 2 ^ 63 \<and> unat (log_index s) < 2 ^ 63
     \<and> (\<exists>t. block_timestamp s = Some t \<and> unat t < 2 ^ 63)"
  by (cases "block_timestamp s")
     (auto simp: log_columns_of_def source_block_timestamp_i64_def source_columns_def result_simps)

lemma check_chain_type_iff [result_simps]: "check_chain_type t = Inr x \<longleftrightarrow> t = 0"
  by (simp add: check_chain_type_def result_simps)

definition transact_row_of :: "indexed_transact_commitment \<Rightarrow> indexed_transact_row" where
  "transact_row_of i = log_columns.extend (source_columns (tc_source i))
     (indexed_transact_row.fields (tc_hash i) (tc_ciphertext i))"

definition shield_row_of :: "railgun_lib \<Rightarrow> indexed_shield_commitment \<Rightarrow> indexed_shield_row" where
  "shield_row_of R i = log_columns.extend (source_columns (sc_source i))
     (indexed_shield_row.fields (preimage_hash R (sc_preimage i)) (preimage_abi_encode R (sc_preimage i))
       (sc_shield_ciphertext i))"

definition encrypted_row_of :: "indexed_legacy_encrypted_commitment \<Rightarrow> indexed_encrypted_row" where
  "encrypted_row_of i = log_columns.extend (source_columns (le_source i))
     (indexed_encrypted_row.fields (le_hash i) (le_ciphertext i))"

definition generated_row_of ::
  "railgun_lib \<Rightarrow> (legacy_commitment_preimage \<Rightarrow> bytes) \<Rightarrow> indexed_legacy_generated_commitment
   \<Rightarrow> indexed_generated_row" where
  "generated_row_of R enc i = log_columns.extend (source_columns (lg_source i))
     (indexed_generated_row.fields (legacy_preimage_hash R (lg_preimage i)) (enc (lg_preimage i))
       (be_bytes (fst (lg_encrypted_random i)) @ be_bytes (snd (lg_encrypted_random i))))"

definition txid_row_of :: "indexed_public_transaction \<Rightarrow> public_txid_row" where
  "txid_row_of i =
     \<lparr>px_block_number = int (unat (block_number (pt_source i))),
      px_block_timestamp = int (unat (pt_block_timestamp i)), px_block_hash = block_hash (pt_source i),
      px_first_log_index = int (unat (pt_first_log_index i)), px_last_log_index = int (unat (pt_last_log_index i)),
      px_row_id = pt_id i, px_nullifiers = flatten_fixed_bytes (pt_nullifiers i),
      px_commitments = flatten_fixed_bytes (pt_commitments i), px_bound_params_hash = pt_bound_params_hash i,
      px_has_unshield = pt_has_unshield i, px_unshield_preimage = pt_unshield_preimage i,
      px_utxo_tree_in = int (unat (pt_utxo_tree_in i)), px_utxo_tree_out = int (unat (pt_utxo_tree_out i)),
      px_utxo_batch_start_position_out = int (unat (pt_utxo_batch_start_position_out i))\<rparr>"

abbreviation tree_key_of :: "chain_key \<Rightarrow> u32 \<Rightarrow> u64 \<Rightarrow> tree_key" where
  "tree_key_of ck t p \<equiv> (ck, int (unat t), int (unat p))"

lemma upsert_lookup [simp]: "map_of (upsert k v t) = (map_of t)(k \<mapsto> v)"
  by (rule ext) (simp add: upsert_def insert_lookup split: option.splits)

lemma upsert_keyed [simp]: "keyed t \<Longrightarrow> keyed (upsert k v t)"
  by (simp add: upsert_def)

text \<open>What each loop body does to the database.\<close>

lemma record_source_transaction_result:
  "record_source_transaction ck db s = Inr db' \<Longrightarrow>
   \<exists>t. db' = db\<lparr>indexed_public_transactions := t\<rparr> \<and> (keyed (indexed_public_transactions db) \<longrightarrow> keyed t)"
  by (auto simp: record_source_transaction_def result_simps)

lemma persist_results:
  "persist_transact ck db i = Inr db' \<Longrightarrow>
   \<exists>t. db' = db\<lparr>indexed_public_transactions := t, indexed_transact_commitments :=
     upsert (tree_key_of ck (tc_tree_number i) (tc_tree_position i)) (transact_row_of i)
       (indexed_transact_commitments db)\<rparr>"
  "persist_shield R ck db j = Inr db' \<Longrightarrow>
   \<exists>t. db' = db\<lparr>indexed_public_transactions := t, indexed_shield_commitments :=
     upsert (tree_key_of ck (sc_tree_number j) (sc_tree_position j)) (shield_row_of R j)
       (indexed_shield_commitments db)\<rparr>"
  "persist_nullifier ck db n = Inr db' \<Longrightarrow>
   \<exists>t. db' = db\<lparr>indexed_public_transactions := t, indexed_nullifiers :=
     upsert (ck, int (unat (nf_tree_number n)), nf_nullifier n) (source_columns (nf_source n))
       (indexed_nullifiers db)\<rparr>"
  "persist_legacy_encrypted ck db e = Inr db' \<Longrightarrow>
   \<exists>t. db' = db\<lparr>indexed_public_transactions := t, indexed_legacy_encrypted_commitments :=
     upsert (tree_key_of ck (le_tree_number e) (le_tree_position e)) (encrypted_row_of e)
       (indexed_legacy_encrypted_commitments db)\<rparr>"
  "persist_legacy_generated R enc ck db g = Inr db' \<Longrightarrow>
   \<exists>t. db' = db\<lparr>indexed_public_transactions := t, indexed_legacy_generated_commitments :=
     upsert (tree_key_of ck (lg_tree_number g) (lg_tree_position g)) (generated_row_of R enc g)
       (indexed_legacy_generated_commitments db)\<rparr>"
  "persist_public_transaction ck db p = Inr db' \<Longrightarrow>
   db' = db\<lparr>indexed_public_txid_rows :=
     upsert (ck, transaction_hash (pt_source p), int (unat (pt_railgun_transaction_index p))) (txid_row_of p)
       (indexed_public_txid_rows db)\<rparr>"
  by (auto simp: persist_transact_def persist_shield_def persist_nullifier_def persist_legacy_encrypted_def
      persist_legacy_generated_def persist_public_transaction_def result_simps log_columns_of_iff
      transact_row_of_def shield_row_of_def encrypted_row_of_def generated_row_of_def txid_row_of_def
      dest!: record_source_transaction_result)

text \<open>Every loop writes the rows of its items into one table.\<close>

interpretation transact_writer: row_writer "persist_transact ck" indexed_transact_commitments
  "\<lambda>i. tree_key_of ck (tc_tree_number i) (tc_tree_position i)" transact_row_of for ck
  by unfold_locales (auto dest!: persist_results(1))

interpretation shield_writer_ix: row_writer "persist_shield R ck" indexed_shield_commitments
  "\<lambda>i. tree_key_of ck (sc_tree_number i) (sc_tree_position i)" "shield_row_of R" for R ck
  by unfold_locales (auto dest!: persist_results(2))

interpretation nullifier_writer: row_writer "persist_nullifier ck" indexed_nullifiers
  "\<lambda>i. (ck, int (unat (nf_tree_number i)), nf_nullifier i)" "source_columns \<circ> nf_source" for ck
  by unfold_locales (auto dest!: persist_results(3))

interpretation encrypted_writer: row_writer "persist_legacy_encrypted ck" indexed_legacy_encrypted_commitments
  "\<lambda>i. tree_key_of ck (le_tree_number i) (le_tree_position i)" encrypted_row_of for ck
  by unfold_locales (auto dest!: persist_results(4))

interpretation generated_writer: row_writer "persist_legacy_generated R enc ck" indexed_legacy_generated_commitments
  "\<lambda>i. tree_key_of ck (lg_tree_number i) (lg_tree_position i)" "generated_row_of R enc" for R enc ck
  by unfold_locales (auto dest!: persist_results(5))

interpretation txid_writer: row_writer "persist_public_transaction ck" indexed_public_txid_rows
  "\<lambda>i. (ck, transaction_hash (pt_source i), int (unat (pt_railgun_transaction_index i)))" txid_row_of for ck
  by unfold_locales (auto dest!: persist_results(6))

text \<open>The rows of a batch in the order in which they are written.\<close>

abbreviation transact_ix :: "indexed_transact_commitment \<Rightarrow> index_row" where
  "transact_ix i \<equiv> TransactIx (int (unat (tc_tree_number i))) (int (unat (tc_tree_position i))) (transact_row_of i)"

abbreviation shield_ix :: "railgun_lib \<Rightarrow> indexed_shield_commitment \<Rightarrow> index_row" where
  "shield_ix R i \<equiv> ShieldIx (int (unat (sc_tree_number i))) (int (unat (sc_tree_position i))) (shield_row_of R i)"

abbreviation nullifier_ix :: "indexed_nullifier \<Rightarrow> index_row" where
  "nullifier_ix i \<equiv> NullifierIx (int (unat (nf_tree_number i))) (nf_nullifier i) (source_columns (nf_source i))"

abbreviation encrypted_ix :: "indexed_legacy_encrypted_commitment \<Rightarrow> index_row" where
  "encrypted_ix i \<equiv> EncryptedIx (int (unat (le_tree_number i))) (int (unat (le_tree_position i))) (encrypted_row_of i)"

abbreviation generated_ix ::
  "railgun_lib \<Rightarrow> (legacy_commitment_preimage \<Rightarrow> bytes) \<Rightarrow> indexed_legacy_generated_commitment \<Rightarrow> index_row" where
  "generated_ix R enc i \<equiv>
     GeneratedIx (int (unat (lg_tree_number i))) (int (unat (lg_tree_position i))) (generated_row_of R enc i)"

abbreviation txid_ix :: "indexed_public_transaction \<Rightarrow> index_row" where
  "txid_ix i \<equiv>
     TxidIx (transaction_hash (pt_source i)) (int (unat (pt_railgun_transaction_index i))) (txid_row_of i)"

definition batch_rows ::
  "railgun_lib \<Rightarrow> (legacy_commitment_preimage \<Rightarrow> bytes) \<Rightarrow> indexed_log_batch \<Rightarrow> index_row list" where
  "batch_rows R enc batch =
     map transact_ix (transact_commitments batch) @ map (shield_ix R) (shield_commitments batch)
     @ map nullifier_ix (nullifiers batch) @ map encrypted_ix (legacy_encrypted_commitments batch)
     @ map (generated_ix R enc) (legacy_generated_commitments batch) @ map txid_ix (public_transactions batch)"

definition put_rows :: "index_row list \<Rightarrow> index_row set \<Rightarrow> index_row set" where
  "put_rows xs rows = fold put_row xs rows"

lemma put_rows_simps [simp]:
  "put_rows [] rows = rows" "put_rows (x # xs) rows = put_rows xs (put_row x rows)"
  "put_rows (xs @ ys) rows = put_rows ys (put_rows xs rows)"
  by (simp_all add: put_rows_def)

text \<open>The tables a write to one of them leaves alone, together with the content of the other chains.\<close>

definition other_tables ::
  "chain_db \<Rightarrow> (chain_key \<times> indexed_dataset_kind, progress_row) tbl \<times> ((i64 \<times> i64) \<times> i64, header_row) tbl
    \<times> (chain_key \<times> string \<times> i64, header_row) tbl" where
  "other_tables db = (chain_indexing_progress_tbl db, indexed_block_headers db, indexed_block_checkpoints db)"

definition wrote_row :: "chain_key \<Rightarrow> index_row \<Rightarrow> chain_db \<Rightarrow> chain_db \<Rightarrow> bool" where
  "wrote_row ck x db db' \<longleftrightarrow>
     view_rows ck db' = put_row x (view_rows ck db) \<and> (\<forall>ck'. ck' \<noteq> ck \<longrightarrow> view_rows ck' db' = view_rows ck' db)
     \<and> other_tables db' = other_tables db"

lemma wrote_rowI:
  assumes "\<And>y. row_stored ck db' y \<longleftrightarrow> y = x \<or> row_stored ck db y \<and> ix_key y \<noteq> ix_key x"
    and "\<And>ck' y. ck' \<noteq> ck \<Longrightarrow> row_stored ck' db' y \<longleftrightarrow> row_stored ck' db y"
    and "other_tables db' = other_tables db"
  shows "wrote_row ck x db db'"
  using assms by (auto simp: wrote_row_def view_rows_def put_row_def)

lemma index_row_eqI:
  "row_stored ck db y \<longleftrightarrow> (case y of
     TransactIx t p r \<Rightarrow> map_of (indexed_transact_commitments db) (ck, t, p) = Some r
   | ShieldIx t p r \<Rightarrow> map_of (indexed_shield_commitments db) (ck, t, p) = Some r
   | NullifierIx t n r \<Rightarrow> map_of (indexed_nullifiers db) (ck, t, n) = Some r
   | EncryptedIx t p r \<Rightarrow> map_of (indexed_legacy_encrypted_commitments db) (ck, t, p) = Some r
   | GeneratedIx t p r \<Rightarrow> map_of (indexed_legacy_generated_commitments db) (ck, t, p) = Some r
   | TxidIx h i r \<Rightarrow> map_of (indexed_public_txid_rows db) (ck, h, i) = Some r)"
  by (cases y) simp_all

lemma wrote_table:
  "wrote_row ck (TransactIx t p r) db (db\<lparr>indexed_public_transactions := u,
     indexed_transact_commitments := upsert (ck, t, p) r (indexed_transact_commitments db)\<rparr>)"
  "wrote_row ck (ShieldIx t p r2) db (db\<lparr>indexed_public_transactions := u,
     indexed_shield_commitments := upsert (ck, t, p) r2 (indexed_shield_commitments db)\<rparr>)"
  "wrote_row ck (NullifierIx t n r3) db (db\<lparr>indexed_public_transactions := u,
     indexed_nullifiers := upsert (ck, t, n) r3 (indexed_nullifiers db)\<rparr>)"
  "wrote_row ck (EncryptedIx t p r4) db (db\<lparr>indexed_public_transactions := u,
     indexed_legacy_encrypted_commitments := upsert (ck, t, p) r4 (indexed_legacy_encrypted_commitments db)\<rparr>)"
  "wrote_row ck (GeneratedIx t p r5) db (db\<lparr>indexed_public_transactions := u,
     indexed_legacy_generated_commitments := upsert (ck, t, p) r5 (indexed_legacy_generated_commitments db)\<rparr>)"
  "wrote_row ck (TxidIx h p r6) db (db\<lparr>
     indexed_public_txid_rows := upsert (ck, h, p) r6 (indexed_public_txid_rows db)\<rparr>)"
  by (rule wrote_rowI; (auto simp: other_tables_def index_row_eqI split: index_row.splits))+

text \<open>A loop whose body writes the row \<open>f i\<close> of every item writes the rows of its list.\<close>

definition wrote_rows :: "chain_key \<Rightarrow> index_row list \<Rightarrow> chain_db \<Rightarrow> chain_db \<Rightarrow> bool" where
  "wrote_rows ck xs db db' \<longleftrightarrow>
     view_rows ck db' = put_rows xs (view_rows ck db) \<and> (\<forall>ck'. ck' \<noteq> ck \<longrightarrow> view_rows ck' db' = view_rows ck' db)
     \<and> other_tables db' = other_tables db"

lemma wrote_rows_append: "wrote_rows ck xs db db1 \<Longrightarrow> wrote_rows ck ys db1 db2 \<Longrightarrow> wrote_rows ck (xs @ ys) db db2"
  by (simp add: wrote_rows_def)

lemma loop_wrote_rows:
  assumes "\<And>db i db'. step db i = Inr db' \<Longrightarrow> wrote_row ck (f i) db db'" and "try_fold step db is = Inr db'"
  shows "wrote_rows ck (map f is) db db'"
  using assms(2)
proof (induction "is" arbitrary: db)
  case (Cons i "is")
  then obtain db1 where "step db i = Inr db1" "try_fold step db1 is = Inr db'" by (auto simp: result_simps)
  with Cons.IH [of db1] assms(1) [of db i db1] show ?case by (simp add: wrote_rows_def wrote_row_def)
qed (simp add: wrote_rows_def)

lemma chain_key_of_iff [result_simps]:
  "chain_key_of ct cid contract = Inr ck \<longleftrightarrow> unat cid < 2 ^ 63 \<and> ck = (int (unat ct), int (unat cid), contract)"
  by (auto simp: chain_key_of_def result_simps)

lemma persist_wrote_rows:
  assumes "persist_indexed_log_batch R enc ct cid contract batch db = Inr db'"
  shows "wrote_rows (int (unat ct), int (unat cid), contract) (batch_rows R enc batch) db db'"
proof -
  let ?ck = "(int (unat ct), int (unat cid), contract)"
  from assms obtain db1 db2 db3 db4 db5 where
    loops: "try_fold (persist_transact ?ck) db (transact_commitments batch) = Inr db1"
      "try_fold (persist_shield R ?ck) db1 (shield_commitments batch) = Inr db2"
      "try_fold (persist_nullifier ?ck) db2 (nullifiers batch) = Inr db3"
      "try_fold (persist_legacy_encrypted ?ck) db3 (legacy_encrypted_commitments batch) = Inr db4"
      "try_fold (persist_legacy_generated R enc ?ck) db4 (legacy_generated_commitments batch) = Inr db5"
      "try_fold (persist_public_transaction ?ck) db5 (public_transactions batch) = Inr db'"
    unfolding persist_indexed_log_batch_def result_simps by blast
  have "wrote_rows ?ck (map transact_ix (transact_commitments batch)) db db1"
    by (rule loop_wrote_rows [OF _ loops(1)]) (auto dest!: persist_results(1) intro: wrote_table)
  moreover have "wrote_rows ?ck (map (shield_ix R) (shield_commitments batch)) db1 db2"
    by (rule loop_wrote_rows [OF _ loops(2)]) (auto dest!: persist_results(2) intro: wrote_table)
  moreover have "wrote_rows ?ck (map nullifier_ix (nullifiers batch)) db2 db3"
    by (rule loop_wrote_rows [OF _ loops(3)]) (auto dest!: persist_results(3) intro: wrote_table)
  moreover have "wrote_rows ?ck (map encrypted_ix (legacy_encrypted_commitments batch)) db3 db4"
    by (rule loop_wrote_rows [OF _ loops(4)]) (auto dest!: persist_results(4) intro: wrote_table)
  moreover have "wrote_rows ?ck (map (generated_ix R enc) (legacy_generated_commitments batch)) db4 db5"
    by (rule loop_wrote_rows [OF _ loops(5)]) (auto dest!: persist_results(5) intro: wrote_table)
  moreover have "wrote_rows ?ck (map txid_ix (public_transactions batch)) db5 db'"
    by (rule loop_wrote_rows [OF _ loops(6)]) (auto dest!: persist_results(6) intro: wrote_table)
  ultimately show ?thesis unfolding batch_rows_def by (intro wrote_rows_append)
qed

section \<open>Rewinding\<close>

definition tables_keyed :: "chain_db \<Rightarrow> bool" where
  "tables_keyed db \<longleftrightarrow>
     keyed (chain_indexing_progress_tbl db) \<and> keyed (indexed_block_headers db) \<and> keyed (indexed_block_checkpoints db)
     \<and> keyed (indexed_transact_commitments db) \<and> keyed (indexed_shield_commitments db)
     \<and> keyed (indexed_nullifiers db) \<and> keyed (indexed_legacy_encrypted_commitments db)
     \<and> keyed (indexed_legacy_generated_commitments db) \<and> keyed (indexed_public_transactions db)
     \<and> keyed (indexed_public_txid_rows db)"

definition progress_of :: "chain_db \<Rightarrow> chain_key \<Rightarrow> indexed_dataset_kind \<Rightarrow> progress_row option" where
  "progress_of db ck kind = map_of (chain_indexing_progress_tbl db) (ck, kind)"

definition header_of :: "chain_db \<Rightarrow> i64 \<times> i64 \<Rightarrow> i64 \<Rightarrow> header_row option" where
  "header_of db scope b = map_of (indexed_block_headers db) (scope, b)"

definition rewound_progress :: "i64 \<Rightarrow> bytes32 option \<Rightarrow> progress_row option \<Rightarrow> progress_row option" where
  "rewound_progress from hash p =
     (case p of
        None \<Rightarrow> None
      | Some r \<Rightarrow>
          if from \<le> pg_indexed_through_block r
          then map_option (\<lambda>h. \<lparr>pg_indexed_through_block = from - 1, pg_indexed_through_block_hash = h\<rparr>) hash
          else Some r)"

lemma delete_from_block_lookup:
  "keyed t \<Longrightarrow> map_of (fst (delete_from_block ck from block t)) (ck', k) =
     (case map_of t (ck', k) of None \<Rightarrow> None | Some r \<Rightarrow> if ck' = ck \<and> from \<le> block r then None else Some r)"
  by (simp add: delete_from_block_def delete_lookup split: option.splits)

lemma delete_from_block_keyed [simp]: "keyed t \<Longrightarrow> keyed (fst (delete_from_block ck from block t))"
  by (simp add: delete_from_block_def)

definition previous_hash :: "i64 \<times> i64 \<Rightarrow> i64 \<Rightarrow> chain_db \<Rightarrow> bytes32 option" where
  "previous_hash scope from db = (if from > 0 then map_option hr_block_hash (header_of db scope (from - 1)) else None)"

lemma rewind_result:
  assumes rew: "rewind_chain_indexing_to_replay_block ct cid contract replay db = Inr (rw, db')"
    and keyed: "tables_keyed db" and ck: "ck = (int (unat ct), int (unat cid), contract)"
    and fb: "from = int (unat replay)"
  shows "view_rows ck' db' = (if ck' = ck then {x \<in> view_rows ck db. ix_block x < from} else view_rows ck' db)"
    and "progress_of db' ck' kind =
      (if ck' = ck then rewound_progress from (previous_hash (int (unat ct), int (unat cid)) from db) (progress_of db ck kind)
       else progress_of db ck' kind)"
    and "header_of db' scope b =
      (if scope = (int (unat ct), int (unat cid)) \<and> from \<le> b then None else header_of db scope b)"
    and "tables_keyed db'" and "unat replay < 2 ^ 63"
proof -
  let ?scope = "(int (unat ct), int (unat cid))"
  let ?beyond = "\<lambda>(ck', _ :: indexed_dataset_kind) r. ck' = ck \<and> from \<le> pg_indexed_through_block r"
  define progress where "progress = (case previous_hash ?scope from db of
      Some hash \<Rightarrow> fst (update_where ?beyond (\<lambda>_. \<lparr>pg_indexed_through_block = from - 1,
        pg_indexed_through_block_hash = hash\<rparr>) (chain_indexing_progress_tbl db))
    | None \<Rightarrow> fst (delete_where ?beyond (chain_indexing_progress_tbl db)))"
  from rew have small: "unat replay < 2 ^ 63"
    by (auto simp: rewind_chain_indexing_to_replay_block_def result_simps)
  from rew have db': "db' = \<lparr>chain_indexing_progress_tbl = progress,
      indexed_block_headers = fst (delete_where (\<lambda>(scope', b) _. scope' = ?scope \<and> from \<le> b) (indexed_block_headers db)),
      indexed_block_checkpoints = fst (delete_where (\<lambda>(ck', _, b) _. ck' = ck \<and> from \<le> b) (indexed_block_checkpoints db)),
      indexed_transact_commitments = fst (delete_from_block ck from lc_block_number (indexed_transact_commitments db)),
      indexed_shield_commitments = fst (delete_from_block ck from lc_block_number (indexed_shield_commitments db)),
      indexed_nullifiers = fst (delete_from_block ck from lc_block_number (indexed_nullifiers db)),
      indexed_legacy_encrypted_commitments =
        fst (delete_from_block ck from lc_block_number (indexed_legacy_encrypted_commitments db)),
      indexed_legacy_generated_commitments =
        fst (delete_from_block ck from lc_block_number (indexed_legacy_generated_commitments db)),
      indexed_public_transactions = fst (delete_from_block ck from pr_block_number (indexed_public_transactions db)),
      indexed_public_txid_rows = fst (delete_from_block ck from px_block_number (indexed_public_txid_rows db))\<rparr>"
  proof -
    have key: "chain_key_of ct cid contract = Inr ck"
      using rew by (auto simp: rewind_chain_indexing_to_replay_block_def result_simps ck)
    have num: "u64_to_i64 replay f = Inr from" for f
      using small by (simp add: fb u64_to_i64_def i64_of_u64_def)
    have prev: "(if from > 0 then map_option hr_block_hash
        (map_of (indexed_block_headers db) ((fst ck, fst (snd ck)), from - 1)) else None) = previous_hash ?scope from db"
      by (simp add: ck previous_hash_def header_of_def)
    have scope: "(fst ck, fst (snd ck)) = ?scope" by (simp add: ck)
    show ?thesis
      using rew
      unfolding rewind_chain_indexing_to_replay_block_def key num and_then_simps Let_def split_beta prev progress_def
      by (cases "previous_hash ?scope from db") (auto simp: scope split_beta)
  qed
  have tables: "keyed (chain_indexing_progress_tbl db)" "keyed (indexed_block_headers db)"
    "keyed (indexed_transact_commitments db)" "keyed (indexed_shield_commitments db)" "keyed (indexed_nullifiers db)"
    "keyed (indexed_legacy_encrypted_commitments db)" "keyed (indexed_legacy_generated_commitments db)"
    "keyed (indexed_public_txid_rows db)"
    using keyed by (simp_all add: tables_keyed_def)
  show "unat replay < 2 ^ 63" by (rule small)
  show "view_rows ck' db' = (if ck' = ck then {x \<in> view_rows ck db. ix_block x < from} else view_rows ck' db)"
    unfolding db' view_rows_def
    by (auto simp: index_row_eqI delete_from_block_lookup tables split: index_row.splits option.splits if_splits)
  show "header_of db' scope b =
      (if scope = (int (unat ct), int (unat cid)) \<and> from \<le> b then None else header_of db scope b)"
    unfolding db' header_of_def by (auto simp: delete_lookup tables split: option.splits)
  show "progress_of db' ck' kind =
      (if ck' = ck then rewound_progress from (previous_hash (int (unat ct), int (unat cid)) from db) (progress_of db ck kind)
       else progress_of db ck' kind)"
    unfolding db' progress_of_def progress_def
    by (auto simp: delete_lookup update_lookup tables rewound_progress_def split: option.splits)
  show "tables_keyed db'"
    using keyed unfolding db' progress_def by (auto simp: tables_keyed_def split: option.splits)
qed

section \<open>Leaf numbers\<close>

interpretation store_pos: leaf_numbering
  "unat L" "normalized_global_position L" "store_global_tree_position L" for L :: u64
proof unfold_locales
  fix g :: u64 and t :: u32 and p :: u64
  have same: "store_global_tree_position L t p = Inr g \<longleftrightarrow> global_tree_position L t p = Inr g" for g
    by (auto simp: store_global_tree_position_def global_tree_position_def result_simps
        split: option.splits Option.bind_splits)
  show "unat g = unat t * unat L + unat p" if "normalized_global_position L g = Inr (t, p)"
    by (rule chain_pos.to_pos_value [OF that])
  show "unat p < unat L" if "normalized_global_position L g = Inr (t, p)" "0 < unat L"
    by (rule chain_pos.to_pos_leaf [OF that])
  show "\<exists>t p. normalized_global_position L g = Inr (t, p)" if "unat g div unat L < 2 ^ 32"
    by (rule chain_pos.to_pos_defined [OF that])
  show "unat g = unat t * unat L + unat p" if "store_global_tree_position L t p = Inr g"
    using that unfolding same by (rule chain_pos.of_pos_value)
  show "\<exists>g. store_global_tree_position L t p = Inr g" if "unat t * unat L + unat p < 2 ^ 64"
    using chain_pos.of_pos_defined [OF that] same by blast
qed

end
