(* ===== verification/Chain_Indexer.thy ===== *)
theory Chain_Indexer
  imports Chain_Store_Facts Hydrate_Facts Action_Monad
begin

text \<open>
  Indexing a chain into the store: one range of blocks in one transaction
  (\<open>chain_indexer.rs\<close>, \<open>index_chain_log_range\<close>), the resumption after a reorganisation, one round of the
  indexing loop, and how that loop adapts the number of blocks it asks for (\<open>chain_indexed.rs\<close>,
  \<open>run_chain_indexing_loop\<close> to \<open>fetch_block_header\<close>).

  \<^item> The two RPC nodes of a chain are the record \<open>chain_node\<close> over a state \<open>'n\<close> of the outside world. Every
    request may change it, so that a node may answer differently each time. What one range reads of its
    logs, blocks and transactions is read in one such state.
  \<^item> The transaction of a range is \<open>commit_indexed_range\<close>.
  \<^item> The lease on the canonicality of the chain keeps publication from reading between the statements of a
    rewind; here a rewind is one step.
  \<^item> The wait for new blocks, the websocket that can end it early and the log lines are left out.
\<close>

record chain_indexed_block_header =
  ch_block_number :: u64
  ch_block_hash :: bytes32
  ch_parent_hash :: bytes32

record chain_log_indexing_range =
  ir_chain_type :: u8
  ir_chain_id :: u64
  ir_railgun_contract :: address
  ir_from_block :: u64
  ir_to_block :: u64
  ir_indexed_through_block_hash :: bytes32
  ir_indexed_block_headers :: "chain_indexed_block_header list"
  ir_v2_start_block :: u64
  ir_legacy_shield_block :: u64
  ir_action_start_block :: "u64 option"

record chain_log_indexing_outcome =
  io_from_block :: u64
  io_to_block :: u64
  io_fetched_log_count :: nat
  io_persisted_row_count :: nat
  io_unshield_log_derivations :: nat
  io_unshield_log_divergences :: nat

datatype chain_indexing_error =
    IndexLogs chain_log_ingestion_error
  | IndexStore store_error
  | IndexProvider string
  | BlockUnavailable u64

text \<open>\<open>IndexedDatasetKind::ALL\<close>.\<close>

definition ALL_DATASET_KINDS :: "indexed_dataset_kind list" where
  "ALL_DATASET_KINDS = [WalletScan, Commitments, MerkleCheckpoint, PublicTxid]"

definition commit_indexed_range ::
  "railgun_lib \<Rightarrow> (legacy_commitment_preimage \<Rightarrow> bytes) \<Rightarrow> chain_log_indexing_range \<Rightarrow> indexed_log_batch
   \<Rightarrow> chain_db \<Rightarrow> chain_db stored" where
  "commit_indexed_range R legacy_preimage_abi_encode range1 batch db =
     and_then (persist_indexed_log_batch R legacy_preimage_abi_encode (ir_chain_type range1) (ir_chain_id range1)
       (ir_railgun_contract range1) batch db) (\<lambda>db1.
     and_then (try_fold (\<lambda>db header. record_indexed_block_header (ir_chain_type range1) (ir_chain_id range1)
       (ch_block_number header) (ch_block_hash header) (ch_parent_hash header) db) db1
       (ir_indexed_block_headers range1)) (\<lambda>db2.
       try_fold (\<lambda>db kind. record_chain_indexing_progress (ir_chain_type range1) (ir_chain_id range1)
         (ir_railgun_contract range1) kind (ir_to_block range1) (ir_indexed_through_block_hash range1) db) db2
         ALL_DATASET_KINDS))"

definition persisted_row_count :: "indexed_log_batch \<Rightarrow> nat" where
  "persisted_row_count batch =
     length (transact_commitments batch) + length (shield_commitments batch) + length (nullifiers batch)
     + length (legacy_encrypted_commitments batch) + length (legacy_generated_commitments batch)
     + length (public_transactions batch)"

text \<open>What a range reads from its node: logs by filter, and everything hydration asks for.\<close>

record range_node =
  rn_abi :: event_abi
  rn_logs :: "log_filter \<Rightarrow> raw_log list ingested"
  rn_env :: chain_env
  rn_legacy_preimage_abi_encode :: "legacy_commitment_preimage \<Rightarrow> bytes"

definition read_range :: "range_node \<Rightarrow> chain_log_indexing_range \<Rightarrow> (nat \<times> indexed_log_batch) ingested" where
  "read_range N range1 =
     and_then (fetch_chain_index_logs (rn_abi N) (rn_logs N) (ir_railgun_contract range1) (ir_from_block range1)
       (ir_to_block range1) (ir_v2_start_block range1) (ir_legacy_shield_block range1)
       (ir_action_start_block range1)) (\<lambda>logs.
     and_then (ingest_chain_logs (rn_abi N) (env_leaf_count (rn_env N)) logs) (\<lambda>ingested.
     and_then (hydrate_indexed_log_source_timestamps (env_provider (rn_env N)) ingested) (\<lambda>hydrated.
     and_then (hydrate_public_transactions (rn_env N) (ir_railgun_contract range1) (ir_action_start_block range1)
       hydrated) (\<lambda>batch.
       Inr (length logs, batch)))))"

definition index_chain_log_range ::
  "range_node \<Rightarrow> chain_log_indexing_range \<Rightarrow> chain_db
   \<Rightarrow> (chain_indexing_error + chain_log_indexing_outcome \<times> chain_db)" where
  "index_chain_log_range N range1 db =
     and_then (map_err IndexLogs (read_range N range1)) (\<lambda>(log_count, batch).
     and_then (map_err IndexStore (commit_indexed_range (env_lib (rn_env N)) (rn_legacy_preimage_abi_encode N)
       range1 batch db)) (\<lambda>db'.
       Inr (\<lparr>io_from_block = ir_from_block range1, io_to_block = ir_to_block range1, io_fetched_log_count = log_count,
             io_persisted_row_count = persisted_row_count batch,
             io_unshield_log_derivations = unshield_log_derivations batch,
             io_unshield_log_divergences = unshield_log_divergences batch\<rparr>, db')))"

section \<open>The indexing loop\<close>

datatype node_role = NormalNode | ArchiveNode

record 'n chain_node =
  cn_block_number :: "'n \<Rightarrow> (string + u64) \<times> 'n"
  cn_block :: "node_role \<Rightarrow> 'n \<Rightarrow> u64 \<Rightarrow> (string + (bytes32 \<times> bytes32) option) \<times> 'n"
  cn_range :: "node_role \<Rightarrow> 'n \<Rightarrow> range_node \<times> 'n"

text \<open>What the indexing loop reads of the configuration of its chain.\<close>

record chain_settings =
  st_chain_id :: u64
  st_railgun_contract :: address
  st_start_block :: u64
  st_v2_start_block :: u64
  st_legacy_shield_block :: u64
  st_action_start_block :: "u64 option"
  st_safe_confirmations :: u64
  st_max_blocks_per_batch :: u64
  st_tail_safety_block_span :: u64

record 'n index_world =
  iw_db :: chain_db
  iw_node :: 'n

type_synonym ('n, 'a) indexing = "('n index_world, chain_indexing_error, 'a) action"

definition INDEXED_EVM_CHAIN_TYPE :: u8 where
  "INDEXED_EVM_CHAIN_TYPE = 0"

definition ask_node :: "('n \<Rightarrow> ('e + 'a) \<times> 'n) \<Rightarrow> ('e \<Rightarrow> chain_indexing_error) \<Rightarrow> ('n, 'a) indexing" where
  "ask_node f err w = (case f (iw_node w) of (r, n) \<Rightarrow> (map_err err r, w\<lparr>iw_node := n\<rparr>))"

definition read_store :: "(chain_db \<Rightarrow> 'a stored) \<Rightarrow> ('n, 'a) indexing" where
  "read_store q w = (map_err IndexStore (q (iw_db w)), w)"

definition write_store :: "(chain_db \<Rightarrow> chain_db stored) \<Rightarrow> ('n, unit) indexing" where
  "write_store tx w =
     (case tx (iw_db w) of Inl e \<Rightarrow> (Inl (IndexStore e), w) | Inr db \<Rightarrow> (Inr (), w\<lparr>iw_db := db\<rparr>))"

definition fetch_block_header :: "'n chain_node \<Rightarrow> node_role \<Rightarrow> u64 \<Rightarrow> ('n, chain_indexed_block_header) indexing" where
  "fetch_block_header node role number =
     act_bind (ask_node (\<lambda>n. cn_block node role n number) IndexProvider) (\<lambda>answer.
     act_bind (act_lift (ok_or (BlockUnavailable number) answer)) (\<lambda>(hash, parent).
       act_return \<lparr>ch_block_number = number, ch_block_hash = hash, ch_parent_hash = parent\<rparr>))"

definition read_progress :: "chain_settings \<Rightarrow> ('n, stored_chain_indexing_progress option) indexing" where
  "read_progress st =
     read_store (chain_indexing_progress INDEXED_EVM_CHAIN_TYPE (st_chain_id st) (st_railgun_contract st) WalletScan)"

text \<open>The transaction that rewinds: the header before the replayed blocks is refreshed from the node first.\<close>

definition rewind_transaction ::
  "chain_settings \<Rightarrow> u64 \<Rightarrow> chain_indexed_block_header option \<Rightarrow> chain_db \<Rightarrow> chain_db stored" where
  "rewind_transaction st replay_from_block previous_header db =
     and_then (case previous_header of
                 None \<Rightarrow> Inr db
               | Some h \<Rightarrow> record_indexed_block_header INDEXED_EVM_CHAIN_TYPE (st_chain_id st)
                   (ch_block_number h) (ch_block_hash h) (ch_parent_hash h) db) (\<lambda>db1.
     and_then (rewind_chain_indexing_to_replay_block INDEXED_EVM_CHAIN_TYPE (st_chain_id st)
       (st_railgun_contract st) replay_from_block db1) (\<lambda>(_, db2).
       Inr db2))"

definition replay_from :: "chain_settings \<Rightarrow> u64 \<Rightarrow> u64" where
  "replay_from st through =
     max (saturating_sub through (saturating_sub (st_max_blocks_per_batch st) 1)) (st_start_block st)"

text \<open>One round of the loop of \<open>resume_block_after_reorg\<close>: the block to resume from, or another round.\<close>

definition resume_round :: "'n chain_node \<Rightarrow> chain_settings \<Rightarrow> ('n, u64 option) indexing" where
  "resume_round node st =
     act_bind (read_progress st) (\<lambda>progress.
     case progress of
       None \<Rightarrow> act_return (Some (st_start_block st))
     | Some p \<Rightarrow>
         act_bind (fetch_block_header node ArchiveNode (indexed_through_block p)) (\<lambda>remote.
         if ch_block_hash remote = indexed_through_block_hash p
         then act_return (Some (saturating_add (indexed_through_block p) 1))
         else
           act_bind (read_progress st) (\<lambda>again.
           case again of
             None \<Rightarrow> act_return None
           | Some q \<Rightarrow>
               act_bind (fetch_block_header node ArchiveNode (indexed_through_block q)) (\<lambda>remote'.
               if ch_block_hash remote' = indexed_through_block_hash q
               then act_return (Some (saturating_add (indexed_through_block q) 1))
               else
                 let replay = replay_from st (indexed_through_block q) in
                 act_bind (if st_start_block st < replay
                           then act_bind (fetch_block_header node ArchiveNode (saturating_sub replay 1))
                                  (\<lambda>h. act_return (Some h))
                           else act_return None) (\<lambda>previous.
                 act_bind (write_store (rewind_transaction st replay previous)) (\<lambda>_.
                   act_return None))))))"

partial_function (option) resume_block_after_reorg ::
  "'n chain_node \<Rightarrow> chain_settings \<Rightarrow> 'n index_world \<Rightarrow> ((chain_indexing_error + u64) \<times> 'n index_world) option" where
  "resume_block_after_reorg node st w =
     (case resume_round node st w of (r, w') \<Rightarrow>
        (case r of
           Inl e \<Rightarrow> Some (Inl e, w')
         | Inr finished \<Rightarrow>
             (case finished of
                Some b \<Rightarrow> Some (Inr b, w')
              | None \<Rightarrow> resume_block_after_reorg node st w')))"

datatype chain_index_step =
    Indexed (fetched_log_count: nat) (indexing_lag_blocks: u64)
  | CaughtUp

datatype chain_index_provider_mode = ArchiveMode | NormalWithArchiveFallback

definition log_range_action ::
  "'n chain_node \<Rightarrow> node_role \<Rightarrow> chain_log_indexing_range \<Rightarrow> ('n, chain_log_indexing_outcome) indexing" where
  "log_range_action node role range1 w =
     (case cn_range node role (iw_node w) of (N, n) \<Rightarrow>
        (case index_chain_log_range N range1 (iw_db w) of
           Inl e \<Rightarrow> (Inl e, w\<lparr>iw_node := n\<rparr>)
         | Inr (outcome, db) \<Rightarrow> (Inr outcome, w\<lparr>iw_db := db, iw_node := n\<rparr>)))"

definition range_of :: "chain_settings \<Rightarrow> u64 \<Rightarrow> u64 \<Rightarrow> chain_indexed_block_header \<Rightarrow> chain_log_indexing_range" where
  "range_of st from_block to_block header =
     \<lparr>ir_chain_type = INDEXED_EVM_CHAIN_TYPE, ir_chain_id = st_chain_id st, ir_railgun_contract = st_railgun_contract st,
      ir_from_block = from_block, ir_to_block = to_block, ir_indexed_through_block_hash = ch_block_hash header,
      ir_indexed_block_headers = [header], ir_v2_start_block = st_v2_start_block st,
      ir_legacy_shield_block = st_legacy_shield_block st, ir_action_start_block = st_action_start_block st\<rparr>"

definition index_chain_range_with_provider ::
  "'n chain_node \<Rightarrow> chain_settings \<Rightarrow> node_role \<Rightarrow> u64 \<Rightarrow> u64 \<Rightarrow> u64 \<Rightarrow> ('n, chain_index_step) indexing" where
  "index_chain_range_with_provider node st role safe_head from_block to_block =
     act_bind (fetch_block_header node role to_block) (\<lambda>header.
     act_bind (log_range_action node role (range_of st from_block to_block header)) (\<lambda>outcome.
       act_return (Indexed (io_fetched_log_count outcome) (saturating_sub safe_head (io_to_block outcome)))))"

definition index_chain_range ::
  "'n chain_node \<Rightarrow> chain_settings \<Rightarrow> chain_index_provider_mode \<Rightarrow> u64 \<Rightarrow> u64 \<Rightarrow> u64 \<Rightarrow> ('n, chain_index_step) indexing" where
  "index_chain_range node st mode safe_head from_block to_block w =
     (case mode of
        ArchiveMode \<Rightarrow> index_chain_range_with_provider node st ArchiveNode safe_head from_block to_block w
      | NormalWithArchiveFallback \<Rightarrow>
          (case index_chain_range_with_provider node st NormalNode safe_head from_block to_block w of
             (Inr indexed, w') \<Rightarrow> (Inr indexed, w')
           | (Inl _, w') \<Rightarrow> index_chain_range_with_provider node st ArchiveNode safe_head from_block to_block w'))"

text \<open>\<open>None\<close> where the search for the block to resume from does not end.\<close>

definition index_chain_once ::
  "'n chain_node \<Rightarrow> chain_settings \<Rightarrow> u64 \<Rightarrow> chain_index_provider_mode \<Rightarrow> 'n index_world
   \<Rightarrow> ((chain_indexing_error + chain_index_step) \<times> 'n index_world) option" where
  "index_chain_once node st batch_span mode w =
     (case ask_node (cn_block_number node) IndexProvider w of
        (Inl e, w1) \<Rightarrow> Some (Inl e, w1)
      | (Inr head, w1) \<Rightarrow>
          let safe_head = saturating_sub head (st_safe_confirmations st) in
          (case resume_block_after_reorg node st w1 of
             None \<Rightarrow> None
           | Some (Inl e, w2) \<Rightarrow> Some (Inl e, w2)
           | Some (Inr from_block, w2) \<Rightarrow>
               if safe_head < from_block then Some (Inr CaughtUp, w2)
               else Some (index_chain_range node st mode safe_head from_block
                 (min (saturating_add from_block (saturating_sub batch_span 1)) safe_head) w2)))"

section \<open>The number of blocks per range\<close>

definition MIN_INDEXING_BATCH_BLOCKS :: u64 where
  "MIN_INDEXING_BATCH_BLOCKS = 1000"

definition ascii_lower :: "char \<Rightarrow> char" where
  "ascii_lower c =
     (let n = of_char c :: nat in if 65 \<le> n \<and> n \<le> 90 then char_of (n + 32) else c)"

fun contains_text :: "string \<Rightarrow> string \<Rightarrow> bool" where
  "contains_text needle [] = (needle = [])"
| "contains_text needle (c # cs) = (take (length needle) (c # cs) = needle \<or> contains_text needle cs)"

text \<open>\<open>error_chain\<close> gives the messages of an error and of its sources.\<close>

definition is_block_range_too_large :: "(chain_indexing_error \<Rightarrow> string list) \<Rightarrow> chain_indexing_error \<Rightarrow> bool" where
  "is_block_range_too_large error_chain e =
     list_ex (\<lambda>m. contains_text ''block range is too large'' (map ascii_lower m)) (error_chain e)"

record span_state =
  max_batch_span :: u64
  batch_span :: u64
  historical_catch_up_complete :: bool

definition initial_span :: "chain_settings \<Rightarrow> span_state" where
  "initial_span st = \<lparr>max_batch_span = st_max_blocks_per_batch st, batch_span = st_max_blocks_per_batch st,
     historical_catch_up_complete = False\<rparr>"

definition min_batch_span :: "chain_settings \<Rightarrow> u64" where
  "min_batch_span st = min (max (st_max_blocks_per_batch st) 1) MIN_INDEXING_BATCH_BLOCKS"

definition requested_batch_span :: "chain_settings \<Rightarrow> span_state \<Rightarrow> u64" where
  "requested_batch_span st s =
     (if historical_catch_up_complete s then st_tail_safety_block_span st else batch_span s)"

definition provider_mode :: "span_state \<Rightarrow> chain_index_provider_mode" where
  "provider_mode s = (if historical_catch_up_complete s then NormalWithArchiveFallback else ArchiveMode)"

definition span_after ::
  "chain_settings \<Rightarrow> (chain_indexing_error \<Rightarrow> string list) \<Rightarrow> chain_indexing_error + chain_index_step \<Rightarrow> span_state
   \<Rightarrow> span_state" where
  "span_after st error_chain r s =
     (case r of
        Inr (Indexed log_count lag) \<Rightarrow>
          let s1 = (if \<not> historical_catch_up_complete s \<and> log_count = 0 \<and> batch_span s < max_batch_span s
                    then s\<lparr>batch_span := min (saturating_mul (batch_span s) 2) (max_batch_span s)\<rparr> else s)
          in if lag = 0 then s1\<lparr>historical_catch_up_complete := True, batch_span := max_batch_span s1\<rparr> else s1
      | Inr CaughtUp \<Rightarrow> s\<lparr>historical_catch_up_complete := True, batch_span := max_batch_span s\<rparr>
      | Inl e \<Rightarrow>
          if historical_catch_up_complete s then s
          else
            let next_span = max (batch_span s div 2) (min_batch_span st);
                max_span = (if is_block_range_too_large error_chain e then min (max_batch_span s) next_span
                            else max_batch_span s)
            in s\<lparr>max_batch_span := max_span, batch_span := min next_span max_span\<rparr>)"

text \<open>One iteration of \<open>run_chain_indexing_loop\<close>, without its wait.\<close>

definition indexing_round ::
  "'n chain_node \<Rightarrow> chain_settings \<Rightarrow> (chain_indexing_error \<Rightarrow> string list) \<Rightarrow> span_state \<times> 'n index_world
   \<Rightarrow> (span_state \<times> 'n index_world) option" where
  "indexing_round node st error_chain sw =
     (case index_chain_once node st (requested_batch_span st (fst sw)) (provider_mode (fst sw)) (snd sw) of
        None \<Rightarrow> None
      | Some (r, w') \<Rightarrow> Some (span_after st error_chain r (fst sw), w'))"

primrec indexing_rounds ::
  "'n chain_node \<Rightarrow> chain_settings \<Rightarrow> (chain_indexing_error \<Rightarrow> string list) \<Rightarrow> nat \<Rightarrow> span_state \<times> 'n index_world
   \<Rightarrow> (span_state \<times> 'n index_world) option" where
  "indexing_rounds node st error_chain 0 sw = Some sw"
| "indexing_rounds node st error_chain (Suc k) sw =
     (case indexing_round node st error_chain sw of
        None \<Rightarrow> None
      | Some sw' \<Rightarrow> indexing_rounds node st error_chain k sw')"

end
