(* ===== verification/Chain_Indexer_Facts.thy ===== *)
theory Chain_Indexer_Facts
  imports Chain_Indexer
begin

text \<open>
  What indexing promises.

  \<^item> \<open>chain_index\<close> is the abstract index: for every chain its rows and the block it is indexed through, and
    the headers. A committed range puts rows and moves the progress forward; a rewind cuts both off. The
    transactions on the tables implement these two operations (\<open>index_refines\<close>).
  \<^item> The abstract index carries the invariant: the datasets agree and no row lies above the progress.
  \<^item> Resuming after a reorganisation returns, at a block before which the store agrees with the node.
  \<^item> The number of blocks asked for stays between its bounds.
\<close>

section \<open>The abstract index\<close>

record chain_index =
  ci_rows :: "chain_key \<Rightarrow> index_row set"
  ci_progress :: "chain_key \<Rightarrow> indexed_dataset_kind \<Rightarrow> progress_row option"
  ci_headers :: "i64 \<times> i64 \<Rightarrow> i64 \<Rightarrow> header_row option"

definition index_of :: "chain_db \<Rightarrow> chain_index" where
  "index_of db = \<lparr>ci_rows = (\<lambda>ck. view_rows ck db), ci_progress = progress_of db, ci_headers = header_of db\<rparr>"

definition forward :: "progress_row \<Rightarrow> progress_row option \<Rightarrow> progress_row option" where
  "forward row old =
     (case old of
        None \<Rightarrow> Some row
      | Some r \<Rightarrow> if pg_indexed_through_block r \<le> pg_indexed_through_block row then Some row else Some r)"

definition put_header ::
  "i64 \<times> i64 \<Rightarrow> chain_indexed_block_header \<Rightarrow> (i64 \<times> i64 \<Rightarrow> i64 \<Rightarrow> header_row option)
   \<Rightarrow> i64 \<times> i64 \<Rightarrow> i64 \<Rightarrow> header_row option" where
  "put_header scope h hs =
     hs(scope := (hs scope)(int (unat (ch_block_number h)) \<mapsto>
       \<lparr>hr_block_hash = ch_block_hash h, hr_parent_hash = ch_parent_hash h\<rparr>))"

definition commit_index ::
  "chain_key \<Rightarrow> index_row list \<Rightarrow> chain_indexed_block_header list \<Rightarrow> progress_row \<Rightarrow> chain_index \<Rightarrow> chain_index" where
  "commit_index ck rows hs row a =
     \<lparr>ci_rows = (ci_rows a)(ck := put_rows rows (ci_rows a ck)),
      ci_progress = (ci_progress a)(ck := (\<lambda>kind. forward row (ci_progress a ck kind))),
      ci_headers = fold (put_header (fst ck, fst (snd ck))) hs (ci_headers a)\<rparr>"

definition rewind_index :: "chain_key \<Rightarrow> i64 \<Rightarrow> chain_index \<Rightarrow> chain_index" where
  "rewind_index ck from a =
     (let scope = (fst ck, fst (snd ck));
          hash = (if from > 0 then map_option hr_block_hash (ci_headers a scope (from - 1)) else None)
      in \<lparr>ci_rows = (ci_rows a)(ck := {x \<in> ci_rows a ck. ix_block x < from}),
          ci_progress = (ci_progress a)(ck := (\<lambda>kind. rewound_progress from hash (ci_progress a ck kind))),
          ci_headers = (ci_headers a)(scope := (\<lambda>b. if from \<le> b then None else ci_headers a scope b))\<rparr>)"

text \<open>The transactions of the indexer, and what each does to the abstract index.\<close>

datatype index_op =
    CommitRange chain_log_indexing_range indexed_log_batch
  | RewindRange chain_settings u64 "chain_indexed_block_header option"

fun run_index_op ::
  "railgun_lib \<Rightarrow> (legacy_commitment_preimage \<Rightarrow> bytes) \<Rightarrow> chain_db \<Rightarrow> index_op \<Rightarrow> chain_db stored" where
  "run_index_op R enc db (CommitRange r batch) = commit_indexed_range R enc r batch db"
| "run_index_op R enc db (RewindRange st replay h) = rewind_transaction st replay h db"

definition range_key :: "chain_log_indexing_range \<Rightarrow> chain_key" where
  "range_key r = (int (unat (ir_chain_type r)), int (unat (ir_chain_id r)), ir_railgun_contract r)"

definition settings_key :: "chain_settings \<Rightarrow> chain_key" where
  "settings_key st = (0, int (unat (st_chain_id st)), st_railgun_contract st)"

fun abstract_index_op ::
  "railgun_lib \<Rightarrow> (legacy_commitment_preimage \<Rightarrow> bytes) \<Rightarrow> index_op \<Rightarrow> chain_index \<Rightarrow> chain_index" where
  "abstract_index_op R enc (CommitRange r batch) a =
     commit_index (range_key r) (batch_rows R enc batch) (ir_indexed_block_headers r)
       \<lparr>pg_indexed_through_block = int (unat (ir_to_block r)),
        pg_indexed_through_block_hash = ir_indexed_through_block_hash r\<rparr> a"
| "abstract_index_op R enc (RewindRange st replay h) a =
     rewind_index (settings_key st) (int (unat replay))
       (case h of
          None \<Rightarrow> a
        | Some h \<Rightarrow> a\<lparr>ci_headers := put_header (0, int (unat (st_chain_id st))) h (ci_headers a)\<rparr>)"

section \<open>The tables implement it\<close>

lemma record_header_result:
  assumes "record_indexed_block_header ct cid number hash parent db = Inr db'"
  shows "index_of db' = (index_of db)\<lparr>ci_headers := put_header (int (unat ct), int (unat cid))
      \<lparr>ch_block_number = number, ch_block_hash = hash, ch_parent_hash = parent\<rparr> (ci_headers (index_of db))\<rparr>"
    and "tables_keyed db \<Longrightarrow> tables_keyed db'"
proof -
  let ?row = "\<lparr>hr_block_hash = hash, hr_parent_hash = parent\<rparr>"
  from assms have db': "db' = db\<lparr>indexed_block_headers := upsert ((int (unat ct), int (unat cid)), int (unat number)) ?row
      (indexed_block_headers db)\<rparr>"
    by (auto simp: record_indexed_block_header_def result_simps upsert_def Let_def)
  have rows: "view_rows ck db' = view_rows ck db" for ck
    unfolding view_rows_def db' by (auto simp: index_row_eqI split: index_row.splits)
  show "index_of db' = (index_of db)\<lparr>ci_headers := put_header (int (unat ct), int (unat cid))
      \<lparr>ch_block_number = number, ch_block_hash = hash, ch_parent_hash = parent\<rparr> (ci_headers (index_of db))\<rparr>"
    by (simp add: index_of_def rows) (auto simp: db' progress_of_def header_of_def put_header_def fun_eq_iff)
  show "tables_keyed db \<Longrightarrow> tables_keyed db'" by (simp add: tables_keyed_def db')
qed

lemma record_progress_result:
  assumes "record_chain_indexing_progress ct cid contract kind through hash db = Inr db'"
    and keyed: "tables_keyed db" and ck: "ck = (int (unat ct), int (unat cid), contract)"
    and row: "row = \<lparr>pg_indexed_through_block = int (unat through), pg_indexed_through_block_hash = hash\<rparr>"
  shows "index_of db' = (index_of db)\<lparr>ci_progress := (ci_progress (index_of db))(ck :=
      (ci_progress (index_of db) ck)(kind := forward row (ci_progress (index_of db) ck kind)))\<rparr>"
    and "tables_keyed db'" and "unat through < 2 ^ 63"
proof -
  show "unat through < 2 ^ 63"
    using assms(1) by (auto simp: record_chain_indexing_progress_def result_simps)
  from assms(1) have db': "db' = db\<lparr>chain_indexing_progress_tbl := fst (insert_on_conflict (ck, kind) row
      (\<lambda>old. if pg_indexed_through_block old \<le> pg_indexed_through_block row then Some row else None)
      (chain_indexing_progress_tbl db))\<rparr>"
    unfolding row ck by (auto simp: record_chain_indexing_progress_def result_simps Let_def cong: if_cong)
  have rows: "view_rows ck' db' = view_rows ck' db" for ck'
    unfolding view_rows_def db' by (auto simp: index_row_eqI split: index_row.splits)
  have k: "keyed (chain_indexing_progress_tbl db)" using keyed by (simp add: tables_keyed_def)
  show "index_of db' = (index_of db)\<lparr>ci_progress := (ci_progress (index_of db))(ck :=
      (ci_progress (index_of db) ck)(kind := forward row (ci_progress (index_of db) ck kind)))\<rparr>"
    by (simp add: index_of_def rows)
      (auto simp: db' progress_of_def header_of_def forward_def fun_eq_iff insert_lookup k split: option.splits)
  show "tables_keyed db'" using keyed by (simp add: tables_keyed_def db' insert_keyed)
qed


lemma persist_item_keyed:
  "persist_transact ck db i = Inr db' \<Longrightarrow> tables_keyed db \<Longrightarrow> tables_keyed db'"
  "persist_shield R ck db j = Inr db' \<Longrightarrow> tables_keyed db \<Longrightarrow> tables_keyed db'"
  "persist_nullifier ck db n = Inr db' \<Longrightarrow> tables_keyed db \<Longrightarrow> tables_keyed db'"
  "persist_legacy_encrypted ck db e = Inr db' \<Longrightarrow> tables_keyed db \<Longrightarrow> tables_keyed db'"
  "persist_legacy_generated R enc ck db g = Inr db' \<Longrightarrow> tables_keyed db \<Longrightarrow> tables_keyed db'"
  "persist_public_transaction ck db p = Inr db' \<Longrightarrow> tables_keyed db \<Longrightarrow> tables_keyed db'"
  by (auto simp: persist_transact_def persist_shield_def persist_nullifier_def persist_legacy_encrypted_def
      persist_legacy_generated_def persist_public_transaction_def result_simps tables_keyed_def
      dest!: record_source_transaction_result)

lemma persist_keyed:
  assumes "persist_indexed_log_batch R enc ct cid contract batch db = Inr db'" and keyed: "tables_keyed db"
  shows "tables_keyed db'"
proof -
  let ?ck = "(int (unat ct), int (unat cid), contract)"
  from assms(1) obtain db1 db2 db3 db4 db5 where
    loops: "try_fold (persist_transact ?ck) db (transact_commitments batch) = Inr db1"
      "try_fold (persist_shield R ?ck) db1 (shield_commitments batch) = Inr db2"
      "try_fold (persist_nullifier ?ck) db2 (nullifiers batch) = Inr db3"
      "try_fold (persist_legacy_encrypted ?ck) db3 (legacy_encrypted_commitments batch) = Inr db4"
      "try_fold (persist_legacy_generated R enc ?ck) db4 (legacy_generated_commitments batch) = Inr db5"
      "try_fold (persist_public_transaction ?ck) db5 (public_transactions batch) = Inr db'"
    unfolding persist_indexed_log_batch_def result_simps by blast
  note k1 = try_fold_invariant [where P = tables_keyed, OF loops(1) keyed persist_item_keyed(1)]
  note k2 = try_fold_invariant [where P = tables_keyed, OF loops(2) k1 persist_item_keyed(2)]
  note k3 = try_fold_invariant [where P = tables_keyed, OF loops(3) k2 persist_item_keyed(3)]
  note k4 = try_fold_invariant [where P = tables_keyed, OF loops(4) k3 persist_item_keyed(4)]
  note k5 = try_fold_invariant [where P = tables_keyed, OF loops(5) k4 persist_item_keyed(5)]
  show ?thesis by (rule try_fold_invariant [where P = tables_keyed, OF loops(6) k5 persist_item_keyed(6)])
qed

lemma header_eta [simp]:
  "\<lparr>ch_block_number = ch_block_number h, ch_block_hash = ch_block_hash h, ch_parent_hash = ch_parent_hash h\<rparr> = h"
  by (cases h) simp

lemma headers_result:
  "try_fold (\<lambda>db h. record_indexed_block_header ct cid (ch_block_number h) (ch_block_hash h) (ch_parent_hash h) db) db hs
     = Inr db' \<Longrightarrow> tables_keyed db \<Longrightarrow>
   index_of db' = (index_of db)\<lparr>ci_headers := fold (put_header (int (unat ct), int (unat cid))) hs (ci_headers (index_of db))\<rparr>
   \<and> tables_keyed db'"
proof (induction hs arbitrary: db)
  case (Cons h hs)
  then obtain db1 where
    one: "record_indexed_block_header ct cid (ch_block_number h) (ch_block_hash h) (ch_parent_hash h) db = Inr db1"
    and rest: "try_fold (\<lambda>db h. record_indexed_block_header ct cid (ch_block_number h) (ch_block_hash h)
      (ch_parent_hash h) db) db1 hs = Inr db'"
    by (auto simp: result_simps)
  note Cons.IH [OF rest record_header_result(2) [OF one Cons.prems(2)]]
  then show ?case by (simp add: record_header_result(1) [OF one])
qed simp

lemma all_kinds: "set ALL_DATASET_KINDS = UNIV" "distinct ALL_DATASET_KINDS"
  by (auto simp: ALL_DATASET_KINDS_def intro: indexed_dataset_kind.exhaust)

lemma progress_kinds_result:
  assumes ck: "ck = (int (unat ct), int (unat cid), contract)"
    and row: "row = \<lparr>pg_indexed_through_block = int (unat through), pg_indexed_through_block_hash = hash\<rparr>"
  shows "try_fold (\<lambda>db kind. record_chain_indexing_progress ct cid contract kind through hash db) db kinds = Inr db'
     \<Longrightarrow> tables_keyed db \<Longrightarrow> distinct kinds \<Longrightarrow>
   index_of db' = (index_of db)\<lparr>ci_progress := (ci_progress (index_of db))(ck := (\<lambda>kind.
      if kind \<in> set kinds then forward row (ci_progress (index_of db) ck kind) else ci_progress (index_of db) ck kind))\<rparr>
   \<and> tables_keyed db'"
proof (induction kinds arbitrary: db)
  case (Cons k kinds)
  then obtain db1 where
    one: "record_chain_indexing_progress ct cid contract k through hash db = Inr db1"
    and rest: "try_fold (\<lambda>db kind. record_chain_indexing_progress ct cid contract kind through hash db) db1 kinds = Inr db'"
    by (auto simp: result_simps)
  note step = record_progress_result [OF one Cons.prems(2) ck row]
  have "distinct kinds" "k \<notin> set kinds" using Cons.prems(3) by auto
  with Cons.IH [OF rest step(2)] show ?case by (auto simp: step(1) fun_eq_iff)
qed simp

lemma commit_result:
  assumes commit: "commit_indexed_range R enc r batch db = Inr db'" and keyed: "tables_keyed db"
  shows "index_of db' = abstract_index_op R enc (CommitRange r batch) (index_of db)" and "tables_keyed db'"
proof -
  let ?ct = "ir_chain_type r" and ?cid = "ir_chain_id r" and ?c = "ir_railgun_contract r"
  from commit obtain db1 db2 where
    rows: "persist_indexed_log_batch R enc ?ct ?cid ?c batch db = Inr db1"
    and headers: "try_fold (\<lambda>db h. record_indexed_block_header ?ct ?cid (ch_block_number h) (ch_block_hash h)
      (ch_parent_hash h) db) db1 (ir_indexed_block_headers r) = Inr db2"
    and progress: "try_fold (\<lambda>db kind. record_chain_indexing_progress ?ct ?cid ?c kind (ir_to_block r)
      (ir_indexed_through_block_hash r) db) db2 ALL_DATASET_KINDS = Inr db'"
    unfolding commit_indexed_range_def result_simps by blast
  note k1 = persist_keyed [OF rows keyed]
  note h = headers_result [OF headers k1]
  note p = progress_kinds_result [OF refl refl progress h [THEN conjunct2] all_kinds(2)]
  show "tables_keyed db'" using p by blast
  have written: "view_rows ck db1 = ((\<lambda>ck. view_rows ck db)(range_key r :=
      put_rows (batch_rows R enc batch) (view_rows (range_key r) db))) ck" for ck
    using persist_wrote_rows [OF rows] unfolding wrote_rows_def range_key_def fun_upd_apply by metis
  have others: "progress_of db1 = progress_of db" "header_of db1 = header_of db"
    using persist_wrote_rows [OF rows] by (auto simp: wrote_rows_def other_tables_def progress_of_def header_of_def fun_eq_iff)
  show "index_of db' = abstract_index_op R enc (CommitRange r batch) (index_of db)"
    unfolding p [THEN conjunct1] h [THEN conjunct1]
    by (simp add: all_kinds commit_index_def index_of_def others written range_key_def fun_eq_iff)
qed

lemma rewind_step_result:
  assumes rew: "rewind_chain_indexing_to_replay_block INDEXED_EVM_CHAIN_TYPE (st_chain_id st) (st_railgun_contract st) replay db
      = Inr (rw, db')" and keyed: "tables_keyed db"
  shows "index_of db' = rewind_index (settings_key st) (int (unat replay)) (index_of db)" and "tables_keyed db'"
proof -
  have key: "settings_key st = (int (unat INDEXED_EVM_CHAIN_TYPE), int (unat (st_chain_id st)), st_railgun_contract st)"
    by (simp add: settings_key_def INDEXED_EVM_CHAIN_TYPE_def)
  note r = rewind_result [OF rew keyed key refl]
  show "tables_keyed db'" by (rule r(4))
  have "view_rows ck db' = ci_rows (rewind_index (settings_key st) (int (unat replay)) (index_of db)) ck" for ck
    by (simp only: r(1) rewind_index_def Let_def index_of_def chain_index.simps fun_upd_apply)
  moreover have "progress_of db' ck kind = ci_progress (rewind_index (settings_key st) (int (unat replay)) (index_of db)) ck kind"
    for ck kind
    by (simp only: r(2) rewind_index_def Let_def index_of_def chain_index.simps fun_upd_apply previous_hash_def key fst_conv
        snd_conv if_distrib [of "\<lambda>f. f kind"])
  moreover have "header_of db' scope b = ci_headers (rewind_index (settings_key st) (int (unat replay)) (index_of db)) scope b"
    for scope b
    by (auto simp: r(3) rewind_index_def Let_def index_of_def key)
  ultimately show "index_of db' = rewind_index (settings_key st) (int (unat replay)) (index_of db)"
    by (intro chain_index.equality) (auto simp: index_of_def fun_eq_iff)
qed

lemma rewind_transaction_result:
  assumes rew: "rewind_transaction st replay h db = Inr db'" and keyed: "tables_keyed db"
  shows "index_of db' = abstract_index_op R enc (RewindRange st replay h) (index_of db)" and "tables_keyed db'"
proof -
  from rew obtain db1 rw where
    header: "(case h of None \<Rightarrow> Inr db | Some h \<Rightarrow> record_indexed_block_header INDEXED_EVM_CHAIN_TYPE (st_chain_id st)
      (ch_block_number h) (ch_block_hash h) (ch_parent_hash h) db) = Inr db1"
    and cut: "rewind_chain_indexing_to_replay_block INDEXED_EVM_CHAIN_TYPE (st_chain_id st) (st_railgun_contract st) replay db1
      = Inr (rw, db')"
    by (auto simp: rewind_transaction_def result_simps)
  have first: "index_of db1 = (case h of None \<Rightarrow> index_of db
      | Some h \<Rightarrow> (index_of db)\<lparr>ci_headers := put_header (0, int (unat (st_chain_id st))) h (ci_headers (index_of db))\<rparr>)
    \<and> tables_keyed db1"
  proof (cases h)
    case (Some x)
    with header have "record_indexed_block_header INDEXED_EVM_CHAIN_TYPE (st_chain_id st)
      (ch_block_number x) (ch_block_hash x) (ch_parent_hash x) db = Inr db1" by simp
    from record_header_result [OF this] keyed Some show ?thesis by (simp add: INDEXED_EVM_CHAIN_TYPE_def)
  qed (use header keyed in simp)
  show "index_of db' = abstract_index_op R enc (RewindRange st replay h) (index_of db)"
    by (simp add: rewind_step_result(1) [OF cut first [THEN conjunct2]] first)
  show "tables_keyed db'" by (rule rewind_step_result(2) [OF cut first [THEN conjunct2]])
qed

lemma index_op_result:
  assumes "run_index_op R enc db op = Inr db'" and "tables_keyed db"
  shows "index_of db' = abstract_index_op R enc op (index_of db) \<and> tables_keyed db'"
proof (cases op)
  case (CommitRange r batch)
  with assms commit_result [of R enc r batch db db'] show ?thesis by simp
next
  case (RewindRange st replay h)
  with assms rewind_transaction_result [of st replay h db db'] show ?thesis by simp
qed

lemma index_ops_result:
  "try_fold (run_index_op R enc) db ops = Inr db' \<Longrightarrow> tables_keyed db \<Longrightarrow>
   index_of db' = fold (abstract_index_op R enc) ops (index_of db) \<and> tables_keyed db'"
proof (induction ops arbitrary: db)
  case (Cons op ops)
  then obtain db1 where one: "run_index_op R enc db op = Inr db1"
    and rest: "try_fold (run_index_op R enc) db1 ops = Inr db'" by (auto simp: result_simps)
  from index_op_result [OF one Cons.prems(2)] Cons.IH [OF rest] show ?case by simp
qed simp

section \<open>The invariant of the index\<close>

definition index_sound :: "u64 \<Rightarrow> chain_key \<Rightarrow> chain_index \<Rightarrow> bool" where
  "index_sound start ck a \<longleftrightarrow>
     (\<exists>p. (\<forall>kind. ci_progress a ck kind = p) \<and>
       (\<forall>x \<in> ci_rows a ck.
          case p of None \<Rightarrow> ix_block x < int (unat start) | Some r \<Rightarrow> ix_block x \<le> pg_indexed_through_block r))"

text \<open>What the indexing loop keeps to: a range starts no earlier than the configured block and holds its batch,
  and a rewind further up than the configured block has fetched the header before it.\<close>

fun op_valid ::
  "railgun_lib \<Rightarrow> (legacy_commitment_preimage \<Rightarrow> bytes) \<Rightarrow> u64 \<Rightarrow> chain_key \<Rightarrow> index_op \<Rightarrow> bool" where
  "op_valid R enc start ck (CommitRange r batch) =
     (range_key r = ck \<longrightarrow> start \<le> ir_to_block r \<and>
        list_all (\<lambda>x. ix_block x \<le> int (unat (ir_to_block r))) (batch_rows R enc batch))"
| "op_valid R enc start ck (RewindRange st replay h) =
     (settings_key st = ck \<longrightarrow> start \<le> replay \<and>
        (start < replay \<longrightarrow> map_option ch_block_number h = Some (replay - 1)))"

lemma put_rows_subset: "x \<in> put_rows xs rows \<Longrightarrow> x \<in> set xs \<or> x \<in> rows"
  by (induction xs arbitrary: rows) (auto simp: put_row_def)

lemma commit_sound:
  assumes sound: "index_sound start ck a" and start: "int (unat start) \<le> pg_indexed_through_block row"
    and rows: "list_all (\<lambda>x. ix_block x \<le> pg_indexed_through_block row) rows"
  shows "index_sound start ck (commit_index ck rows hs row a)"
proof -
  from sound obtain p where p: "\<And>kind. ci_progress a ck kind = p"
    and old: "\<And>x. x \<in> ci_rows a ck \<Longrightarrow>
      (case p of None \<Rightarrow> ix_block x < int (unat start) | Some r \<Rightarrow> ix_block x \<le> pg_indexed_through_block r)"
    by (auto simp: index_sound_def)
  have "case forward row p of None \<Rightarrow> ix_block x < int (unat start) | Some r \<Rightarrow> ix_block x \<le> pg_indexed_through_block r"
    if "x \<in> put_rows rows (ci_rows a ck)" for x
    using put_rows_subset [OF that] old [of x] rows start
    by (fastforce simp: forward_def list_all_iff split: option.splits)
  then show ?thesis by (auto simp: index_sound_def commit_index_def p intro!: exI [of _ "forward row p"])
qed

lemma rewind_sound:
  assumes sound: "index_sound start ck a"
    and hash: "from = int (unat start) \<or> from > 0 \<and> ci_headers a (fst ck, fst (snd ck)) (from - 1) \<noteq> None"
  shows "index_sound start ck (rewind_index ck from a)"
proof -
  define h where "h = (if from > 0 then map_option hr_block_hash (ci_headers a (fst ck, fst (snd ck)) (from - 1)) else None)"
  from sound obtain p where p: "\<And>kind. ci_progress a ck kind = p"
    and old: "\<And>x. x \<in> ci_rows a ck \<Longrightarrow>
      (case p of None \<Rightarrow> ix_block x < int (unat start) | Some r \<Rightarrow> ix_block x \<le> pg_indexed_through_block r)"
    by (auto simp: index_sound_def)
  have hash': "h = None \<Longrightarrow> from = int (unat start)" using hash by (auto simp: h_def)
  have "case rewound_progress from h p of None \<Rightarrow> ix_block x < int (unat start)
      | Some r \<Rightarrow> ix_block x \<le> pg_indexed_through_block r"
    if "x \<in> ci_rows a ck" "ix_block x < from" for x
    using old [OF that(1)] that(2) hash' by (auto simp: rewound_progress_def split: option.splits)
  moreover have "ci_progress (rewind_index ck from a) ck kind = rewound_progress from h p" for kind
    by (simp add: rewind_index_def Let_def p h_def)
  moreover have "ci_rows (rewind_index ck from a) ck = {x \<in> ci_rows a ck. ix_block x < from}"
    by (simp add: rewind_index_def Let_def)
  ultimately show ?thesis unfolding index_sound_def by auto
qed

lemma other_chain_sound:
  assumes "index_sound start ck a" and "ck' \<noteq> ck"
  shows "index_sound start ck (commit_index ck' rows hs row a)" and "index_sound start ck (rewind_index ck' from a)"
  using assms by (simp_all add: index_sound_def commit_index_def rewind_index_def Let_def)

lemma headers_sound [simp]: "index_sound start ck (a\<lparr>ci_headers := hs\<rparr>) = index_sound start ck a"
  by (simp add: index_sound_def)

lemma unat_pred: "x \<noteq> 0 \<Longrightarrow> int (unat (x - 1 :: u64)) = int (unat x) - 1"
  by (simp add: unat_minus_one of_nat_diff Suc_leI unat_gt_0)

lemma op_sound:
  assumes sound: "index_sound start ck a" and valid: "op_valid R enc start ck op"
  shows "index_sound start ck (abstract_index_op R enc op a)"
proof (cases op)
  case (CommitRange r batch)
  show ?thesis
  proof (cases "range_key r = ck")
    case True
    with valid CommitRange sound show ?thesis by (auto simp: word_le_def intro!: commit_sound)
  qed (use CommitRange sound other_chain_sound in auto)
next
  case (RewindRange st replay h)
  let ?a = "case h of None \<Rightarrow> a | Some h \<Rightarrow> a\<lparr>ci_headers := put_header (0, int (unat (st_chain_id st))) h (ci_headers a)\<rparr>"
  have a: "index_sound start ck ?a" using sound by (simp split: option.split)
  show ?thesis
  proof (cases "settings_key st = ck")
    case True
    have "int (unat replay) = int (unat start) \<or>
      int (unat replay) > 0 \<and> ci_headers ?a (fst ck, fst (snd ck)) (int (unat replay) - 1) \<noteq> None"
    proof (cases "start < replay")
      case above: True
      with valid RewindRange True obtain x where h: "h = Some x" "ch_block_number x = replay - 1" by auto
      have "replay \<noteq> 0" using above by auto
      moreover from this have "0 < uint replay" by (metis uint_0_iff uint_ge_0 order_le_less)
      ultimately show ?thesis using h True
        by (auto simp: settings_key_def put_header_def unat_pred [unfolded of_nat_unat] unat_gt_0 simp flip: uint_nat)
    qed (use valid RewindRange True in auto)
    with rewind_sound [OF a] True RewindRange show ?thesis by simp
  qed (use RewindRange a other_chain_sound in auto)
qed

lemma ops_sound:
  "index_sound start ck a \<Longrightarrow> list_all (op_valid R enc start ck) ops \<Longrightarrow>
   index_sound start ck (fold (abstract_index_op R enc) ops a)"
  by (induction ops arbitrary: a) (simp_all add: op_sound)

section \<open>The number of blocks per range\<close>

definition span_ok :: "chain_settings \<Rightarrow> span_state \<Rightarrow> bool" where
  "span_ok st s \<longleftrightarrow>
     min_batch_span st \<le> batch_span s \<and> batch_span s \<le> max_batch_span s
     \<and> max_batch_span s \<le> st_max_blocks_per_batch st"

lemma saturating_double: "a \<le> saturating_mul a (2 :: u64)"
  using unat_less_exp [of a] by (simp add: word_le_nat_alt unat_saturating_mul)

lemma span_after_ok:
  assumes ok: "span_ok st s"
  shows "span_ok st (span_after st ec r s)"
proof (cases r)
  case (Inl e)
  with ok show ?thesis by (auto simp: span_ok_def span_after_def Let_def min_def max_def)
next
  case (Inr stp)
  with ok saturating_double [of "batch_span s"] show ?thesis
    by (cases stp) (auto simp: span_ok_def span_after_def Let_def min_def)
qed

lemma initial_span_ok: "0 < st_max_blocks_per_batch st \<Longrightarrow> span_ok st (initial_span st)"
  by (auto simp: span_ok_def initial_span_def min_batch_span_def min_def max_def word_le_nat_alt word_less_nat_alt)

lemma rounds_span_ok:
  "indexing_rounds node st ec k (s, w) = Some (s', w') \<Longrightarrow> span_ok st s \<Longrightarrow> span_ok st s'"
proof (induction k arbitrary: s w)
  case (Suc k)
  then obtain s1 w1 where "indexing_round node st ec (s, w) = Some (s1, w1)"
    "indexing_rounds node st ec k (s1, w1) = Some (s', w')" by (auto split: option.splits)
  moreover from this(1) obtain r where "s1 = span_after st ec r s"
    by (auto simp: indexing_round_def split: option.splits)
  ultimately show ?case using Suc span_after_ok by blast
qed simp

section \<open>Resuming after a reorganisation\<close>

text \<open>A node whose archive answers with one chain, whatever it is asked in between.\<close>

definition canonical :: "'n chain_node \<Rightarrow> (u64 \<Rightarrow> bytes32) \<Rightarrow> (u64 \<Rightarrow> bytes32) \<Rightarrow> bool" where
  "canonical node hash parent \<longleftrightarrow>
     (\<forall>n b. cn_block node ArchiveNode n b = (Inr (Some (hash b, parent b)), n))"

lemma fetch_canonical:
  "canonical node hash parent \<Longrightarrow> fetch_block_header node ArchiveNode b w =
     (Inr \<lparr>ch_block_number = b, ch_block_hash = hash b, ch_parent_hash = parent b\<rparr>, w)"
  by (simp add: fetch_block_header_def ask_node_def canonical_def act_defs ok_or_def map_err_def)

lemma read_progress_result:
  assumes "unat (st_chain_id st) < 2 ^ 63"
  shows "progress_of (iw_db w) (settings_key st) WalletScan = None \<Longrightarrow> read_progress st w = (Inr None, w)"
    and "progress_of (iw_db w) (settings_key st) WalletScan =
        Some \<lparr>pg_indexed_through_block = int (unat t), pg_indexed_through_block_hash = h\<rparr> \<Longrightarrow>
      read_progress st w = (Inr (Some \<lparr>indexed_through_block = t, indexed_through_block_hash = h\<rparr>), w)"
proof -
  have ck: "chain_key_of INDEXED_EVM_CHAIN_TYPE (st_chain_id st) (st_railgun_contract st) = Inr (settings_key st)"
    using assms by (simp add: chain_key_of_iff settings_key_def INDEXED_EVM_CHAIN_TYPE_def)
  have num: "i64_to_u64 (int (unat t)) f = Inr t" for f by (simp only: i64_to_u64_iff)
  show "progress_of (iw_db w) (settings_key st) WalletScan = None \<Longrightarrow> read_progress st w = (Inr None, w)"
    by (simp add: read_progress_def read_store_def chain_indexing_progress_def ck progress_of_def map_err_def)
  show "progress_of (iw_db w) (settings_key st) WalletScan =
        Some \<lparr>pg_indexed_through_block = int (unat t), pg_indexed_through_block_hash = h\<rparr> \<Longrightarrow>
      read_progress st w = (Inr (Some \<lparr>indexed_through_block = t, indexed_through_block_hash = h\<rparr>), w)"
    unfolding read_progress_def read_store_def chain_indexing_progress_def ck progress_of_def
    by (simp add: num map_err_def del: of_nat_unat)
qed

lemma rewind_total:
  assumes "unat (st_chain_id st) < 2 ^ 63" "unat replay < 2 ^ 63"
    and "\<And>x. h = Some x \<Longrightarrow> unat (ch_block_number x) < 2 ^ 63 \<and>
      (\<forall>b r. header_of db (0, int (unat (st_chain_id st))) b = Some r \<and> hr_block_hash r = ch_block_hash x
        \<longrightarrow> b = int (unat (ch_block_number x)))"
    and "tables_keyed db"
  shows "\<exists>db'. rewind_transaction st replay h db = Inr db'"
proof -
  have conv: "u64_to_i64 v f = Inr (int (unat v))" if "unat v < 2 ^ 63" for v f
    using that by (simp add: u64_to_i64_def i64_of_u64_def)
  have ck: "chain_key_of INDEXED_EVM_CHAIN_TYPE (st_chain_id st) (st_railgun_contract st) = Inr (settings_key st)"
    using assms(1) by (simp add: chain_key_of_iff settings_key_def INDEXED_EVM_CHAIN_TYPE_def)
  have total: "\<exists>x. rewind_chain_indexing_to_replay_block INDEXED_EVM_CHAIN_TYPE (st_chain_id st) (st_railgun_contract st)
      replay db1 = Inr x" for db1
    unfolding rewind_chain_indexing_to_replay_block_def ck conv [OF assms(2)] and_then_simps Let_def
    by (simp add: split_beta del: of_nat_unat)
  have "\<exists>db1. (case h of None \<Rightarrow> Inr db | Some h \<Rightarrow> record_indexed_block_header INDEXED_EVM_CHAIN_TYPE (st_chain_id st)
      (ch_block_number h) (ch_block_hash h) (ch_parent_hash h) db) = Inr db1"
  proof (cases h)
    case (Some x)
    have k: "keyed (indexed_block_headers db)" using assms(4) by (simp add: tables_keyed_def)
    have "\<not> exists_where (\<lambda>(scope, b') r. scope = (int (unat INDEXED_EVM_CHAIN_TYPE), int (unat (st_chain_id st)))
        \<and> b' \<noteq> int (unat (ch_block_number x)) \<and> hr_block_hash r = ch_block_hash x) (indexed_block_headers db)"
      using assms(3) [OF Some] keyed_lookup [OF k]
      by (fastforce simp: exists_where_def header_of_def INDEXED_EVM_CHAIN_TYPE_def)
    then show ?thesis
      using Some assms(1) assms(3) [OF Some]
      by (simp add: record_indexed_block_header_def conv check_chain_type_def ensure_def INDEXED_EVM_CHAIN_TYPE_def
          Let_def del: of_nat_unat)
  qed simp
  then obtain db1 where "(case h of None \<Rightarrow> Inr db | Some h \<Rightarrow> record_indexed_block_header INDEXED_EVM_CHAIN_TYPE
      (st_chain_id st) (ch_block_number h) (ch_block_hash h) (ch_parent_hash h) db) = Inr db1" ..
  moreover from total [of db1] obtain a b where "rewind_chain_indexing_to_replay_block INDEXED_EVM_CHAIN_TYPE
      (st_chain_id st) (st_railgun_contract st) replay db1 = Inr (a, b)" by auto
  ultimately show ?thesis by (simp add: rewind_transaction_def)
qed

definition previous_header ::
  "chain_settings \<Rightarrow> (u64 \<Rightarrow> bytes32) \<Rightarrow> (u64 \<Rightarrow> bytes32) \<Rightarrow> u64 \<Rightarrow> chain_indexed_block_header option" where
  "previous_header st hash parent replay =
     (if st_start_block st < replay
      then Some \<lparr>ch_block_number = replay - 1, ch_block_hash = hash (replay - 1), ch_parent_hash = parent (replay - 1)\<rparr>
      else None)"

lemma saturating_pred: "x \<noteq> 0 \<Longrightarrow> saturating_sub x 1 = (x - 1 :: u64)"
  by (simp add: saturating_sub_def Suc_leI unat_gt_0)

lemma resume_rounds:
  assumes node: "canonical node hash parent" and cid: "unat (st_chain_id st) < 2 ^ 63"
  shows "progress_of (iw_db w) (settings_key st) WalletScan = None \<Longrightarrow>
      resume_round node st w = (Inr (Some (st_start_block st)), w)"
    and "progress_of (iw_db w) (settings_key st) WalletScan =
        Some \<lparr>pg_indexed_through_block = int (unat t), pg_indexed_through_block_hash = hash t\<rparr> \<Longrightarrow>
      resume_round node st w = (Inr (Some (saturating_add t 1)), w)"
    and "progress_of (iw_db w) (settings_key st) WalletScan =
        Some \<lparr>pg_indexed_through_block = int (unat t), pg_indexed_through_block_hash = h\<rparr> \<Longrightarrow> h \<noteq> hash t \<Longrightarrow>
      rewind_transaction st (replay_from st t) (previous_header st hash parent (replay_from st t)) (iw_db w) = Inr db' \<Longrightarrow>
      resume_round node st w = (Inr None, w\<lparr>iw_db := db'\<rparr>)"
proof -
  note read = read_progress_result [OF cid] and fetch = fetch_canonical [OF node]
  show "progress_of (iw_db w) (settings_key st) WalletScan = None \<Longrightarrow>
      resume_round node st w = (Inr (Some (st_start_block st)), w)"
    by (simp add: resume_round_def act_bind_def read(1) act_return_def)
  show "progress_of (iw_db w) (settings_key st) WalletScan =
        Some \<lparr>pg_indexed_through_block = int (unat t), pg_indexed_through_block_hash = hash t\<rparr> \<Longrightarrow>
      resume_round node st w = (Inr (Some (saturating_add t 1)), w)"
    by (drule read(2)) (simp add: resume_round_def act_bind_def fetch act_return_def)
  assume p: "progress_of (iw_db w) (settings_key st) WalletScan =
        Some \<lparr>pg_indexed_through_block = int (unat t), pg_indexed_through_block_hash = h\<rparr>" and h: "h \<noteq> hash t"
    and tx: "rewind_transaction st (replay_from st t) (previous_header st hash parent (replay_from st t)) (iw_db w) = Inr db'"
  have "saturating_sub (replay_from st t) 1 = replay_from st t - 1" if "st_start_block st < replay_from st t"
    using that by (intro saturating_pred) auto
  with h tx show "resume_round node st w = (Inr None, w\<lparr>iw_db := db'\<rparr>)"
    by (auto simp: resume_round_def act_bind_def read(2) [OF p] fetch act_return_def Let_def previous_header_def
        write_store_def)
qed

lemma resume_simps:
  "resume_round node st w = (Inr (Some b), w') \<Longrightarrow> resume_block_after_reorg node st w = Some (Inr b, w')"
  "resume_round node st w = (Inr None, w') \<Longrightarrow>
   resume_block_after_reorg node st w = resume_block_after_reorg node st w'"
  by (simp_all add: resume_block_after_reorg.simps [of node st w])

text \<open>A search that goes from each of a set of worlds to another of them does not end.\<close>

lemma resume_loops:
  assumes step: "\<And>w. I w \<Longrightarrow> \<exists>w'. resume_round node st w = (Inr None, w') \<and> I w'" and "I w"
  shows "resume_block_after_reorg node st w = None"
proof -
  have "resume_block_after_reorg n s w = Some y \<Longrightarrow> n = node \<and> s = st \<longrightarrow> \<not> I w" for n s w y
  proof (erule resume_block_after_reorg.raw_induct [rotated])
    fix f n s w y
    assume IH: "\<And>n s w y. f n s w = Some y \<Longrightarrow> n = node \<and> s = st \<longrightarrow> \<not> I w"
      and run: "(case resume_round n s w of (r, w') \<Rightarrow> (case r of Inl e \<Rightarrow> Some (Inl e, w')
        | Inr finished \<Rightarrow> (case finished of Some b \<Rightarrow> Some (Inr b, w') | None \<Rightarrow> f n s w'))) = Some y"
    show "n = node \<and> s = st \<longrightarrow> \<not> I w"
      using step [of w] run IH by fastforce
  qed
  with \<open>I w\<close> show ?thesis by (cases "resume_block_after_reorg node st w") blast+
qed

lemma replay_from_bounds:
  "start \<le> t \<Longrightarrow> st_start_block st = start \<Longrightarrow> start \<le> replay_from st t \<and> replay_from st t \<le> t"
  "t < st_start_block st \<Longrightarrow> replay_from st t = st_start_block st"
proof -
  have le: "saturating_sub t x \<le> t" for x :: u64 by (simp add: word_le_nat_alt)
  show "start \<le> t \<Longrightarrow> st_start_block st = start \<Longrightarrow> start \<le> replay_from st t \<and> replay_from st t \<le> t"
    using le by (simp add: replay_from_def)
  show "t < st_start_block st \<Longrightarrow> replay_from st t = st_start_block st"
    using le order_le_less_trans unfolding replay_from_def by (metis max.absorb2 less_imp_le)
qed

lemma rewound:
  assumes tx: "rewind_transaction st rp (previous_header st hash parent rp) db = Inr db'" and keyed: "tables_keyed db"
    and p: "progress_of db (settings_key st) kind =
      Some \<lparr>pg_indexed_through_block = int (unat t), pg_indexed_through_block_hash = h\<rparr>"
    and rp: "st_start_block st \<le> rp"
    and base: "\<forall>r. header_of db (0, int (unat (st_chain_id st))) (int (unat (st_start_block st)) - 1) = Some r
      \<longrightarrow> hr_block_hash r = hash (st_start_block st - 1)"
  shows "view_rows (settings_key st) db' = {x \<in> view_rows (settings_key st) db. ix_block x < int (unat rp)}"
    and "rp \<le> t \<Longrightarrow> progress_of db' (settings_key st) kind = None \<and> rp = st_start_block st \<or>
      rp \<noteq> 0 \<and> progress_of db' (settings_key st) kind =
        Some \<lparr>pg_indexed_through_block = int (unat (rp - 1)), pg_indexed_through_block_hash = hash (rp - 1)\<rparr>"
    and "t < rp \<Longrightarrow> progress_of db' (settings_key st) kind = progress_of db (settings_key st) kind"
    and "tables_keyed db'"
proof -
  let ?a = "case previous_header st hash parent rp of None \<Rightarrow> index_of db
    | Some h \<Rightarrow> (index_of db)\<lparr>ci_headers := put_header (0, int (unat (st_chain_id st))) h (ci_headers (index_of db))\<rparr>"
  define from_block where "from_block = int (unat rp)"
  note r = rewind_transaction_result [OF tx keyed]
  show "tables_keyed db'" by (rule r(2))
  have a: "ci_rows ?a = (\<lambda>ck. view_rows ck db)" "ci_progress ?a = progress_of db"
    by (simp_all add: index_of_def split: option.split)
  have index: "index_of db' = rewind_index (settings_key st) from_block ?a"
    using r(1) by (simp add: from_block_def)
  have "view_rows (settings_key st) db' = ci_rows (index_of db') (settings_key st)" by (simp add: index_of_def)
  then show "view_rows (settings_key st) db' = {x \<in> view_rows (settings_key st) db. ix_block x < int (unat rp)}"
    unfolding index rewind_index_def Let_def by (simp add: a from_block_def)
  define prev where "prev = (if from_block > 0 then map_option hr_block_hash
      (ci_headers ?a (0, int (unat (st_chain_id st))) (from_block - 1)) else None)"
  have "progress_of db' (settings_key st) kind = ci_progress (index_of db') (settings_key st) kind"
    by (simp add: index_of_def)
  then have progress: "progress_of db' (settings_key st) kind = rewound_progress from_block prev
      (progress_of db (settings_key st) kind)"
    unfolding index rewind_index_def Let_def by (simp add: a prev_def settings_key_def)
  show "t < rp \<Longrightarrow> progress_of db' (settings_key st) kind = progress_of db (settings_key st) kind"
    unfolding progress p rewound_progress_def by (simp add: from_block_def word_less_def)
  assume "rp \<le> t"
  then have now: "progress_of db' (settings_key st) kind = map_option (\<lambda>h. \<lparr>pg_indexed_through_block = from_block - 1,
      pg_indexed_through_block_hash = h\<rparr>) prev"
    unfolding progress p rewound_progress_def by (simp add: from_block_def word_le_def)
  have nonzero: "rp \<noteq> 0" if "from_block > 0" using that by (auto simp: from_block_def)
  have "prev = None \<and> rp = st_start_block st \<or> from_block > 0 \<and> prev = Some (hash (rp - 1))"
  proof (cases "st_start_block st < rp")
    case True
    then have "rp \<noteq> 0" by auto
    then have eq: "from_block - 1 = int (unat (rp - 1))"
      using unat_pred [of rp] by (simp add: from_block_def)
    then have gt: "0 < from_block" by (metis add_0 diff_ge_0_iff_ge int_one_le_iff_zero_less of_nat_0_le_iff)
    have "ci_headers ?a (0, int (unat (st_chain_id st))) (from_block - 1) =
        Some \<lparr>hr_block_hash = hash (rp - 1), hr_parent_hash = parent (rp - 1)\<rparr>"
      unfolding eq using True by (simp add: previous_header_def put_header_def)
    with gt show ?thesis by (simp add: prev_def)
  next
    case False
    with rp have "rp = st_start_block st" by simp
    with base show ?thesis by (auto simp: prev_def previous_header_def index_of_def from_block_def)
  qed
  with now nonzero show "progress_of db' (settings_key st) kind = None \<and> rp = st_start_block st \<or>
      rp \<noteq> 0 \<and> progress_of db' (settings_key st) kind =
        Some \<lparr>pg_indexed_through_block = int (unat (rp - 1)), pg_indexed_through_block_hash = hash (rp - 1)\<rparr>"
    using unat_pred [of rp] unfolding from_block_def by auto
qed

lemma saturating_succ:
  "unat (t :: u64) < 2 ^ 63 \<Longrightarrow> saturating_add t 1 = t + 1" "x \<noteq> 0 \<Longrightarrow> saturating_add (x - 1) 1 = (x :: u64)"
proof -
  show "unat (t :: u64) < 2 ^ 63 \<Longrightarrow> saturating_add t 1 = t + 1" by (simp add: saturating_add_def)
  assume "x \<noteq> 0"
  then have "unat (x - 1) + 1 = unat x" using unat_pred [of x] by linarith
  then show "saturating_add (x - 1) 1 = x" using unat_less_exp [of x] by (simp add: saturating_add_def)
qed

section \<open>The properties\<close>

text \<open>An example: one chain, its first range with a nullifier, and a rewind to the start.\<close>

definition empty_chain_db :: chain_db where
  "empty_chain_db =
     \<lparr>chain_indexing_progress_tbl = [], indexed_block_headers = [], indexed_block_checkpoints = [],
      indexed_transact_commitments = [], indexed_shield_commitments = [], indexed_nullifiers = [],
      indexed_legacy_encrypted_commitments = [], indexed_legacy_generated_commitments = [],
      indexed_public_transactions = [], indexed_public_txid_rows = []\<rparr>"

definition example_settings :: chain_settings where
  "example_settings =
     \<lparr>st_chain_id = 1, st_railgun_contract = 7, st_start_block = 0, st_v2_start_block = 0, st_legacy_shield_block = 0,
      st_action_start_block = None, st_safe_confirmations = 2, st_max_blocks_per_batch = 10,
      st_tail_safety_block_span = 5\<rparr>"

definition example_header :: "u64 \<Rightarrow> bytes32 \<Rightarrow> chain_indexed_block_header" where
  "example_header b hash = \<lparr>ch_block_number = b, ch_block_hash = hash, ch_parent_hash = 0\<rparr>"

definition example_index_batch :: indexed_log_batch where
  "example_index_batch = empty_batch\<lparr>nullifiers := [\<lparr>nf_tree_number = 0, nf_nullifier = 9, nf_source =
     \<lparr>block_number = 4, block_timestamp = Some 11, block_hash = 4, transaction_hash = 5, log_index = 6\<rparr>\<rparr>]\<rparr>"

definition example_ops :: "index_op list" where
  "example_ops =
     [CommitRange (range_of example_settings 0 20 (example_header 20 77)) example_index_batch,
      RewindRange example_settings 11 (Some (example_header 10 66))]"

lemmas example_defs = empty_chain_db_def example_settings_def example_header_def example_index_batch_def example_ops_def
  empty_batch_def range_of_def INDEXED_EVM_CHAIN_TYPE_def

lemma empty_chain_db_facts: "tables_keyed empty_chain_db" "index_sound start ck (index_of empty_chain_db)"
proof -
  show "tables_keyed empty_chain_db" by (simp add: empty_chain_db_def tables_keyed_def keyed_def)
  have "view_rows ck empty_chain_db = {}"
    by (auto simp: view_rows_def index_row_eqI empty_chain_db_def split: index_row.splits)
  then show "index_sound start ck (index_of empty_chain_db)"
    by (simp add: index_sound_def index_of_def progress_of_def empty_chain_db_def)
qed

lemma example_ops_run: "\<exists>db'. try_fold (run_index_op sample_lib (\<lambda>_. [])) empty_chain_db example_ops = Inr db'"
  by (simp add: example_defs commit_indexed_range_def persist_indexed_log_batch_def persist_nullifier_def
      record_source_transaction_def chain_key_of_def u64_to_i64_def i64_of_u64_def check_chain_type_def ensure_def ok_or_def
      log_columns_of_def record_indexed_block_header_def record_chain_indexing_progress_def ALL_DATASET_KINDS_def
      source_block_timestamp_i64_def insert_on_conflict_def upsert_def rewind_transaction_def exists_where_def
      rewind_chain_indexing_to_replay_block_def Let_def split_beta merge_public_transaction_def)

text \<open>C30: the transactions of the indexer implement the abstract index. After any sequence of committed ranges
  and rewinds, the content of the tables - the rows of every chain, the progress of every dataset and the block
  headers - is what the operations put, move forward and cut off on the abstract index, and the chains an
  operation is not about are untouched.\<close>

theorem index_refines:
  assumes "try_fold (run_index_op R enc) db ops = Inr db'" and "tables_keyed db"
  shows "index_of db' = fold (abstract_index_op R enc) ops (index_of db)"
  using index_ops_result [OF assms] by simp

theorem index_refines_witness:
  "\<exists>db'. try_fold (run_index_op sample_lib (\<lambda>_. [])) empty_chain_db example_ops = Inr db'
     \<and> index_of db' = fold (abstract_index_op sample_lib (\<lambda>_. [])) example_ops (index_of empty_chain_db)"
  using example_ops_run index_refines [OF _ empty_chain_db_facts(1)] by blast

text \<open>C31: the four datasets of a chain always have the same progress, and no row lies above it. This holds after
  any transactions of the indexer whose ranges reach at least the configured start block and hold the rows of
  their batch, and whose rewinds go no lower than the start block and fetch the header before the replayed
  blocks whenever they stop above it. Without progress, no row lies at or above the start block.\<close>

theorem index_stays_sound:
  assumes "try_fold (run_index_op R enc) db ops = Inr db'" and "tables_keyed db"
    and "index_sound start ck (index_of db)" and "list_all (op_valid R enc start ck) ops"
  shows "index_sound start ck (index_of db')"
  using index_ops_result [OF assms(1, 2)] ops_sound [OF assms(3, 4)] by simp

theorem index_stays_sound_witness:
  "\<exists>db'. try_fold (run_index_op sample_lib (\<lambda>_. [])) empty_chain_db example_ops = Inr db'
     \<and> index_sound 0 (0, 1, 7) (index_of db')"
proof -
  have "list_all (op_valid sample_lib (\<lambda>_. []) 0 (0, 1, 7)) example_ops"
    by (simp add: example_defs batch_rows_def source_columns_def)
  with example_ops_run show ?thesis using index_stays_sound [OF _ empty_chain_db_facts] by blast
qed


definition example_node :: "range_node \<Rightarrow> unit chain_node" where
  "example_node N =
     \<lparr>cn_block_number = (\<lambda>n. (Inl ''Block range is too large'', n)),
      cn_block = (\<lambda>_ n b. (Inr (Some (ucast b + 100, ucast b + 99)), n)), cn_range = (\<lambda>_ n. (N, n))\<rparr>"


text \<open>A store indexed through block 20 on a chain that the node has since replaced, with a row of block 4.\<close>

definition stale_row :: log_columns where
  "stale_row = \<lparr>lc_block_number = 4, lc_block_timestamp = Some 11, lc_block_hash = 4, lc_transaction_hash = 5,
     lc_log_index = 6\<rparr>"

definition stale_world :: "unit index_world" where
  "stale_world = \<lparr>iw_db = empty_chain_db\<lparr>
     chain_indexing_progress_tbl := [(((0, 1, 7), WalletScan),
       \<lparr>pg_indexed_through_block = 20, pg_indexed_through_block_hash = 1\<rparr>)],
     indexed_nullifiers := [(((0, 1, 7), 0, 9), stale_row)]\<rparr>, iw_node = ()\<rparr>"

lemma stale_world_facts:
  "canonical (example_node N) (\<lambda>b. ucast b + 100) (\<lambda>b. ucast b + 99)" "tables_keyed (iw_db stale_world)"
  "settings_key example_settings = (0, 1, 7)"
  "progress_of (iw_db stale_world) (0, 1, 7) WalletScan =
    Some \<lparr>pg_indexed_through_block = 20, pg_indexed_through_block_hash = 1\<rparr>"
  "header_of (iw_db stale_world) scope b = None" "NullifierIx 0 9 stale_row \<in> view_rows (0, 1, 7) (iw_db stale_world)"
  by (simp_all add: canonical_def example_node_def stale_world_def empty_chain_db_def tables_keyed_def keyed_def
      settings_key_def example_settings_def progress_of_def header_of_def view_rows_def)

text \<open>C32: resuming after a reorganisation returns. Let the archive node answer with one chain, let a hash of it
  stand in the stored headers at its own number only, and let the progress have reached the start block, with a
  header stored just before the start block, if any, that agrees with the node. If the progress agrees with the
  node, nothing changes and indexing resumes behind it. Otherwise one rewind is made: indexing resumes at the
  first of the last \<open>max_blocks_per_batch\<close> blocks, or at the start block; exactly the rows below that block are
  kept, also those of blocks the node has replaced; and the progress is gone or carries the node's hash.\<close>

theorem resume_returns:
  assumes node: "canonical node hash parent" and cid: "unat (st_chain_id st) < 2 ^ 63"
    and keyed: "tables_keyed (iw_db w)" and t: "unat t < 2 ^ 63" and start: "st_start_block st \<le> t"
    and p: "progress_of (iw_db w) (settings_key st) WalletScan =
      Some \<lparr>pg_indexed_through_block = int (unat t), pg_indexed_through_block_hash = h\<rparr>"
    and unique: "\<forall>b r u. header_of (iw_db w) (0, int (unat (st_chain_id st))) b = Some r \<and> hr_block_hash r = hash u
      \<longrightarrow> b = int (unat u)"
    and base: "\<forall>r. header_of (iw_db w) (0, int (unat (st_chain_id st))) (int (unat (st_start_block st)) - 1) = Some r
      \<longrightarrow> hr_block_hash r = hash (st_start_block st - 1)"
  shows "if h = hash t then resume_block_after_reorg node st w = Some (Inr (t + 1), w)
    else \<exists>db'. resume_block_after_reorg node st w = Some (Inr (replay_from st t), w\<lparr>iw_db := db'\<rparr>)
      \<and> view_rows (settings_key st) db' =
          {x \<in> view_rows (settings_key st) (iw_db w). ix_block x < int (unat (replay_from st t))}
      \<and> (progress_of db' (settings_key st) WalletScan = None \<and> replay_from st t = st_start_block st
         \<or> replay_from st t \<noteq> 0 \<and> progress_of db' (settings_key st) WalletScan =
           Some \<lparr>pg_indexed_through_block = int (unat (replay_from st t - 1)),
                 pg_indexed_through_block_hash = hash (replay_from st t - 1)\<rparr>)"
proof (cases "h = hash t")
  case True
  with p resume_simps(1) [OF resume_rounds(2) [OF node cid]] show ?thesis by (simp add: saturating_succ(1) [OF t])
next
  case False
  let ?rp = "replay_from st t"
  have rp: "st_start_block st \<le> ?rp" "?rp \<le> t" using replay_from_bounds(1) [OF start refl] by simp_all
  have small: "unat ?rp < 2 ^ 63" using rp(2) t by (simp add: word_le_nat_alt)
  have "unat (?rp - 1) < 2 ^ 63" if "st_start_block st < ?rp"
  proof -
    have "?rp \<noteq> 0" using that by auto
    then show ?thesis using unat_pred [of ?rp] small by linarith
  qed
  with unique have "\<exists>db'. rewind_transaction st ?rp (previous_header st hash parent ?rp) (iw_db w) = Inr db'"
    by (intro rewind_total [OF cid small _ keyed]) (auto simp: previous_header_def split: if_splits)
  then obtain db' where tx: "rewind_transaction st ?rp (previous_header st hash parent ?rp) (iw_db w) = Inr db'" ..
  note r = rewound [OF tx keyed p rp(1) base]
  have "resume_block_after_reorg node st w = resume_block_after_reorg node st (w\<lparr>iw_db := db'\<rparr>)"
    by (rule resume_simps(2) [OF resume_rounds(3) [OF node cid p False tx]])
  also have "\<dots> = Some (Inr ?rp, w\<lparr>iw_db := db'\<rparr>)"
    using r(2) [OF rp(2)]
  proof (elim disjE conjE)
    assume "progress_of db' (settings_key st) WalletScan = None" "?rp = st_start_block st"
    with resume_simps(1) [OF resume_rounds(1) [OF node cid]] show ?thesis by simp
  next
    assume "?rp \<noteq> 0" and "progress_of db' (settings_key st) WalletScan =
      Some \<lparr>pg_indexed_through_block = int (unat (?rp - 1)), pg_indexed_through_block_hash = hash (?rp - 1)\<rparr>"
    with resume_simps(1) [OF resume_rounds(2) [OF node cid, of "w\<lparr>iw_db := db'\<rparr>" "?rp - 1"]]
    show ?thesis by (simp add: saturating_succ(2))
  qed
  finally show ?thesis using False r(1) r(2) [OF rp(2)] by auto
qed

theorem resume_returns_witness:
  "\<forall>N. \<exists>db'. resume_block_after_reorg (example_node N) example_settings stale_world
       = Some (Inr 11, stale_world\<lparr>iw_db := db'\<rparr>)
     \<and> NullifierIx 0 9 stale_row \<in> view_rows (0, 1, 7) db' \<and> lc_block_hash stale_row \<noteq> 4 + 100"
proof
  fix N
  have rp: "replay_from example_settings 20 = 11"
    by (simp add: replay_from_def example_settings_def saturating_sub_def)
  have sets: "unat (st_chain_id example_settings) < 2 ^ 63" "st_start_block example_settings \<le> 20"
    by (simp_all add: example_settings_def)
  from resume_returns [of "example_node N" "\<lambda>b. ucast b + 100" "\<lambda>b. ucast b + 99" example_settings stale_world 20 1,
      OF stale_world_facts(1) sets(1) stale_world_facts(2) _ sets(2)]
  obtain db' where "resume_block_after_reorg (example_node N) example_settings stale_world
      = Some (Inr 11, stale_world\<lparr>iw_db := db'\<rparr>)"
    "view_rows (0, 1, 7) db' = {x \<in> view_rows (0, 1, 7) (iw_db stale_world). ix_block x < 11}"
    by (auto simp: rp stale_world_facts)
  with stale_world_facts(6) show "\<exists>db'. resume_block_after_reorg (example_node N) example_settings stale_world
       = Some (Inr 11, stale_world\<lparr>iw_db := db'\<rparr>)
     \<and> NullifierIx 0 9 stale_row \<in> view_rows (0, 1, 7) db' \<and> lc_block_hash stale_row \<noteq> 4 + 100"
    by (auto simp: stale_row_def)
qed

text \<open>C33: resuming does not return where the progress lies below the start block with a hash the archive node does
  not have: a rewind to the start block leaves that progress in place, so each round is like the one before.\<close>

theorem resume_below_start_never_returns:
  assumes node: "canonical node hash parent" and cid: "unat (st_chain_id st) < 2 ^ 63"
    and keyed: "tables_keyed (iw_db w)" and small: "unat (st_start_block st) < 2 ^ 63" and below: "t < st_start_block st"
    and p: "progress_of (iw_db w) (settings_key st) WalletScan =
      Some \<lparr>pg_indexed_through_block = int (unat t), pg_indexed_through_block_hash = h\<rparr>" and h: "h \<noteq> hash t"
  shows "resume_block_after_reorg node st w = None"
proof (rule resume_loops [where I = "\<lambda>w. tables_keyed (iw_db w) \<and> progress_of (iw_db w) (settings_key st) WalletScan =
      Some \<lparr>pg_indexed_through_block = int (unat t), pg_indexed_through_block_hash = h\<rparr>"])
  fix w :: "'a index_world"
  let ?row = "\<lparr>pg_indexed_through_block = int (unat t), pg_indexed_through_block_hash = h\<rparr>"
  let ?rp = "st_start_block st"
  assume I: "tables_keyed (iw_db w) \<and> progress_of (iw_db w) (settings_key st) WalletScan = Some ?row"
  have rp: "replay_from st t = ?rp" by (rule replay_from_bounds(2) [OF below])
  have none: "previous_header st hash parent ?rp = None" by (simp add: previous_header_def)
  obtain db' where tx: "rewind_transaction st ?rp None (iw_db w) = Inr db'"
    using rewind_total [OF cid small, of None "iw_db w"] I by auto
  have index: "index_of db' = rewind_index (settings_key st) (int (unat ?rp)) (index_of (iw_db w))"
    using rewind_transaction_result(1) [OF tx I [THEN conjunct1]] by simp
  have "progress_of db' (settings_key st) WalletScan = ci_progress (index_of db') (settings_key st) WalletScan"
    by (simp add: index_of_def)
  also have "\<dots> = Some ?row"
    unfolding index rewind_index_def Let_def using I below
    by (simp add: index_of_def rewound_progress_def word_less_def)
  finally have p': "progress_of db' (settings_key st) WalletScan = Some ?row" .
  have "resume_round node st w = (Inr None, w\<lparr>iw_db := db'\<rparr>)"
    using resume_rounds(3) [OF node cid I [THEN conjunct2] h] tx by (simp add: rp none)
  with p' rewind_transaction_result(2) [OF tx I [THEN conjunct1]]
  show "\<exists>w'. resume_round node st w = (Inr None, w') \<and> tables_keyed (iw_db w')
      \<and> progress_of (iw_db w') (settings_key st) WalletScan = Some ?row" by auto
qed (use keyed p in simp)

theorem resume_below_start_never_returns_witness:
  "\<forall>N. resume_block_after_reorg (example_node N) (example_settings\<lparr>st_start_block := 30\<rparr>) stale_world = None"
proof
  fix N
  show "resume_block_after_reorg (example_node N) (example_settings\<lparr>st_start_block := 30\<rparr>) stale_world = None"
    by (rule resume_below_start_never_returns [of _ "\<lambda>b. ucast b + 100" "\<lambda>b. ucast b + 99" _ _ 20 1])
      (simp_all add: stale_world_facts example_settings_def settings_key_def)
qed

end
