(* ===== verification/Chain_Round_Trip.thy ===== *)
theory Chain_Round_Trip
  imports Chain_Indexer_Facts
begin

text \<open>
  Reading back what the indexer wrote.

  \<^item> Columns are signed 64-bit integers and bytes of any length; the readers convert them to unsigned integers
    and fixed-length words and fail where that is impossible. \<open>index_typed\<close> says that no stored column is such
    a case; every transaction of the indexer keeps it.
  \<^item> A wallet scan over blocks that only one committed batch wrote to returns the rows of that batch.
\<close>

section \<open>The types of the columns\<close>

definition is_u64 :: "i64 \<Rightarrow> bool" where
  "is_u64 x \<longleftrightarrow> 0 \<le> x \<and> x < 2 ^ 64"

definition is_u32 :: "i64 \<Rightarrow> bool" where
  "is_u32 x \<longleftrightarrow> 0 \<le> x \<and> x < 2 ^ 32"

definition source_typed :: "'z log_columns_scheme \<Rightarrow> bool" where
  "source_typed r \<longleftrightarrow>
     is_u64 (lc_block_number r) \<and> (case lc_block_timestamp r of None \<Rightarrow> True | Some t \<Rightarrow> is_u64 t)
     \<and> is_u64 (lc_log_index r)"

fun row_typed :: "index_row \<Rightarrow> bool" where
  "row_typed (TransactIx t p r) \<longleftrightarrow> is_u32 t \<and> is_u64 p \<and> source_typed r"
| "row_typed (ShieldIx t p r) \<longleftrightarrow> is_u32 t \<and> is_u64 p \<and> source_typed r"
| "row_typed (NullifierIx t n r) \<longleftrightarrow> is_u32 t \<and> source_typed r"
| "row_typed (EncryptedIx t p r) \<longleftrightarrow> is_u32 t \<and> is_u64 p \<and> source_typed r"
| "row_typed (GeneratedIx t p r) \<longleftrightarrow> is_u32 t \<and> is_u64 p \<and> source_typed r \<and> length (xg_encrypted_random r) = 64"
| "row_typed (TxidIx h i r) \<longleftrightarrow>
     is_u64 i \<and> is_u64 (px_block_number r) \<and> is_u64 (px_utxo_tree_in r) \<and> is_u64 (px_utxo_tree_out r)
     \<and> is_u64 (px_utxo_batch_start_position_out r)
     \<and> 32 dvd length (px_nullifiers r) \<and> 32 dvd length (px_commitments r)"

definition index_typed :: "chain_index \<Rightarrow> bool" where
  "index_typed a \<longleftrightarrow>
     (\<forall>ck. \<forall>x \<in> ci_rows a ck. row_typed x)
     \<and> (\<forall>ck kind r. ci_progress a ck kind = Some r \<longrightarrow> is_u64 (pg_indexed_through_block r))"

lemma is_word [simp]: "is_u64 (int (unat (v :: u64)))" "is_u32 (int (unat (t :: u32)))"
  using unat_less_exp [of v] unat_less_exp [of t] by (simp_all add: is_u64_def is_u32_def del: of_nat_unat)

lemma is_word_uint [simp]: "is_u64 (uint (v :: u64))" "is_u32 (uint (t :: u32))"
  using is_word(1) [of v] is_word(2) [of t] by simp_all

lemma flatten_length: "32 dvd length (flatten_fixed_bytes xs)"
  by (induction xs) (simp_all add: flatten_fixed_bytes_def)

lemma batch_rows_typed: "x \<in> set (batch_rows R enc batch) \<Longrightarrow> row_typed x"
  by (auto simp: batch_rows_def source_typed_def source_columns_def transact_row_of_def shield_row_of_def
      encrypted_row_of_def generated_row_of_def txid_row_of_def flatten_length log_columns.defs
      indexed_transact_row.defs indexed_shield_row.defs indexed_encrypted_row.defs indexed_generated_row.defs
      split: option.split)

lemma index_typed_rows: "index_typed a \<Longrightarrow> x \<in> ci_rows a ck \<Longrightarrow> row_typed x"
  unfolding index_typed_def by blast

lemma index_typed_progress:
  "index_typed a \<Longrightarrow> ci_progress a ck kind = Some r \<Longrightarrow> is_u64 (pg_indexed_through_block r)"
  unfolding index_typed_def by blast

lemma index_typedI:
  assumes "\<And>ck x. x \<in> ci_rows a ck \<Longrightarrow> row_typed x"
    and "\<And>ck kind r. ci_progress a ck kind = Some r \<Longrightarrow> is_u64 (pg_indexed_through_block r)"
  shows "index_typed a"
  using assms unfolding index_typed_def by blast

lemma commit_typed:
  assumes typed: "index_typed a" and rows: "\<And>x. x \<in> set xs \<Longrightarrow> row_typed x" and row: "is_u64 (pg_indexed_through_block row)"
  shows "index_typed (commit_index ck xs hs row a)"
proof (rule index_typedI)
  fix ck' x assume "x \<in> ci_rows (commit_index ck xs hs row a) ck'"
  then show "row_typed x"
    using put_rows_subset [of x xs "ci_rows a ck"] rows index_typed_rows [OF typed, of x ck] index_typed_rows [OF typed, of x ck']
    by (cases "ck' = ck") (auto simp: commit_index_def)
next
  fix ck' kind r assume "ci_progress (commit_index ck xs hs row a) ck' kind = Some r"
  then show "is_u64 (pg_indexed_through_block r)"
    using row index_typed_progress [OF typed, of ck' kind]
    by (cases "ck' = ck") (auto simp: commit_index_def forward_def split: option.splits if_splits)
qed

lemma rewind_typed:
  assumes typed: "index_typed a" and "from < 2 ^ 64"
  shows "index_typed (rewind_index ck from a)"
proof (rule index_typedI)
  fix ck' x assume "x \<in> ci_rows (rewind_index ck from a) ck'"
  then show "row_typed x"
    using index_typed_rows [OF typed, of x ck] index_typed_rows [OF typed, of x ck'] by (cases "ck' = ck") (auto simp: rewind_index_def Let_def)
next
  fix ck' kind r assume "ci_progress (rewind_index ck from a) ck' kind = Some r"
  then show "is_u64 (pg_indexed_through_block r)"
    using assms(2) index_typed_progress [OF typed, of ck' kind]
    by (cases "ck' = ck")
      (auto simp: rewind_index_def Let_def rewound_progress_def is_u64_def split: option.splits if_splits)
qed

lemma abstract_op_typed:
  assumes "index_typed a"
  shows "index_typed (abstract_index_op R enc op a)"
proof (cases op)
  case (CommitRange r batch)
  then show ?thesis using assms by (auto intro: commit_typed batch_rows_typed)
next
  case (RewindRange st replay h)
  let ?a = "case h of None \<Rightarrow> a | Some h \<Rightarrow> a\<lparr>ci_headers := put_header (0, int (unat (st_chain_id st))) h (ci_headers a)\<rparr>"
  have "index_typed ?a" using assms by (simp add: index_typed_def split: option.split)
  moreover have "int (unat replay) < 2 ^ 64" using is_word(1) [of replay] by (simp add: is_u64_def)
  ultimately show ?thesis unfolding RewindRange abstract_index_op.simps by (rule rewind_typed)
qed

lemma abstract_ops_typed: "index_typed a \<Longrightarrow> index_typed (fold (abstract_index_op R enc) ops a)"
  by (induction ops arbitrary: a) (simp_all add: abstract_op_typed)

section \<open>Reading typed columns\<close>

lemma read_u64: "is_u64 x \<Longrightarrow> \<exists>v. i64_to_u64 x f = Inr v \<and> int (unat v) = x"
  by (rule exI [of _ "word_of_int x"]) (auto simp: i64_to_u64_iff is_u64_def unat_eq_nat_uint uint_word_of_int)

lemma read_u32: "is_u32 x \<Longrightarrow> \<exists>v. i64_to_u32 x f = Inr v \<and> int (unat v) = x"
  by (rule exI [of _ "word_of_int x"]) (auto simp: i64_to_u32_iff is_u32_def unat_eq_nat_uint uint_word_of_int)

lemma read_source: "source_typed r \<Longrightarrow> \<exists>s. indexed_source_row r = Inr s"
  using read_u64 [of "lc_block_number r" "''block_number''"] read_u64 [of "lc_log_index r" "''log_index''"]
    read_u64 [of "the (lc_block_timestamp r)" "''block_timestamp''"]
  by (auto simp: source_typed_def indexed_source_row_def split: option.splits)

lemma chunk_lengths: "c \<in> set (as_chunks32 bs) \<Longrightarrow> length c = 32"
proof (induction bs rule: as_chunks32.induct)
  case (1 bs)
  show ?case
  proof (cases "length bs < 32")
    case True
    then have "as_chunks32 bs = []" by (subst as_chunks32.simps) simp
    with 1 show ?thesis by simp
  next
    case False
    then have "as_chunks32 bs = take 32 bs # as_chunks32 (drop 32 bs)" by (subst as_chunks32.simps) simp
    with 1 False show ?thesis by auto
  qed
qed

lemma read_chunks: "32 dvd length bs \<Longrightarrow> \<exists>vs. fixed_bytes_vec f bs = Inr vs"
proof -
  assume len: "32 dvd length bs"
  have "\<forall>c \<in> set (as_chunks32 bs). \<exists>v :: bytes32. exact_array f c = Inr v"
    by (simp add: chunk_lengths exact_array_def)
  from traverse_ex [OF this] len show ?thesis by (simp add: fixed_bytes_vec_def)
qed

lemma read_rows:
  "row_typed (TransactIx t p r1) \<Longrightarrow> \<exists>y. read_transact ((ck, t, p), r1) = Inr y"
  "row_typed (ShieldIx t p r2) \<Longrightarrow> \<exists>y. read_shield ((ck, t, p), r2) = Inr y"
  "row_typed (NullifierIx t n r3) \<Longrightarrow> \<exists>y. read_nullifier ((ck, t, n), r3) = Inr y"
  "row_typed (EncryptedIx t p r4) \<Longrightarrow> \<exists>y. read_encrypted ((ck, t, p), r4) = Inr y"
  "row_typed (GeneratedIx t p r5) \<Longrightarrow> \<exists>y. read_generated ((ck, t, p), r5) = Inr y"
proof -
  note reads = read_u32 [of t "''tree_number''"] read_u64 [of p "''tree_position''"]
  show "row_typed (TransactIx t p r1) \<Longrightarrow> \<exists>y. read_transact ((ck, t, p), r1) = Inr y"
    using reads read_source [of r1] by (auto simp: read_transact_def)
  show "row_typed (ShieldIx t p r2) \<Longrightarrow> \<exists>y. read_shield ((ck, t, p), r2) = Inr y"
    using reads read_source [of r2] by (auto simp: read_shield_def)
  show "row_typed (NullifierIx t n r3) \<Longrightarrow> \<exists>y. read_nullifier ((ck, t, n), r3) = Inr y"
    using reads read_source [of r3] by (auto simp: read_nullifier_def)
  show "row_typed (EncryptedIx t p r4) \<Longrightarrow> \<exists>y. read_encrypted ((ck, t, p), r4) = Inr y"
    using reads read_source [of r4] by (auto simp: read_encrypted_def)
  show "row_typed (GeneratedIx t p r5) \<Longrightarrow> \<exists>y. read_generated ((ck, t, p), r5) = Inr y"
    using reads read_source [of r5] by (auto simp: read_generated_def exact_array_def)
qed

text \<open>The rows a scan visits are rows of the chain, in the range.\<close>

lemma in_scan:
  "keyed t \<Longrightarrow> (k, r) \<in> set (scan_rows ck a b t) \<longleftrightarrow>
     map_of t k = Some r \<and> fst k = ck \<and> a \<le> lc_block_number r \<and> lc_block_number r \<le> b"
  by (cases k) (auto simp: scan_rows_def rows_between_def in_select_where keyed_lookup)

lemma with_ciphertext_keyed: "keyed t \<Longrightarrow> keyed (with_ciphertext t)"
  by (auto simp: with_ciphertext_def select_where_def keyed_def intro: distinct_map_filter)

lemma with_ciphertext_lookup:
  "keyed t \<Longrightarrow> map_of (with_ciphertext t) k = Some r \<longleftrightarrow> map_of t k = Some r \<and> xt_ciphertext r \<noteq> None"
  using keyed_lookup [of t k r] keyed_lookup [OF with_ciphertext_keyed, of t k r]
  by (auto simp: with_ciphertext_def in_select_where)

lemma keyed_tables:
  assumes "tables_keyed db"
  shows "keyed (indexed_transact_commitments db)" "keyed (indexed_shield_commitments db)" "keyed (indexed_nullifiers db)"
    "keyed (indexed_legacy_encrypted_commitments db)" "keyed (indexed_legacy_generated_commitments db)"
    "keyed (indexed_public_txid_rows db)"
  using assms by (simp_all add: tables_keyed_def)

lemma typed_rows:
  assumes typed: "index_typed (index_of db)"
  shows "map_of (indexed_transact_commitments db) (ck, t, p) = Some r1 \<Longrightarrow> row_typed (TransactIx t p r1)"
    "map_of (indexed_shield_commitments db) (ck, t, p) = Some r2 \<Longrightarrow> row_typed (ShieldIx t p r2)"
    "map_of (indexed_nullifiers db) (ck, t, n) = Some r3 \<Longrightarrow> row_typed (NullifierIx t n r3)"
    "map_of (indexed_legacy_encrypted_commitments db) (ck, t, p) = Some r4 \<Longrightarrow> row_typed (EncryptedIx t p r4)"
    "map_of (indexed_legacy_generated_commitments db) (ck, t, p) = Some r5 \<Longrightarrow> row_typed (GeneratedIx t p r5)"
    "map_of (indexed_public_txid_rows db) (ck, h, i) = Some r6 \<Longrightarrow> row_typed (TxidIx h i r6)"
proof -
  have all: "row_stored ck db x \<Longrightarrow> row_typed x" for x
    using index_typed_rows [OF typed, of x ck] by (simp add: index_of_def view_rows_def)
  show "map_of (indexed_transact_commitments db) (ck, t, p) = Some r1 \<Longrightarrow> row_typed (TransactIx t p r1)"
    "map_of (indexed_shield_commitments db) (ck, t, p) = Some r2 \<Longrightarrow> row_typed (ShieldIx t p r2)"
    "map_of (indexed_nullifiers db) (ck, t, n) = Some r3 \<Longrightarrow> row_typed (NullifierIx t n r3)"
    "map_of (indexed_legacy_encrypted_commitments db) (ck, t, p) = Some r4 \<Longrightarrow> row_typed (EncryptedIx t p r4)"
    "map_of (indexed_legacy_generated_commitments db) (ck, t, p) = Some r5 \<Longrightarrow> row_typed (GeneratedIx t p r5)"
    "map_of (indexed_public_txid_rows db) (ck, h, i) = Some r6 \<Longrightarrow> row_typed (TxidIx h i r6)"
    by (rule all, simp only: row_stored.simps)+
qed

lemma wallet_scan_total:
  assumes keyed: "tables_keyed db" and typed: "index_typed (index_of db)"
    and small: "unat cid < 2 ^ 63" "unat a < 2 ^ 63" "unat b < 2 ^ 63"
  shows "\<exists>rows. wallet_scan_rows ct cid c a b db = Inr rows"
proof -
  note k = keyed_tables [OF keyed] and t = typed_rows [OF typed]
  let ?ck = "(int (unat ct), int (unat cid), c)" and ?a = "int (unat a)" and ?b = "int (unat b)"
  have conv: "u64_to_i64 v f = Inr (int (unat v))" if "unat v < 2 ^ 63" for v f
    using that by (simp only: u64_to_i64_iff simp_thms)
  have ck: "chain_key_of ct cid c = Inr ?ck" using small(1) by (simp only: chain_key_of_iff simp_thms)
  have "\<exists>ys. traverse read_transact (scan_rows ?ck ?a ?b (with_ciphertext (indexed_transact_commitments db))) = Inr ys"
    by (rule traverse_ex) (auto simp: in_scan with_ciphertext_keyed k with_ciphertext_lookup dest!: t(1) intro: read_rows(1))
  moreover have "\<exists>ys. traverse read_shield (scan_rows ?ck ?a ?b (indexed_shield_commitments db)) = Inr ys"
    by (rule traverse_ex) (auto simp: in_scan k dest!: t(2) intro: read_rows(2))
  moreover have "\<exists>ys. traverse read_nullifier (scan_rows ?ck ?a ?b (indexed_nullifiers db)) = Inr ys"
    by (rule traverse_ex) (auto simp: in_scan k dest!: t(3) intro: read_rows(3))
  moreover have "\<exists>ys. traverse read_encrypted (scan_rows ?ck ?a ?b (indexed_legacy_encrypted_commitments db)) = Inr ys"
    by (rule traverse_ex) (auto simp: in_scan k dest!: t(4) intro: read_rows(4))
  moreover have "\<exists>ys. traverse read_generated (scan_rows ?ck ?a ?b (indexed_legacy_generated_commitments db)) = Inr ys"
    by (rule traverse_ex) (auto simp: in_scan k dest!: t(5) intro: read_rows(5))
  ultimately show ?thesis
    unfolding wallet_scan_rows_def ck conv [OF small(2)] conv [OF small(3)] and_then_simps by fastforce
qed

lemma progress_total:
  assumes typed: "index_typed (index_of db)" and small: "unat cid < 2 ^ 63"
  shows "\<exists>p. chain_indexing_progress ct cid c kind db = Inr p"
proof -
  let ?ck = "(int (unat ct), int (unat cid), c)"
  have ck: "chain_key_of ct cid c = Inr ?ck" using small by (simp only: chain_key_of_iff simp_thms)
  show ?thesis
  proof (cases "progress_of db ?ck kind")
    case None
    then show ?thesis unfolding chain_indexing_progress_def ck by (simp add: progress_of_def)
  next
    case (Some r)
    then have "is_u64 (pg_indexed_through_block r)"
      using index_typed_progress [OF typed, of ?ck kind r] by (simp add: index_of_def)
    from read_u64 [OF this, of "''indexed_through_block''"] Some show ?thesis
      unfolding chain_indexing_progress_def ck by (auto simp: progress_of_def)
  qed
qed

lemma read_txid_columns:
  assumes "row_typed (TxidIx h i r)"
  shows "\<exists>number index nfs commitments tree_in tree_out position.
      i64_to_u64 (px_block_number r) ''block_number'' = Inr number
      \<and> i64_to_u64 i ''railgun_transaction_index'' = Inr index
      \<and> fixed_bytes_vec ''nullifiers'' (px_nullifiers r) = Inr nfs
      \<and> fixed_bytes_vec ''commitments'' (px_commitments r) = Inr commitments
      \<and> i64_to_u64 (px_utxo_tree_in r) ''utxo_tree_in'' = Inr tree_in
      \<and> i64_to_u64 (px_utxo_tree_out r) ''utxo_tree_out'' = Inr tree_out
      \<and> i64_to_u64 (px_utxo_batch_start_position_out r) ''utxo_batch_start_position_out'' = Inr position"
  using assms unfolding row_typed.simps by (metis read_u64 read_chunks)

lemma missing_total:
  assumes keyed: "tables_keyed db" and typed: "index_typed (index_of db)"
    and small: "unat cid < 2 ^ 63" "unat a < 2 ^ 63" "unat b < 2 ^ 63"
  shows "\<exists>rows. missing_public_txid_unshield_preimages ct cid c a b db = Inr rows"
proof -
  have conv: "u64_to_i64 v f = Inr (int (unat v))" if "unat v < 2 ^ 63" for v f
    using that by (simp only: u64_to_i64_iff simp_thms)
  have ck: "chain_key_of ct cid c = Inr (int (unat ct), int (unat cid), c)"
    using small(1) by (simp only: chain_key_of_iff simp_thms)
  have row: "row_typed (TxidIx h i r)" if "((ck', h, i), r) \<in> set (indexed_public_txid_rows db)" for ck' h i r
    using that typed_rows(6) [OF typed] keyed_lookup [OF keyed_tables(6) [OF keyed]] by blast
  show ?thesis
    unfolding missing_public_txid_unshield_preimages_def ck conv [OF small(2)] conv [OF small(3)] and_then_simps
    by (rule traverse_ex) (auto dest!: row read_txid_columns simp del: row_typed.simps)
qed

text \<open>C36: the columns of the chain-indexed tables keep their types. Whatever ranges the indexer commits and however
  it rewinds, every block number, position, tree number, timestamp and byte column stays convertible to the type its
  readers expect. Starting from tables with that property - empty ones, for instance - a wallet scan, the lookup of
  the progress and the listing of missing unshield preimages never fail on arguments below 2 to the 63.\<close>

theorem columns_stay_typed:
  assumes run: "try_fold (run_index_op R enc) db ops = Inr db'" and keyed: "tables_keyed db"
    and typed: "index_typed (index_of db)"
    and small: "unat cid < 2 ^ 63" "unat a < 2 ^ 63" "unat b < 2 ^ 63"
  shows "index_typed (index_of db') \<and> (\<exists>rows. wallet_scan_rows ct cid c a b db' = Inr rows)
    \<and> (\<exists>p. chain_indexing_progress ct cid c kind db' = Inr p)
    \<and> (\<exists>rows. missing_public_txid_unshield_preimages ct cid c a b db' = Inr rows)"
proof -
  have r: "index_of db' = fold (abstract_index_op R enc) ops (index_of db)" "tables_keyed db'"
    using index_ops_result [OF run keyed] by simp_all
  have "index_typed (index_of db')" unfolding r(1) by (rule abstract_ops_typed [OF typed])
  with r(2) small show ?thesis by (blast intro: wallet_scan_total progress_total missing_total)
qed

lemma empty_chain_db_typed: "index_typed (index_of empty_chain_db)"
proof (rule index_typedI)
  fix ck x assume "x \<in> ci_rows (index_of empty_chain_db) ck"
  then show "row_typed x" by (cases x) (simp_all add: index_of_def view_rows_def empty_chain_db_def)
qed (simp add: index_of_def progress_of_def empty_chain_db_def)

theorem columns_stay_typed_witness:
  "\<exists>db'. try_fold (run_index_op sample_lib (\<lambda>_. [])) empty_chain_db example_ops = Inr db'
     \<and> index_typed (index_of db') \<and> (\<exists>rows. wallet_scan_rows 0 1 7 0 20 db' = Inr rows)"
proof -
  from example_ops_run obtain db'
    where run: "try_fold (run_index_op sample_lib (\<lambda>_. [])) empty_chain_db example_ops = Inr db'" ..
  from columns_stay_typed [OF run empty_chain_db_facts(1) empty_chain_db_typed, of 1 0 20 0 7 WalletScan] run
  show ?thesis by auto
qed

section \<open>Reading back a batch\<close>

definition stored_source :: "indexed_log_source \<Rightarrow> stored_log_source_row" where
  "stored_source s =
     \<lparr>src_block_number = block_number s, src_block_timestamp = block_timestamp s, src_block_hash = block_hash s,
      src_transaction_hash = transaction_hash s, src_log_index = log_index s\<rparr>"

definition scanned_transact :: "indexed_transact_commitment \<Rightarrow> stored_transact_commitment_row" where
  "scanned_transact i =
     \<lparr>wt_source = stored_source (tc_source i), wt_tree_number = tc_tree_number i, wt_tree_position = tc_tree_position i,
      wt_commitment_hash = tc_hash i, wt_ciphertext = the (tc_ciphertext i)\<rparr>"

definition scanned_shield :: "railgun_lib \<Rightarrow> indexed_shield_commitment \<Rightarrow> stored_shield_commitment_row" where
  "scanned_shield R i =
     \<lparr>wsh_source = stored_source (sc_source i), wsh_tree_number = sc_tree_number i,
      wsh_tree_position = sc_tree_position i, wsh_commitment_hash = preimage_hash R (sc_preimage i),
      wsh_preimage = preimage_abi_encode R (sc_preimage i), wsh_shield_ciphertext = sc_shield_ciphertext i\<rparr>"

definition scanned_nullifier :: "indexed_nullifier \<Rightarrow> stored_nullifier_row" where
  "scanned_nullifier i =
     \<lparr>wn_source = stored_source (nf_source i), wn_tree_number = nf_tree_number i, wn_nullifier = nf_nullifier i\<rparr>"

definition scanned_encrypted :: "indexed_legacy_encrypted_commitment \<Rightarrow> stored_legacy_encrypted_commitment_row" where
  "scanned_encrypted i =
     \<lparr>we_source = stored_source (le_source i), we_tree_number = le_tree_number i, we_tree_position = le_tree_position i,
      we_commitment_hash = le_hash i, we_ciphertext = le_ciphertext i\<rparr>"

definition scanned_generated ::
  "railgun_lib \<Rightarrow> (legacy_commitment_preimage \<Rightarrow> bytes) \<Rightarrow> indexed_legacy_generated_commitment
   \<Rightarrow> stored_legacy_generated_commitment_row" where
  "scanned_generated R enc i =
     \<lparr>wg_source = stored_source (lg_source i), wg_tree_number = lg_tree_number i, wg_tree_position = lg_tree_position i,
      wg_commitment_hash = legacy_preimage_hash R (lg_preimage i), wg_preimage = enc (lg_preimage i),
      wg_encrypted_random =
        word_of_nat (unat (fst (lg_encrypted_random i)) * 2 ^ 256 + unat (snd (lg_encrypted_random i)))\<rparr>"

lemma word_columns [simp]: "i64_to_u64 (uint (v :: u64)) f = Inr v" "i64_to_u32 (uint (t :: u32)) f = Inr t"
  by (simp_all add: i64_to_u64_iff i64_to_u32_iff)

lemma read_source_columns: "indexed_source_row (log_columns.extend (source_columns s) z) = Inr (stored_source s)"
  by (simp add: indexed_source_row_def source_columns_def stored_source_def log_columns.defs split: option.split)

lemma read_nullifier_source: "indexed_source_row (source_columns s) = Inr (stored_source s)"
  by (simp add: indexed_source_row_def source_columns_def stored_source_def split: option.split)

lemma read_batch_rows:
  "read_transact (tree_key_of ck (tc_tree_number i1) (tc_tree_position i1), transact_row_of i1) = Inr (scanned_transact i1)"
  "read_shield (tree_key_of ck (sc_tree_number i2) (sc_tree_position i2), shield_row_of R i2) = Inr (scanned_shield R i2)"
  "read_nullifier ((ck, int (unat (nf_tree_number i3)), nf_nullifier i3), source_columns (nf_source i3))
    = Inr (scanned_nullifier i3)"
  "read_encrypted (tree_key_of ck (le_tree_number i4) (le_tree_position i4), encrypted_row_of i4)
    = Inr (scanned_encrypted i4)"
  "read_generated (tree_key_of ck (lg_tree_number i5) (lg_tree_position i5), generated_row_of R enc i5)
    = Inr (scanned_generated R enc i5)"
proof -
  show "read_transact (tree_key_of ck (tc_tree_number i1) (tc_tree_position i1), transact_row_of i1) = Inr (scanned_transact i1)"
    unfolding transact_row_of_def
    by (simp add: read_transact_def read_source_columns scanned_transact_def)
      (simp add: log_columns.defs indexed_transact_row.defs)
  show "read_shield (tree_key_of ck (sc_tree_number i2) (sc_tree_position i2), shield_row_of R i2) = Inr (scanned_shield R i2)"
    unfolding shield_row_of_def
    by (simp add: read_shield_def read_source_columns scanned_shield_def)
      (simp add: log_columns.defs indexed_shield_row.defs)
  show "read_nullifier ((ck, int (unat (nf_tree_number i3)), nf_nullifier i3), source_columns (nf_source i3))
    = Inr (scanned_nullifier i3)"
    by (simp add: read_nullifier_def read_nullifier_source scanned_nullifier_def)
  show "read_encrypted (tree_key_of ck (le_tree_number i4) (le_tree_position i4), encrypted_row_of i4)
    = Inr (scanned_encrypted i4)"
    unfolding encrypted_row_of_def
    by (simp add: read_encrypted_def read_source_columns scanned_encrypted_def)
      (simp add: log_columns.defs indexed_encrypted_row.defs)
  show "read_generated (tree_key_of ck (lg_tree_number i5) (lg_tree_position i5), generated_row_of R enc i5)
    = Inr (scanned_generated R enc i5)"
    unfolding generated_row_of_def
    by (simp add: read_generated_def read_source_columns scanned_generated_def)
      (simp add: log_columns.defs indexed_generated_row.defs exact_array_def be_value_append be_value_be_bytes)
qed

text \<open>Putting rows with distinct keys.\<close>

lemma put_rows_distinct:
  "distinct (map ix_key xs) \<Longrightarrow>
   x \<in> put_rows xs rows \<longleftrightarrow> x \<in> set xs \<or> x \<in> rows \<and> ix_key x \<notin> ix_key ` set xs"
  by (induction xs arbitrary: rows) (auto simp: put_row_def)

text \<open>A scan that visits exactly the rows of a list of items gives back the items.\<close>

lemma scan_items:
  assumes keyed: "keyed t" and distinct: "distinct (map key items)"
    and visits: "\<And>k r. (k, r) \<in> set (scan_rows ck a b t) \<longleftrightarrow> (\<exists>i \<in> set items. k = key i \<and> r = row i)"
    and read: "\<And>i. i \<in> set items \<Longrightarrow> f (key i, row i) = Inr (out i)"
  shows "\<exists>ys. traverse f (scan_rows ck a b t) = Inr ys \<and> mset ys = mset (map out items)"
proof -
  let ?xs = "scan_rows ck a b t"
  have "distinct t" using keyed by (simp add: keyed_def distinct_map)
  then have d: "distinct ?xs" by (simp add: scan_rows_def rows_between_def select_where_def)
  have "distinct (map (\<lambda>i. (key i, row i)) items)"
    using distinct by (auto simp: distinct_map inj_on_def)
  moreover have "x \<in> set ?xs \<longleftrightarrow> x \<in> (\<lambda>i. (key i, row i)) ` set items" for x
    using visits [of "fst x" "snd x"] unfolding image_iff by (simp add: prod_eq_iff)
  then have "set ?xs = set (map (\<lambda>i. (key i, row i)) items)" by (simp only: set_map set_eq_iff simp_thms)
  ultimately have m: "mset ?xs = mset (map (\<lambda>i. (key i, row i)) items)"
    using d by (simp only: set_eq_iff_mset_eq_distinct)
  define g where "g = (\<lambda>x. case f x of Inr y \<Rightarrow> y)"
  have "f x = Inr (g x)" if "x \<in> set ?xs" for x
  proof -
    from that visits [of "fst x" "snd x"] obtain i where "i \<in> set items" "x = (key i, row i)"
      by (auto simp: prod_eq_iff)
    then show ?thesis by (simp add: read g_def)
  qed
  then have "traverse f ?xs = Inr (map g ?xs)" by (rule traverse_total)
  moreover have "mset (map g ?xs) = mset (map out items)"
  proof -
    have "mset (map g ?xs) = image_mset g (mset (map (\<lambda>i. (key i, row i)) items))" by (simp only: mset_map m)
    also have "\<dots> = mset (map (\<lambda>i. g (key i, row i)) items)" by (simp add: multiset.map_comp comp_def)
    also have "map (\<lambda>i. g (key i, row i)) items = map out items" using read by (simp add: g_def)
    finally show ?thesis .
  qed
  ultimately show ?thesis by blast
qed

text \<open>What a committed batch wrote into the tables, where no row of the chain was in the blocks before.\<close>

lemma committed_rows:
  assumes commit: "commit_indexed_range R enc r batch db = Inr db'" and keyed: "tables_keyed db"
    and distinct: "distinct (map ix_key (batch_rows R enc batch))"
    and inside: "\<forall>x \<in> set (batch_rows R enc batch). a \<le> ix_block x \<and> ix_block x \<le> b"
    and fresh: "\<forall>x \<in> view_rows (range_key r) db. \<not> (a \<le> ix_block x \<and> ix_block x \<le> b)"
  shows "row_stored (range_key r) db' x \<and> a \<le> ix_block x \<and> ix_block x \<le> b \<longleftrightarrow> x \<in> set (batch_rows R enc batch)"
proof -
  have "view_rows (range_key r) db' = ci_rows (index_of db') (range_key r)" by (simp add: index_of_def)
  also have "\<dots> = put_rows (batch_rows R enc batch) (view_rows (range_key r) db)"
    by (simp add: commit_result(1) [OF commit keyed] commit_index_def) (simp add: index_of_def)
  finally have "row_stored (range_key r) db' x \<longleftrightarrow> x \<in> put_rows (batch_rows R enc batch) (view_rows (range_key r) db)"
    unfolding view_rows_def [of _ db'] by blast
  with inside fresh show ?thesis unfolding put_rows_distinct [OF distinct] by blast
qed

lemma batch_keys_distinct:
  assumes "distinct (map ix_key (batch_rows R enc batch))"
  shows "distinct (map (\<lambda>i. tree_key_of ck (tc_tree_number i) (tc_tree_position i)) (transact_commitments batch))"
    "distinct (map (\<lambda>i. tree_key_of ck (sc_tree_number i) (sc_tree_position i)) (shield_commitments batch))"
    "distinct (map (\<lambda>i. (ck, int (unat (nf_tree_number i)), nf_nullifier i)) (nullifiers batch))"
    "distinct (map (\<lambda>i. tree_key_of ck (le_tree_number i) (le_tree_position i)) (legacy_encrypted_commitments batch))"
    "distinct (map (\<lambda>i. tree_key_of ck (lg_tree_number i) (lg_tree_position i)) (legacy_generated_commitments batch))"
  using assms by (auto simp: batch_rows_def distinct_map inj_on_def)

lemma batch_rows_iff:
  "TransactIx t p r1 \<in> set (batch_rows R enc batch) \<longleftrightarrow>
     (\<exists>i \<in> set (transact_commitments batch). TransactIx t p r1 = transact_ix i)"
  "ShieldIx t p r2 \<in> set (batch_rows R enc batch) \<longleftrightarrow>
     (\<exists>i \<in> set (shield_commitments batch). ShieldIx t p r2 = shield_ix R i)"
  "NullifierIx t n r3 \<in> set (batch_rows R enc batch) \<longleftrightarrow>
     (\<exists>i \<in> set (nullifiers batch). NullifierIx t n r3 = nullifier_ix i)"
  "EncryptedIx t p r4 \<in> set (batch_rows R enc batch) \<longleftrightarrow>
     (\<exists>i \<in> set (legacy_encrypted_commitments batch). EncryptedIx t p r4 = encrypted_ix i)"
  "GeneratedIx t p r5 \<in> set (batch_rows R enc batch) \<longleftrightarrow>
     (\<exists>i \<in> set (legacy_generated_commitments batch). GeneratedIx t p r5 = generated_ix R enc i)"
  unfolding batch_rows_def by auto

lemma transact_ciphertext_row: "xt_ciphertext (transact_row_of i) = tc_ciphertext i"
  by (simp add: transact_row_of_def log_columns.defs indexed_transact_row.defs)

lemma scan_visits:
  assumes keyed: "tables_keyed db'"
    and rows: "\<And>x. row_stored ck db' x \<and> a \<le> ix_block x \<and> ix_block x \<le> b \<longleftrightarrow> x \<in> set (batch_rows R enc batch)"
  shows "(k1, r1) \<in> set (scan_rows ck a b (with_ciphertext (indexed_transact_commitments db'))) \<longleftrightarrow>
      (\<exists>i \<in> set (filter (\<lambda>i. tc_ciphertext i \<noteq> None) (transact_commitments batch)).
        k1 = tree_key_of ck (tc_tree_number i) (tc_tree_position i) \<and> r1 = transact_row_of i)"
    "(k1, r2) \<in> set (scan_rows ck a b (indexed_shield_commitments db')) \<longleftrightarrow>
      (\<exists>i \<in> set (shield_commitments batch).
        k1 = tree_key_of ck (sc_tree_number i) (sc_tree_position i) \<and> r2 = shield_row_of R i)"
    "(k3, r3) \<in> set (scan_rows ck a b (indexed_nullifiers db')) \<longleftrightarrow>
      (\<exists>i \<in> set (nullifiers batch).
        k3 = (ck, int (unat (nf_tree_number i)), nf_nullifier i) \<and> r3 = source_columns (nf_source i))"
    "(k1, r4) \<in> set (scan_rows ck a b (indexed_legacy_encrypted_commitments db')) \<longleftrightarrow>
      (\<exists>i \<in> set (legacy_encrypted_commitments batch).
        k1 = tree_key_of ck (le_tree_number i) (le_tree_position i) \<and> r4 = encrypted_row_of i)"
    "(k1, r5) \<in> set (scan_rows ck a b (indexed_legacy_generated_commitments db')) \<longleftrightarrow>
      (\<exists>i \<in> set (legacy_generated_commitments batch).
        k1 = tree_key_of ck (lg_tree_number i) (lg_tree_position i) \<and> r5 = generated_row_of R enc i)"
proof -
  note k = keyed_tables [OF keyed]
  obtain c1 t1 p1 where k1: "k1 = (c1, t1, p1)" by (cases k1)
  obtain c3 t3 n3 where k3: "k3 = (c3, t3, n3)" by (cases k3)
  show "(k1, r1) \<in> set (scan_rows ck a b (with_ciphertext (indexed_transact_commitments db'))) \<longleftrightarrow>
      (\<exists>i \<in> set (filter (\<lambda>i. tc_ciphertext i \<noteq> None) (transact_commitments batch)).
        k1 = tree_key_of ck (tc_tree_number i) (tc_tree_position i) \<and> r1 = transact_row_of i)"
    using rows [of "TransactIx t1 p1 r1"] unfolding k1 in_scan [OF with_ciphertext_keyed [OF k(1)]]
      with_ciphertext_lookup [OF k(1)] batch_rows_iff
    by (auto simp: transact_ciphertext_row)
  show "(k1, r2) \<in> set (scan_rows ck a b (indexed_shield_commitments db')) \<longleftrightarrow>
      (\<exists>i \<in> set (shield_commitments batch).
        k1 = tree_key_of ck (sc_tree_number i) (sc_tree_position i) \<and> r2 = shield_row_of R i)"
    using rows [of "ShieldIx t1 p1 r2"] unfolding k1 in_scan [OF k(2)] batch_rows_iff by auto
  show "(k3, r3) \<in> set (scan_rows ck a b (indexed_nullifiers db')) \<longleftrightarrow>
      (\<exists>i \<in> set (nullifiers batch).
        k3 = (ck, int (unat (nf_tree_number i)), nf_nullifier i) \<and> r3 = source_columns (nf_source i))"
    using rows [of "NullifierIx t3 n3 r3"] unfolding k3 in_scan [OF k(3)] batch_rows_iff by auto
  show "(k1, r4) \<in> set (scan_rows ck a b (indexed_legacy_encrypted_commitments db')) \<longleftrightarrow>
      (\<exists>i \<in> set (legacy_encrypted_commitments batch).
        k1 = tree_key_of ck (le_tree_number i) (le_tree_position i) \<and> r4 = encrypted_row_of i)"
    using rows [of "EncryptedIx t1 p1 r4"] unfolding k1 in_scan [OF k(4)] batch_rows_iff by auto
  show "(k1, r5) \<in> set (scan_rows ck a b (indexed_legacy_generated_commitments db')) \<longleftrightarrow>
      (\<exists>i \<in> set (legacy_generated_commitments batch).
        k1 = tree_key_of ck (lg_tree_number i) (lg_tree_position i) \<and> r5 = generated_row_of R enc i)"
    using rows [of "GeneratedIx t1 p1 r5"] unfolding k1 in_scan [OF k(5)] batch_rows_iff by auto
qed

text \<open>C35: what the indexer commits is what a wallet scan reads back. Let the keys of a batch be distinct, its rows lie
  in a range of blocks and no row of the chain lie there before. After the range is committed, a wallet scan over
  these blocks succeeds and returns, table by table and each exactly once, the commitments, nullifiers and legacy
  commitments of the batch with every column as it was; the one exception are the transact commitments without a
  ciphertext, which are stored but not scanned.\<close>

theorem committed_batch_scans_back:
  assumes commit: "commit_indexed_range R enc r batch db = Inr db'" and keyed: "tables_keyed db"
    and small: "unat a < 2 ^ 63" "unat b < 2 ^ 63"
    and distinct: "distinct (map ix_key (batch_rows R enc batch))"
    and inside: "\<forall>x \<in> set (batch_rows R enc batch). int (unat a) \<le> ix_block x \<and> ix_block x \<le> int (unat b)"
    and fresh: "\<forall>x \<in> view_rows (range_key r) db. \<not> (int (unat a) \<le> ix_block x \<and> ix_block x \<le> int (unat b))"
  shows "\<exists>rows. wallet_scan_rows (ir_chain_type r) (ir_chain_id r) (ir_railgun_contract r) a b db' = Inr rows
    \<and> mset (ws_transact_commitments rows) =
        mset (map scanned_transact (filter (\<lambda>i. tc_ciphertext i \<noteq> None) (transact_commitments batch)))
    \<and> mset (ws_shield_commitments rows) = mset (map (scanned_shield R) (shield_commitments batch))
    \<and> mset (ws_nullifiers rows) = mset (map scanned_nullifier (nullifiers batch))
    \<and> mset (ws_legacy_encrypted_commitments rows) = mset (map scanned_encrypted (legacy_encrypted_commitments batch))
    \<and> mset (ws_legacy_generated_commitments rows) =
        mset (map (scanned_generated R enc) (legacy_generated_commitments batch))"
proof -
  let ?ck = "range_key r" and ?a = "int (unat a)" and ?b = "int (unat b)"
  have keyed': "tables_keyed db'" by (rule commit_result(2) [OF commit keyed])
  note k = keyed_tables [OF keyed'] and d = batch_keys_distinct [OF distinct, of ?ck]
  note v = scan_visits [OF keyed' committed_rows [OF commit keyed distinct inside fresh]]
  have ck: "chain_key_of (ir_chain_type r) (ir_chain_id r) (ir_railgun_contract r) = Inr ?ck"
    using commit by (auto simp: commit_indexed_range_def persist_indexed_log_batch_def result_simps range_key_def)
  have conv: "u64_to_i64 v f = Inr (int (unat v))" if "unat v < 2 ^ 63" for v f
    using that by (simp only: u64_to_i64_iff simp_thms)
  have d1: "distinct (map (\<lambda>i. tree_key_of ?ck (tc_tree_number i) (tc_tree_position i))
      (filter (\<lambda>i. tc_ciphertext i \<noteq> None) (transact_commitments batch)))"
    by (rule distinct_map_filter [OF d(1)])
  have "\<exists>ys. traverse read_transact (scan_rows ?ck ?a ?b (with_ciphertext (indexed_transact_commitments db'))) = Inr ys
      \<and> mset ys = mset (map scanned_transact (filter (\<lambda>i. tc_ciphertext i \<noteq> None) (transact_commitments batch)))"
    by (rule scan_items [OF with_ciphertext_keyed [OF k(1)] d1]) (rule v(1), rule read_batch_rows(1))
  moreover have "\<exists>ys. traverse read_shield (scan_rows ?ck ?a ?b (indexed_shield_commitments db')) = Inr ys
      \<and> mset ys = mset (map (scanned_shield R) (shield_commitments batch))"
    by (rule scan_items [OF k(2) d(2)]) (rule v(2), rule read_batch_rows(2))
  moreover have "\<exists>ys. traverse read_nullifier (scan_rows ?ck ?a ?b (indexed_nullifiers db')) = Inr ys
      \<and> mset ys = mset (map scanned_nullifier (nullifiers batch))"
    by (rule scan_items [OF k(3) d(3)]) (rule v(3), rule read_batch_rows(3))
  moreover have "\<exists>ys. traverse read_encrypted (scan_rows ?ck ?a ?b (indexed_legacy_encrypted_commitments db')) = Inr ys
      \<and> mset ys = mset (map scanned_encrypted (legacy_encrypted_commitments batch))"
    by (rule scan_items [OF k(4) d(4)]) (rule v(4), rule read_batch_rows(4))
  moreover have "\<exists>ys. traverse read_generated (scan_rows ?ck ?a ?b (indexed_legacy_generated_commitments db')) = Inr ys
      \<and> mset ys = mset (map (scanned_generated R enc) (legacy_generated_commitments batch))"
    by (rule scan_items [OF k(5) d(5)]) (rule v(5), rule read_batch_rows(5))
  ultimately show ?thesis
    unfolding wallet_scan_rows_def ck conv [OF small(1)] conv [OF small(2)] and_then_simps by fastforce
qed

theorem committed_batch_scans_back_witness:
  "\<exists>db' rows. commit_indexed_range sample_lib (\<lambda>_. []) (range_of example_settings 0 20 (example_header 20 77))
      example_index_batch empty_chain_db = Inr db'
    \<and> wallet_scan_rows 0 1 7 0 20 db' = Inr rows
    \<and> mset (ws_nullifiers rows) = {#scanned_nullifier (hd (nullifiers example_index_batch))#}"
proof -
  let ?r = "range_of example_settings 0 20 (example_header 20 77)"
  from example_ops_run obtain db' where
    commit: "commit_indexed_range sample_lib (\<lambda>_. []) ?r example_index_batch empty_chain_db = Inr db'"
    by (auto simp: example_ops_def result_simps)
  have none: "view_rows ck empty_chain_db = {}" for ck
    by (auto simp: view_rows_def index_row_eqI empty_chain_db_def split: index_row.splits)
  have "distinct (map ix_key (batch_rows sample_lib (\<lambda>_. []) example_index_batch))"
    "\<forall>x \<in> set (batch_rows sample_lib (\<lambda>_. []) example_index_batch).
      int (unat (0 :: u64)) \<le> ix_block x \<and> ix_block x \<le> int (unat (20 :: u64))"
    by (simp_all add: example_index_batch_def empty_batch_def batch_rows_def source_columns_def)
  from committed_batch_scans_back [OF commit empty_chain_db_facts(1) _ _ this] commit
  show ?thesis by (auto simp: none range_of_def example_settings_def INDEXED_EVM_CHAIN_TYPE_def example_index_batch_def empty_batch_def)
qed

end
