(* ===== verification/Config_Check.thy ===== *)
theory Config_Check
  imports Scrape_Worker Chain_Indexer_Facts
begin

text \<open>
  The configuration and what is built from it: the checks of \<open>Config::validate\<close> with every error, in the order of
  the code, and the size of the Postgres pool (\<open>config.rs\<close>); the pairs of list key and chain, the groups in which
  their workers run and the worker of a pair (\<open>scrape/orchestrator.rs\<close>).

  A \<open>usize\<close> has 64 bits. A string is the list of its UTF-8 bytes. The texts of addresses and hashes in two
  errors are left out: the errors carry the values themselves. Reading the file, opening the pool and spawning the tasks are left out.
\<close>

definition SUPPORTED_CHAIN_IDS :: "u64 list" where
  "SUPPORTED_CHAIN_IDS = [1, 56, 137, 8453, 42161, 11155111]"

definition POSTGRES_BACKGROUND_CONNECTION_HEADROOM :: u64 where
  "POSTGRES_BACKGROUND_CONNECTION_HEADROOM = 5"

definition CONFIG_MAX_PAGE_SIZE :: u64 where
  "CONFIG_MAX_PAGE_SIZE = 100"

record chain_indexed_chain_config =
  cc_chain_id :: u64
  cc_railgun_contract :: address
  cc_rpc_url :: string
  cc_ws_url :: "string option"
  cc_archive_rpc_url :: string
  cc_start_block :: u64
  cc_v2_start_block :: u64
  cc_legacy_shield_block :: u64
  cc_action_start_block :: "u64 option"
  cc_datasets :: "indexed_dataset_kind list"
  cc_public_txid_compatibility_omissions :: "public_txid_omission list"

record chain_indexed_dataset_config =
  ci_enabled :: bool
  ci_chains :: "chain_indexed_chain_config list"
  ci_index_interval :: duration
  ci_tail_safety_interval :: duration
  ci_tail_safety_block_span :: u64
  ci_publish_interval :: duration
  ci_max_blocks_per_batch :: u64
  ci_safe_confirmations :: u64
  ci_public_txid_chunk_row_limit :: u64
  ci_commitment_chunk_row_limit :: u64

record config =
  cf_upstream_url :: string
  cf_list_keys :: "bytes32 list"
  cf_chain_ids :: "u64 list"
  cf_txid_version :: string
  cf_postgres_connection_string :: string
  cf_ipfs_endpoint :: string
  cf_publisher_signing_key_path :: string
  cf_chain_indexed_publisher_signing_key_path :: string
  cf_ipns_bootstrap_peers :: "string list"
  cf_ipns_record_lifetime :: duration
  cf_ipns_record_ttl :: duration
  cf_ipns_republish_interval :: duration
  cf_ipns_publish_timeout :: duration
  cf_page_size_max :: u64
  cf_retry_budget :: u64
  cf_polite_interval :: duration
  cf_blocked_shield_resync_interval :: duration
  cf_delta_publish_interval :: duration
  cf_base_rebuild_interval :: duration
  cf_retention_interval :: duration
  cf_per_pair_concurrency_limit :: u64
  cf_chain_indexed :: chain_indexed_dataset_config

datatype config_validation_error =
    EmptyListKeys
  | EmptyChainIds
  | EmptyPoiTxidVersion
  | UnknownChainId u64
  | PostgresPoolSizeOverflow
  | ZeroBlockedShieldResyncInterval
  | EmptyIpnsBootstrapPeers
  | SharedPublisherSigningKeyPath
  | ZeroIpnsRecordLifetime
  | ZeroIpnsRecordTtl
  | ZeroIpnsRepublishInterval
  | ZeroIpnsPublishTimeout
  | ZeroRetryBudget
  | ZeroPageSizeMax
  | PageSizeMaxTooLarge u64 u64
  | ZeroPoliteInterval
  | ZeroDeltaPublishInterval
  | ZeroBaseRebuildInterval
  | ZeroRetentionInterval
  | ZeroPerPairConcurrencyLimit
  | EmptyChainIndexedChains
  | ZeroChainIndexedIndexInterval
  | ZeroChainIndexedTailSafetyInterval
  | ZeroChainIndexedTailSafetyBlockSpan
  | ZeroChainIndexedPublishInterval
  | ZeroChainIndexedMaxBlocksPerBatch
  | ZeroPublicTxidChunkRowLimit
  | ZeroCommitmentChunkRowLimit
  | EmptyChainIndexedRpcUrl u64
  | EmptyChainIndexedWsUrl u64
  | EmptyChainIndexedArchiveRpcUrl u64
  | ZeroChainIndexedRailgunContract u64
  | EmptyChainIndexedDatasets u64
  | ChainIndexedActionStartBeforeStartBlock u64 u64 u64
  | DuplicateChainIndexedChain u64 address
  | DuplicatePublicTxidCompatibilityOmission u64 u64 bytes32 u64

type_synonym 'a validated = "config_validation_error + 'a"

text \<open>The white space of \<open>str::trim\<close>, in the UTF-8 bytes of the characters: one, two and three bytes long.\<close>

definition whitespace_bytes :: "nat list \<Rightarrow> bool" where
  "whitespace_bytes bs =
     (bs \<in> set [[9], [10], [11], [12], [13], [32], [194, 133], [194, 160], [225, 154, 128], [226, 128, 168],
        [226, 128, 169], [226, 128, 175], [226, 129, 159], [227, 128, 128]]
      \<or> bs \<in> set (map (\<lambda>b. [226, 128, b]) [128..<139]))"

fun blank_bytes :: "nat list \<Rightarrow> bool" where
  "blank_bytes [] = True"
| "blank_bytes (b # bs) =
     (if whitespace_bytes [b] then blank_bytes bs
      else if whitespace_bytes (take 2 (b # bs)) then blank_bytes (drop 1 bs)
      else whitespace_bytes (take 3 (b # bs)) \<and> blank_bytes (drop 2 bs))"

text \<open>\<open>trim().is_empty()\<close>.\<close>

definition is_blank :: "string \<Rightarrow> bool" where
  "is_blank s = blank_bytes (map of_char s)"

definition postgres_max_connections :: "config \<Rightarrow> u32 validated" where
  "postgres_max_connections c =
     and_then (ok_or PostgresPoolSizeOverflow (Option.bind (checked_mul (cf_per_pair_concurrency_limit c) 2)
       (\<lambda>workers. checked_add workers POSTGRES_BACKGROUND_CONNECTION_HEADROOM))) (\<lambda>workers.
       ok_or PostgresPoolSizeOverflow (try_from_word workers))"

text \<open>The loop over the omissions of a chain, with the set of those seen.\<close>

definition validate_omission ::
  "u64 \<Rightarrow> (u64 \<times> bytes32 \<times> u64) list \<Rightarrow> public_txid_omission
   \<Rightarrow> (u64 \<times> bytes32 \<times> u64) list validated" where
  "validate_omission chain_id seen om =
     (let key = (om_block_number om, om_transaction_hash om, om_railgun_transaction_index om) in
      if key \<in> set seen
      then Inl (DuplicatePublicTxidCompatibilityOmission chain_id (om_block_number om) (om_transaction_hash om)
        (om_railgun_transaction_index om))
      else Inr (key # seen))"

definition validate_chain ::
  "(u64 \<times> address) list \<Rightarrow> chain_indexed_chain_config \<Rightarrow> (u64 \<times> address) list validated" where
  "validate_chain seen ch =
     (let chain = cc_chain_id ch; key = (chain, cc_railgun_contract ch) in
      and_then (ensure (chain \<in> set SUPPORTED_CHAIN_IDS) (UnknownChainId chain)) (\<lambda>_.
      and_then (ensure (\<not> is_blank (cc_rpc_url ch)) (EmptyChainIndexedRpcUrl chain)) (\<lambda>_.
      and_then (ensure (case cc_ws_url ch of None \<Rightarrow> True | Some url \<Rightarrow> \<not> is_blank url) (EmptyChainIndexedWsUrl chain)) (\<lambda>_.
      and_then (ensure (\<not> is_blank (cc_archive_rpc_url ch)) (EmptyChainIndexedArchiveRpcUrl chain)) (\<lambda>_.
      and_then (ensure (cc_railgun_contract ch \<noteq> 0) (ZeroChainIndexedRailgunContract chain)) (\<lambda>_.
      and_then (case cc_action_start_block ch of
                  None \<Rightarrow> Inr ()
                | Some action_start \<Rightarrow> ensure (cc_start_block ch \<le> action_start)
                    (ChainIndexedActionStartBeforeStartBlock chain action_start (cc_start_block ch))) (\<lambda>_.
      and_then (ensure (cc_datasets ch \<noteq> []) (EmptyChainIndexedDatasets chain)) (\<lambda>_.
      and_then (ensure (key \<notin> set seen) (DuplicateChainIndexedChain chain (cc_railgun_contract ch))) (\<lambda>_.
      and_then (try_fold (validate_omission chain) [] (cc_public_txid_compatibility_omissions ch)) (\<lambda>_.
        Inr (key # seen)))))))))))"

definition validate_chain_indexed :: "chain_indexed_dataset_config \<Rightarrow> unit validated" where
  "validate_chain_indexed ci =
     (if \<not> ci_enabled ci then Inr ()
      else
        and_then (ensure (ci_chains ci \<noteq> []) EmptyChainIndexedChains) (\<lambda>_.
        and_then (ensure (ci_index_interval ci \<noteq> 0) ZeroChainIndexedIndexInterval) (\<lambda>_.
        and_then (ensure (ci_tail_safety_interval ci \<noteq> 0) ZeroChainIndexedTailSafetyInterval) (\<lambda>_.
        and_then (ensure (ci_tail_safety_block_span ci \<noteq> 0) ZeroChainIndexedTailSafetyBlockSpan) (\<lambda>_.
        and_then (ensure (ci_publish_interval ci \<noteq> 0) ZeroChainIndexedPublishInterval) (\<lambda>_.
        and_then (ensure (ci_max_blocks_per_batch ci \<noteq> 0) ZeroChainIndexedMaxBlocksPerBatch) (\<lambda>_.
        and_then (ensure (ci_public_txid_chunk_row_limit ci \<noteq> 0) ZeroPublicTxidChunkRowLimit) (\<lambda>_.
        and_then (ensure (ci_commitment_chunk_row_limit ci \<noteq> 0) ZeroCommitmentChunkRowLimit) (\<lambda>_.
        and_then (try_fold validate_chain [] (ci_chains ci)) (\<lambda>_.
          Inr ()))))))))))"

definition validate_chain_id :: "u64 \<Rightarrow> unit validated" where
  "validate_chain_id chain = ensure (chain \<in> set SUPPORTED_CHAIN_IDS) (UnknownChainId chain)"

definition validate :: "config \<Rightarrow> unit validated" where
  "validate c =
     and_then (ensure (cf_list_keys c \<noteq> []) EmptyListKeys) (\<lambda>_.
     and_then (ensure (cf_chain_ids c \<noteq> []) EmptyChainIds) (\<lambda>_.
     and_then (ensure (\<not> is_blank (cf_txid_version c)) EmptyPoiTxidVersion) (\<lambda>_.
     and_then (traverse validate_chain_id (cf_chain_ids c)) (\<lambda>_.
     and_then (ensure (cf_blocked_shield_resync_interval c \<noteq> 0) ZeroBlockedShieldResyncInterval) (\<lambda>_.
     and_then (ensure (cf_ipns_bootstrap_peers c \<noteq> []) EmptyIpnsBootstrapPeers) (\<lambda>_.
     and_then (ensure (cf_publisher_signing_key_path c \<noteq> cf_chain_indexed_publisher_signing_key_path c)
       SharedPublisherSigningKeyPath) (\<lambda>_.
     and_then (ensure (cf_ipns_record_lifetime c \<noteq> 0) ZeroIpnsRecordLifetime) (\<lambda>_.
     and_then (ensure (cf_ipns_record_ttl c \<noteq> 0) ZeroIpnsRecordTtl) (\<lambda>_.
     and_then (ensure (cf_ipns_republish_interval c \<noteq> 0) ZeroIpnsRepublishInterval) (\<lambda>_.
     and_then (ensure (cf_ipns_publish_timeout c \<noteq> 0) ZeroIpnsPublishTimeout) (\<lambda>_.
     and_then (ensure (cf_retry_budget c \<noteq> 0) ZeroRetryBudget) (\<lambda>_.
     and_then (ensure (cf_page_size_max c \<noteq> 0) ZeroPageSizeMax) (\<lambda>_.
     and_then (ensure (cf_page_size_max c \<le> CONFIG_MAX_PAGE_SIZE)
       (PageSizeMaxTooLarge (cf_page_size_max c) CONFIG_MAX_PAGE_SIZE)) (\<lambda>_.
     and_then (ensure (cf_polite_interval c \<noteq> 0) ZeroPoliteInterval) (\<lambda>_.
     and_then (ensure (cf_delta_publish_interval c \<noteq> 0) ZeroDeltaPublishInterval) (\<lambda>_.
     and_then (ensure (cf_base_rebuild_interval c \<noteq> 0) ZeroBaseRebuildInterval) (\<lambda>_.
     and_then (ensure (cf_retention_interval c \<noteq> 0) ZeroRetentionInterval) (\<lambda>_.
     and_then (ensure (cf_per_pair_concurrency_limit c \<noteq> 0) ZeroPerPairConcurrencyLimit) (\<lambda>_.
     and_then (validate_chain_indexed (cf_chain_indexed c)) (\<lambda>_.
     and_then (postgres_max_connections c) (\<lambda>_.
       Inr ())))))))))))))))))))))"

section \<open>The workers of a configuration\<close>

definition DEFAULT_MIN_PAGE_SIZE :: nat where
  "DEFAULT_MIN_PAGE_SIZE = 25"

definition DEFAULT_RETRY_BASE_DELAY :: duration where
  "DEFAULT_RETRY_BASE_DELAY = 2 * 10 ^ 9"

definition DEFAULT_RETRY_MAX_DELAY :: duration where
  "DEFAULT_RETRY_MAX_DELAY = 600 * 10 ^ 9"

definition pairs :: "config \<Rightarrow> (bytes32 \<times> u64) list" where
  "pairs c = concat (map (\<lambda>list_key. map (\<lambda>chain. (list_key, chain)) (cf_chain_ids c)) (cf_list_keys c))"

text \<open>\<open>slice::chunks\<close>, which panics on a size of zero: the value \<open>None\<close>.\<close>

fun chunks_of :: "nat \<Rightarrow> 'a list \<Rightarrow> 'a list list" where
  "chunks_of n [] = []"
| "chunks_of n (x # xs) = take (Suc n) (x # xs) # chunks_of n (drop n xs)"

definition chunks :: "nat \<Rightarrow> 'a list \<Rightarrow> 'a list list option" where
  "chunks n xs = (case n of 0 \<Rightarrow> None | Suc m \<Rightarrow> Some (chunks_of m xs))"

definition worker_for_pair :: "config \<Rightarrow> bytes32 \<times> u64 \<Rightarrow> scrape_worker \<times> page_size_adapter" where
  "worker_for_pair c = (\<lambda>(list_key, chain).
     (\<lparr>sk_list_key = list_key, sk_chain_id = chain, sk_upstream_url = cf_upstream_url c,
       sk_retry_policy = \<lparr>budget = unat (cf_retry_budget c), base_delay = DEFAULT_RETRY_BASE_DELAY,
         max_delay = DEFAULT_RETRY_MAX_DELAY\<rparr>,
       sk_polite_interval = cf_polite_interval c, sk_txid_version = cf_txid_version c\<rparr>,
      page_size_new (unat (cf_page_size_max c)) (unat (cf_page_size_max c)) DEFAULT_MIN_PAGE_SIZE))"

text \<open>The groups of workers that run at the same time, one group after the other.\<close>

definition worker_groups :: "config \<Rightarrow> (scrape_worker \<times> page_size_adapter) list list option" where
  "worker_groups c =
     map_option (map (map (worker_for_pair c))) (chunks (unat (cf_per_pair_concurrency_limit c)) (pairs c))"

definition settings_of :: "chain_indexed_dataset_config \<Rightarrow> chain_indexed_chain_config \<Rightarrow> chain_settings" where
  "settings_of ci ch =
     \<lparr>st_chain_id = cc_chain_id ch, st_railgun_contract = cc_railgun_contract ch, st_start_block = cc_start_block ch,
      st_v2_start_block = cc_v2_start_block ch, st_legacy_shield_block = cc_legacy_shield_block ch,
      st_action_start_block = cc_action_start_block ch, st_safe_confirmations = ci_safe_confirmations ci,
      st_max_blocks_per_batch = ci_max_blocks_per_batch ci,
      st_tail_safety_block_span = ci_tail_safety_block_span ci\<rparr>"

section \<open>What an accepted configuration has\<close>

lemma chunks_of_groups:
  "concat (chunks_of n xs) = xs \<and> (\<forall>g \<in> set (chunks_of n xs). g \<noteq> [] \<and> length g \<le> Suc n)"
  by (induction n xs rule: chunks_of.induct) auto

lemma omissions_seen:
  "try_fold (validate_omission chain) seen oms = Inr seen' \<Longrightarrow> distinct seen \<Longrightarrow>
   distinct (map (\<lambda>om. (om_block_number om, om_transaction_hash om, om_railgun_transaction_index om)) oms)
   \<and> set seen \<inter> set (map (\<lambda>om. (om_block_number om, om_transaction_hash om, om_railgun_transaction_index om)) oms) = {}"
proof (induction oms arbitrary: seen)
  case (Cons om oms)
  let ?key = "(om_block_number om, om_transaction_hash om, om_railgun_transaction_index om)"
  have step: "validate_omission chain seen om = Inr s \<longleftrightarrow> ?key \<notin> set seen \<and> s = ?key # seen" for s
    by (auto simp: validate_omission_def Let_def)
  from Cons.prems have new: "?key \<notin> set seen" and rest: "try_fold (validate_omission chain) (?key # seen) oms = Inr seen'"
    by (auto simp: result_simps step)
  from Cons.IH [OF rest] new Cons.prems(2) show ?case by auto
qed simp

definition chain_ok :: "chain_indexed_chain_config \<Rightarrow> bool" where
  "chain_ok ch \<longleftrightarrow>
     cc_chain_id ch \<in> set SUPPORTED_CHAIN_IDS \<and> cc_railgun_contract ch \<noteq> 0 \<and> cc_datasets ch \<noteq> []
     \<and> (case cc_action_start_block ch of None \<Rightarrow> True | Some b \<Rightarrow> cc_start_block ch \<le> b)
     \<and> distinct (map (\<lambda>om. (om_block_number om, om_transaction_hash om, om_railgun_transaction_index om))
         (cc_public_txid_compatibility_omissions ch))"

lemma validate_chain_Inr:
  "validate_chain seen ch = Inr seen' \<Longrightarrow>
   chain_ok ch \<and> (cc_chain_id ch, cc_railgun_contract ch) \<notin> set seen
   \<and> seen' = (cc_chain_id ch, cc_railgun_contract ch) # seen"
  using omissions_seen [of "cc_chain_id ch" "[]"]
  by (auto simp: validate_chain_def chain_ok_def Let_def result_simps split: option.splits)

lemma chains_seen:
  "try_fold validate_chain seen chs = Inr seen' \<Longrightarrow>
   list_all chain_ok chs \<and> distinct (map (\<lambda>ch. (cc_chain_id ch, cc_railgun_contract ch)) chs)
   \<and> set seen \<inter> set (map (\<lambda>ch. (cc_chain_id ch, cc_railgun_contract ch)) chs) = {}"
proof (induction chs arbitrary: seen)
  case (Cons ch chs)
  then obtain s1 where one: "validate_chain seen ch = Inr s1" and rest: "try_fold validate_chain s1 chs = Inr seen'"
    by (auto simp: result_simps)
  from validate_chain_Inr [OF one] Cons.IH [OF rest] show ?case by auto
qed simp

lemma pool_size_iff:
  "postgres_max_connections c = Inr n \<longleftrightarrow> unat n = 2 * unat (cf_per_pair_concurrency_limit c) + 5"
proof
  show "postgres_max_connections c = Inr n \<Longrightarrow> unat n = 2 * unat (cf_per_pair_concurrency_limit c) + 5"
    by (auto simp: postgres_max_connections_def POSTGRES_BACKGROUND_CONNECTION_HEADROOM_def result_simps checked_simps
        bind_eq_Some_conv)
next
  assume n: "unat n = 2 * unat (cf_per_pair_concurrency_limit c) + 5"
  define y :: u64 where "y = word_of_nat (unat (cf_per_pair_concurrency_limit c) * 2)"
  have small: "unat n < 2 ^ 32" using unat_less_exp [of n] by simp
  have "unat (cf_per_pair_concurrency_limit c) * 2 < 2 ^ LENGTH(64)" using n small by simp
  then have y: "unat y = unat (cf_per_pair_concurrency_limit c) * 2" unfolding y_def by (rule unat_word_of_nat)
  have x: "unat (ucast n :: u64) = unat n" by (simp add: unat_ucast_up)
  have mul: "checked_mul (cf_per_pair_concurrency_limit c) 2 = Some y" by (simp add: checked_simps y)
  have add: "checked_add y POSTGRES_BACKGROUND_CONNECTION_HEADROOM = Some (ucast n)"
    by (simp add: checked_simps x y n POSTGRES_BACKGROUND_CONNECTION_HEADROOM_def)
  have "try_from_word (ucast n :: u64) = Some n" by (simp add: checked_simps x)
  then show "postgres_max_connections c = Inr n" by (simp add: postgres_max_connections_def mul add)
qed

lemma validate_Inr:
  assumes "validate c = Inr ()"
  shows "cf_per_pair_concurrency_limit c \<noteq> 0" "cf_page_size_max c \<noteq> 0" "cf_page_size_max c \<le> CONFIG_MAX_PAGE_SIZE"
    "cf_retry_budget c \<noteq> 0" "list_all (\<lambda>chain. chain \<in> set SUPPORTED_CHAIN_IDS) (cf_chain_ids c)"
    "validate_chain_indexed (cf_chain_indexed c) = Inr ()" "\<exists>n. postgres_max_connections c = Inr n"
proof -
  have "list_all (\<lambda>chain. chain \<in> set SUPPORTED_CHAIN_IDS) xs" if "traverse validate_chain_id xs = Inr ys" for xs ys
    using that by (induction xs arbitrary: ys) (auto simp: result_simps validate_chain_id_def)
  with assms show "cf_per_pair_concurrency_limit c \<noteq> 0" "cf_page_size_max c \<noteq> 0"
    "cf_page_size_max c \<le> CONFIG_MAX_PAGE_SIZE" "cf_retry_budget c \<noteq> 0"
    "list_all (\<lambda>chain. chain \<in> set SUPPORTED_CHAIN_IDS) (cf_chain_ids c)"
    unfolding validate_def result_simps by blast+
  from assms have "\<exists>u. validate_chain_indexed (cf_chain_indexed c) = Inr u" "\<exists>n. postgres_max_connections c = Inr n"
    by (auto simp: validate_def and_then_Inr_iff)
  then show "validate_chain_indexed (cf_chain_indexed c) = Inr ()" "\<exists>n. postgres_max_connections c = Inr n" by auto
qed

lemma validate_chain_indexed_Inr:
  assumes "validate_chain_indexed ci = Inr ()" and "ci_enabled ci"
  shows "0 < ci_max_blocks_per_batch ci" "0 < ci_tail_safety_block_span ci" "list_all chain_ok (ci_chains ci)"
    "distinct (map (\<lambda>ch. (cc_chain_id ch, cc_railgun_contract ch)) (ci_chains ci))"
  using assms by (auto simp: validate_chain_indexed_def result_simps word_gt_0 dest!: chains_seen)

text \<open>C37: what an accepted configuration guarantees to the parts that run on it. The groups of scrape workers exist -
  splitting by a concurrency limit of zero would panic -, put end to end they are the workers of all pairs of list key
  and chain in order, and twice the workers of a group plus five connections never exceed the Postgres pool. Every
  worker starts with well-formed page sizes and at least one attempt. With chain indexing on, no chain and contract is
  indexed twice, no omission is listed twice, the action blocks do not start before the chain does, and the span of
  blocks starts within its bounds.\<close>

theorem accepted_config_runs:
  assumes valid: "validate c = Inr ()"
  shows "\<exists>n groups. postgres_max_connections c = Inr n \<and> worker_groups c = Some groups
      \<and> concat groups = map (worker_for_pair c) (pairs c)
      \<and> (\<forall>g \<in> set groups. g \<noteq> [] \<and> 2 * length g + 5 \<le> unat n
           \<and> (\<forall>(wk, page) \<in> set g. page_size_wf page \<and> 0 < budget (sk_retry_policy wk)
                \<and> sk_chain_id wk \<in> set SUPPORTED_CHAIN_IDS))
      \<and> (ci_enabled (cf_chain_indexed c) \<longrightarrow>
           distinct (map (\<lambda>ch. (cc_chain_id ch, cc_railgun_contract ch)) (ci_chains (cf_chain_indexed c)))
           \<and> (\<forall>ch \<in> set (ci_chains (cf_chain_indexed c)). chain_ok ch
             \<and> span_ok (settings_of (cf_chain_indexed c) ch) (initial_span (settings_of (cf_chain_indexed c) ch))))"
proof -
  note v = validate_Inr [OF valid]
  from v(7) obtain n where n: "postgres_max_connections c = Inr n" ..
  obtain m where m: "unat (cf_per_pair_concurrency_limit c) = Suc m" using v(1) by (metis unat_eq_zero not0_implies_Suc)
  let ?groups = "map (map (worker_for_pair c)) (chunks_of m (pairs c))"
  have groups: "worker_groups c = Some ?groups" by (simp add: worker_groups_def chunks_def m)
  note g = chunks_of_groups [of m "pairs c"]
  have all: "concat ?groups = map (worker_for_pair c) (pairs c)" using g by (simp add: map_concat [symmetric])
  have "g \<noteq> [] \<and> 2 * length g + 5 \<le> unat n" if "g \<in> set ?groups" for g
    using that g n by (auto simp: pool_size_iff m)
  moreover have "page_size_wf page \<and> 0 < budget (sk_retry_policy wk) \<and> sk_chain_id wk \<in> set SUPPORTED_CHAIN_IDS"
    if "g \<in> set ?groups" "(wk, page) \<in> set g" for g wk page
  proof -
    have "(wk, page) \<in> set (concat ?groups)" using that by auto
    then have "(wk, page) \<in> worker_for_pair c ` set (pairs c)" unfolding all by simp
    with v(4, 5) show ?thesis
      by (auto simp: worker_for_pair_def pairs_def list_all_iff unat_gt_0 intro: page_size_new_wf)
  qed
  moreover have "ci_enabled (cf_chain_indexed c) \<longrightarrow>
      distinct (map (\<lambda>ch. (cc_chain_id ch, cc_railgun_contract ch)) (ci_chains (cf_chain_indexed c)))
      \<and> (\<forall>ch \<in> set (ci_chains (cf_chain_indexed c)). chain_ok ch
           \<and> span_ok (settings_of (cf_chain_indexed c) ch) (initial_span (settings_of (cf_chain_indexed c) ch)))"
    using validate_chain_indexed_Inr [OF v(6)] by (auto simp: list_all_iff settings_of_def intro!: initial_span_ok)
  ultimately show ?thesis using n groups all by blast
qed

definition example_config :: config where
  "example_config =
     \<lparr>cf_upstream_url = ''u'', cf_list_keys = [1, 2], cf_chain_ids = [1, 56], cf_txid_version = ''V2'',
      cf_postgres_connection_string = ''p'', cf_ipfs_endpoint = ''i'', cf_publisher_signing_key_path = ''a'',
      cf_chain_indexed_publisher_signing_key_path = ''b'', cf_ipns_bootstrap_peers = [''x''],
      cf_ipns_record_lifetime = 1, cf_ipns_record_ttl = 1, cf_ipns_republish_interval = 1, cf_ipns_publish_timeout = 1,
      cf_page_size_max = 100, cf_retry_budget = 3, cf_polite_interval = 1, cf_blocked_shield_resync_interval = 1,
      cf_delta_publish_interval = 1, cf_base_rebuild_interval = 1, cf_retention_interval = 1,
      cf_per_pair_concurrency_limit = 3,
      cf_chain_indexed = \<lparr>ci_enabled = True, ci_chains = [\<lparr>cc_chain_id = 1, cc_railgun_contract = 7, cc_rpc_url = ''r'',
        cc_ws_url = None, cc_archive_rpc_url = ''r'', cc_start_block = 5, cc_v2_start_block = 6,
        cc_legacy_shield_block = 7, cc_action_start_block = Some 8, cc_datasets = [WalletScan],
        cc_public_txid_compatibility_omissions = []\<rparr>],
        ci_index_interval = 1, ci_tail_safety_interval = 1, ci_tail_safety_block_span = 1, ci_publish_interval = 1,
        ci_max_blocks_per_batch = 10, ci_safe_confirmations = 12, ci_public_txid_chunk_row_limit = 1,
        ci_commitment_chunk_row_limit = 1\<rparr>\<rparr>"

theorem accepted_config_runs_witness:
  "validate example_config = Inr ()
   \<and> (\<exists>groups. worker_groups example_config = Some groups \<and> map length groups = [3, 1]
        \<and> concat groups = map (worker_for_pair example_config) (pairs example_config))"
proof -
  have "postgres_max_connections example_config = Inr 11" by (simp add: pool_size_iff example_config_def)
  then have valid: "validate example_config = Inr ()"
    by (simp add: validate_def validate_chain_indexed_def validate_chain_def validate_chain_id_def example_config_def
        SUPPORTED_CHAIN_IDS_def CONFIG_MAX_PAGE_SIZE_def is_blank_def whitespace_bytes_def ensure_def Let_def)
  have "worker_groups example_config = Some [map (worker_for_pair example_config) [(1, 1), (1, 56), (2, 1)],
      map (worker_for_pair example_config) [(2, 56)]]"
  proof -
    have limit: "unat (cf_per_pair_concurrency_limit example_config) = Suc 2" by (simp add: example_config_def)
    have "pairs example_config = [(1, 1), (1, 56), (2, 1), (2, 56)]" by (simp add: pairs_def example_config_def)
    then show ?thesis by (simp add: worker_groups_def chunks_def limit numeral_2_eq_2)
  qed
  with valid accepted_config_runs [OF valid] show ?thesis by auto
qed

end
