(* ===== verification/Poi_Corpus.thy ===== *)
theory Poi_Corpus
  imports Scrape_Facts
begin

text \<open>
  The corpus of POI events that a publication is made of (\<open>poi_v4.rs\<close>): the replay of the stored events with all its
  checks, the artifact of a range of events, the division of a checkpoint into artifacts; and the choice of the
  bridges a publication keeps and of the moment of its rotation (\<open>main.rs\<close>).

  The cache of the Merkle roots, the artifact format, the signatures and the span of a checkpoint artifact belong to
  another crate: they are the fields of \<open>corpus_lib\<close>.
\<close>

record scope =
  sp_chain_type :: u8
  sp_chain_id :: u64
  sp_txid_version :: string
  sp_list_key :: bytes32

datatype event_artifact_kind = CheckpointArtifact | CurrentTailArtifact | BridgeArtifact

record ('u, 'c, 'a) corpus_lib = "('u, 'c) scrape_lib" +
  root_at_global_index :: "'c \<Rightarrow> u64 \<Rightarrow> bytes32 option"
  event_artifact_new ::
    "scope \<Rightarrow> event_artifact_kind \<Rightarrow> bytes32 option \<Rightarrow> bytes32 \<Rightarrow> snapshot_event list \<Rightarrow> string + 'a"
  event_artifact_bytes :: "'a \<Rightarrow> string + u8 list"
  corpus_content_hash :: "u8 list \<Rightarrow> bytes32"
  checkpoint_event_span :: u64

record 'a prepared_event_artifact =
  pa_artifact :: 'a
  pa_bytes :: "u8 list"
  pa_sha256 :: bytes32

record 'c validated_corpus =
  vc_scope :: scope
  vc_events :: "snapshot_event list"
  vc_cache :: 'c

datatype corpus_publication_error =
    Contract string
  | CorpusCache string
  | CorpusInvalidSignature u64 string
  | CorpusNonContiguous u64 u64
  | FinalRootPresenceMismatch
  | FinalRootMismatch u64 bytes32 bytes32
  | MissingRoot u64
  | CheckpointBeyondTip u64 u64
  | InvalidEventRange u64 u64 u64
  | ArithmeticOverflow

type_synonym 'a published = "corpus_publication_error + 'a"

definition replay_event ::
  "('u, 'c, 'a) corpus_lib \<Rightarrow> bytes32 \<Rightarrow> nat \<times> stored_event \<Rightarrow> snapshot_event published" where
  "replay_event lib list_key = (\<lambda>(offset, stored).
     and_then (ok_or ArithmeticOverflow (try_from_len offset)) (\<lambda>expected.
     and_then (ensure (st_event_index stored = expected) (CorpusNonContiguous expected (st_event_index stored))) (\<lambda>_.
     and_then (map_err (CorpusInvalidSignature (st_event_index stored)) (verify_poi_event lib
       \<lparr>ev_index = st_event_index stored, ev_blinded_commitment = st_blinded_commitment stored,
        ev_signature = hex_encode64 lib (st_signature stored), ev_type = st_event_type stored\<rparr> list_key)) (\<lambda>_.
       Inr stored))))"

definition check_final_root ::
  "('u, 'c, 'a) corpus_lib \<Rightarrow> 'c \<Rightarrow> snapshot_event list \<Rightarrow> bytes32 option \<Rightarrow> unit published" where
  "check_final_root lib cache events expected_final_root =
     (case (events, expected_final_root) of
        ([], None) \<Rightarrow> Inr ()
      | ([], Some _) \<Rightarrow> Inl FinalRootPresenceMismatch
      | (_ # _, None) \<Rightarrow> Inl FinalRootPresenceMismatch
      | (_ # _, Some expected) \<Rightarrow>
          let final_event = List.last events in
          and_then (ok_or (MissingRoot (st_event_index final_event))
            (root_at_global_index lib cache (st_event_index final_event))) (\<lambda>actual.
            ensure (actual = expected) (FinalRootMismatch (st_event_index final_event) expected actual)))"

definition replay ::
  "('u, 'c, 'a) corpus_lib \<Rightarrow> scope \<Rightarrow> stored_event list \<Rightarrow> bytes32 option \<Rightarrow> 'c validated_corpus published" where
  "replay lib sp stored_events expected_final_root =
     (let cache = poi_cache_new lib (sp_chain_type sp) (sp_chain_id sp) (sp_txid_version sp) (sp_list_key sp) in
      and_then (traverse (replay_event lib (sp_list_key sp)) (List.enumerate 0 stored_events)) (\<lambda>events.
      and_then (map_err CorpusCache (apply_verified_artifact_events lib cache events)) (\<lambda>cache'.
      and_then (check_final_root lib cache' events expected_final_root) (\<lambda>_.
        Inr \<lparr>vc_scope = sp, vc_events = events, vc_cache = cache'\<rparr>))))"

definition event_count :: "'c validated_corpus \<Rightarrow> u64" where
  "event_count c = (case try_from_len (length (vc_events c)) of None \<Rightarrow> - 1 | Some n \<Rightarrow> n)"

definition root_at :: "('u, 'c, 'a) corpus_lib \<Rightarrow> 'c validated_corpus \<Rightarrow> u64 \<Rightarrow> bytes32 published" where
  "root_at lib c index = ok_or (MissingRoot index) (root_at_global_index lib (vc_cache c) index)"

definition prepare_event_artifact ::
  "('u, 'c, 'a) corpus_lib \<Rightarrow> 'c validated_corpus \<Rightarrow> event_artifact_kind \<Rightarrow> u64 \<Rightarrow> u64
   \<Rightarrow> 'a prepared_event_artifact published" where
  "prepare_event_artifact lib c kind start_index end_index =
     (if end_index < start_index \<or> event_count c \<le> end_index
      then Inl (InvalidEventRange start_index end_index (event_count c))
      else
        and_then (case checked_sub start_index 1 of
                    None \<Rightarrow> Inr None
                  | Some i \<Rightarrow> and_then (root_at lib c i) (\<lambda>root. Inr (Some root))) (\<lambda>start_root.
        and_then (root_at lib c end_index) (\<lambda>end_root.
        and_then (map_err Contract (event_artifact_new lib (vc_scope c) kind start_root end_root
          (take (unat end_index + 1 - unat start_index) (drop (unat start_index) (vc_events c))))) (\<lambda>artifact.
        and_then (map_err Contract (event_artifact_bytes lib artifact)) (\<lambda>bytes.
          Inr \<lparr>pa_artifact = artifact, pa_bytes = bytes, pa_sha256 = corpus_content_hash lib bytes\<rparr>)))))"

text \<open>The \<open>while\<close> loop of \<open>prepare_checkpoint\<close> from \<open>start\<close> on.\<close>

function checkpoint_loop ::
  "('u, 'c, 'a) corpus_lib \<Rightarrow> 'c validated_corpus \<Rightarrow> u64 \<Rightarrow> u64 \<Rightarrow> 'a prepared_event_artifact list published" where
  "checkpoint_loop lib c total_events start =
     (if total_events \<le> start then Inr []
      else
        (case checked_add start (checkpoint_event_span lib - 1) of
           None \<Rightarrow> Inl ArithmeticOverflow
         | Some limit \<Rightarrow>
             let end_index = min limit (total_events - 1) in
             (case prepare_event_artifact lib c CheckpointArtifact start end_index of
                Inl e \<Rightarrow> Inl e
              | Inr artifact \<Rightarrow>
                  (case checked_add end_index 1 of
                     None \<Rightarrow> Inl ArithmeticOverflow
                   | Some following \<Rightarrow>
                       (case checkpoint_loop lib c total_events following of
                          Inl e \<Rightarrow> Inl e
                        | Inr rest \<Rightarrow> Inr (artifact # rest))))))"
  by pat_completeness auto

lemma checkpoint_next:
  assumes "\<not> total_events \<le> (start :: u64)" and limit: "checked_add start step = Some limit"
    and nx: "checked_add (min limit (total_events - 1)) 1 = Some following"
  shows "unat start < unat following" and "unat following = min (unat limit) (unat total_events - 1) + 1"
    and "unat start \<le> unat (min limit (total_events - 1))"
proof -
  have lt: "unat start < unat total_events" using assms(1) by (simp add: word_le_nat_alt)
  have m1: "unat (total_events - 1) = unat total_events - 1"
    using lt by (metis unat_sub_le checked_sub_Some_iff unat_1 One_nat_def Suc_leI gr_implies_not0 not_gr_zero)
  have e: "unat (min limit (total_events - 1)) = min (unat limit) (unat total_events - 1)"
    by (simp add: min_def word_le_nat_alt m1)
  from nx show "unat following = min (unat limit) (unat total_events - 1) + 1" by (simp add: checked_simps e)
  with limit lt show "unat start < unat following" by (auto simp: checked_simps)
  from limit lt show "unat start \<le> unat (min limit (total_events - 1))" by (auto simp: checked_simps e)
qed

lemma checkpoint_decreases:
  "start < total_events \<Longrightarrow> checked_add start step = Some limit \<Longrightarrow>
   checked_add (min limit (total_events - 1)) 1 = Some following \<Longrightarrow>
   unat total_events - unat following < unat total_events - unat (start :: u64)"
  using checkpoint_next(1) [of total_events start step limit following] by (simp add: not_le word_less_nat_alt)

termination checkpoint_loop
  by (relation "measure (\<lambda>(_, _, total_events, start). unat total_events - unat start)")
    (auto simp: not_le intro: checkpoint_decreases)

definition prepare_checkpoint ::
  "('u, 'c, 'a) corpus_lib \<Rightarrow> 'c validated_corpus \<Rightarrow> u64 \<Rightarrow> 'a prepared_event_artifact list published" where
  "prepare_checkpoint lib c checkpoint_event_count =
     (if event_count c < checkpoint_event_count
      then Inl (CheckpointBeyondTip checkpoint_event_count (event_count c))
      else checkpoint_loop lib c checkpoint_event_count 0)"

declare checkpoint_loop.simps [simp del]

section \<open>Bridges\<close>

text \<open>A bridge is known by its content identifier \<open>cid\<close>. Times are nanoseconds since the epoch. The largest number of
  bridges, \<open>MAX_RETAINED_BRIDGES\<close>, comes from another crate and is an argument.\<close>

definition V4_BRIDGE_RETENTION_TARGET :: duration where
  "V4_BRIDGE_RETENTION_TARGET = 168 * 3600 * 10 ^ 9"

definition retain_step ::
  "(string \<Rightarrow> nat option) \<Rightarrow> string list \<Rightarrow> nat \<Rightarrow> ('b \<Rightarrow> string) \<Rightarrow> 'b list \<Rightarrow> 'b \<Rightarrow> unit + 'b list" where
  "retain_step published_at active_cids now cid retained bridge =
     and_then (case published_at (cid bridge) of
                 Some t \<Rightarrow> Inr t
               | None \<Rightarrow> if cid bridge \<in> set active_cids then Inl () else Inr now) (\<lambda>t.
       Inr (if t \<le> now \<and> now - t \<le> V4_BRIDGE_RETENTION_TARGET then retained @ [bridge] else retained))"

definition retain_recent_bridges ::
  "nat \<Rightarrow> (string \<Rightarrow> nat option) \<Rightarrow> string list \<Rightarrow> nat \<Rightarrow> ('b \<Rightarrow> string) \<Rightarrow> 'b list \<Rightarrow> unit + 'b list" where
  "retain_recent_bridges max_bridges published_at active_cids now cid bridges =
     and_then (try_fold (retain_step published_at active_cids now cid) [] bridges) (\<lambda>retained.
       Inr (if max_bridges < length retained then drop (length retained - max_bridges) retained else retained))"

definition poi_artifact_rotation_required :: "bool \<Rightarrow> nat option \<Rightarrow> nat \<Rightarrow> bool \<Rightarrow> bool" where
  "poi_artifact_rotation_required has_active_tail checkpoint_age rotation_interval current_tail_fits =
     (has_active_tail \<and> (case checkpoint_age of None \<Rightarrow> False | Some age \<Rightarrow> rotation_interval \<le> age)
      \<or> \<not> current_tail_fits)"

section \<open>The division of a checkpoint\<close>

text \<open>The events of a range of indexes, both included.\<close>

definition event_slice :: "'e list \<Rightarrow> u64 \<times> u64 \<Rightarrow> 'e list" where
  "event_slice events = (\<lambda>(s, e). take (unat e + 1 - unat s) (drop (unat s) events))"

lemma checkpoint_loop_ranges:
  assumes span: "0 < checkpoint_event_span lib" and "checkpoint_loop lib c n start = Inr chunks"
    and "unat n \<le> length (vc_events c)"
  shows "\<exists>ranges. list_all2 (\<lambda>(s, e) ch. prepare_event_artifact lib c CheckpointArtifact s e = Inr ch) ranges chunks
    \<and> concat (map (event_slice (vc_events c)) ranges) = drop (unat start) (take (unat n) (vc_events c))
    \<and> (\<forall>(s, e) \<in> set (butlast ranges). unat e + 1 - unat s = unat (checkpoint_event_span lib))
    \<and> (\<forall>(s, e) \<in> set ranges. s \<le> e \<and> unat e + 1 - unat s \<le> unat (checkpoint_event_span lib))"
  using assms(2)
proof (induction "unat n - unat start" arbitrary: start chunks rule: less_induct)
  case less
  show ?case
  proof (cases "n \<le> start")
    case True
    with less.prems show ?thesis
      by (intro exI [of _ "[]"]) (auto simp: checkpoint_loop.simps [of lib c n start] word_le_nat_alt)
  next
    case False
    with less.prems obtain limit e artifact nxt rest where
      limit: "checked_add start (checkpoint_event_span lib - 1) = Some limit" and e: "e = min limit (n - 1)"
      and artifact: "prepare_event_artifact lib c CheckpointArtifact start e = Inr artifact"
      and nxt: "checked_add e 1 = Some nxt" and rest: "checkpoint_loop lib c n nxt = Inr rest"
      and chunks: "chunks = artifact # rest"
      by (auto simp: checkpoint_loop.simps [of lib c n start] Let_def split: option.splits sum.splits)
    note step = checkpoint_next [OF False limit nxt [unfolded e]]
    have "unat n - unat nxt < unat n - unat start"
      using False step(1) by (simp add: not_le word_less_nat_alt)
    from less.hyps [OF this rest] obtain ranges where
      all: "list_all2 (\<lambda>(s, e) ch. prepare_event_artifact lib c CheckpointArtifact s e = Inr ch) ranges rest"
      and cover: "concat (map (event_slice (vc_events c)) ranges) = drop (unat nxt) (take (unat n) (vc_events c))"
      and full: "\<forall>(s, e) \<in> set (butlast ranges). unat e + 1 - unat s = unat (checkpoint_event_span lib)"
      and small: "\<forall>(s, e) \<in> set ranges. s \<le> e \<and> unat e + 1 - unat s \<le> unat (checkpoint_event_span lib)"
      by blast
    have succ: "unat nxt = unat e + 1" using nxt by (simp add: checked_simps)
    have start_e: "unat start \<le> unat e" using step(3) e by simp
    have lim: "unat limit + 1 = unat start + unat (checkpoint_event_span lib)"
      using limit span by (auto simp: checked_simps unat_minus_one word_gt_0 unat_gt_0)
    have len: "unat e + 1 = min (unat start + unat (checkpoint_event_span lib)) (unat n)"
      using step(2) succ lim False by (auto simp: not_le word_less_nat_alt)
    have slice: "event_slice (vc_events c) (start, e) = take (unat nxt - unat start) (drop (unat start) (take (unat n) (vc_events c)))"
    proof -
      have "unat nxt - unat start \<le> unat n - unat start" using len succ by simp
      then show ?thesis by (simp add: event_slice_def succ drop_take min_absorb1)
    qed
    have "concat (map (event_slice (vc_events c)) ((start, e) # ranges)) = drop (unat start) (take (unat n) (vc_events c))"
      using step(1) by (simp add: slice cover) (metis append_take_drop_id drop_drop le_add_diff_inverse2 less_imp_le)
    moreover have "unat e + 1 - unat start = unat (checkpoint_event_span lib)" if "ranges \<noteq> []"
    proof -
      have "unat nxt < unat n"
      proof (rule ccontr)
        assume "\<not> unat nxt < unat n"
        then have "rest = []" using rest by (simp add: checkpoint_loop.simps [of lib c n nxt] word_le_nat_alt)
        with all that show False by simp
      qed
      with len succ show ?thesis by (simp add: min_def split: if_splits)
    qed
    ultimately show ?thesis
      using all full small artifact start_e len
      by (intro exI [of _ "(start, e) # ranges"]) (auto simp: chunks word_le_nat_alt)
  qed
qed

section \<open>The properties\<close>

definition signed_by :: "('u, 'c, 'a) corpus_lib \<Rightarrow> bytes32 \<Rightarrow> stored_event \<Rightarrow> bool" where
  "signed_by lib list_key e \<longleftrightarrow> verify_poi_event lib
     \<lparr>ev_index = st_event_index e, ev_blinded_commitment = st_blinded_commitment e,
      ev_signature = hex_encode64 lib (st_signature e), ev_type = st_event_type e\<rparr> list_key = Inr ()"

lemma replay_event_iff:
  "replay_event lib list_key (k, e) = Inr x \<longleftrightarrow>
     x = e \<and> unat (st_event_index e) = k \<and> signed_by lib list_key e"
  using unat_less_exp [of "st_event_index e"]
  by (auto simp: replay_event_def result_simps checked_simps signed_by_def)

lemma replay_events_iff:
  "traverse (replay_event lib list_key) (List.enumerate k events) = Inr xs \<longleftrightarrow>
     xs = events \<and> (\<forall>i < length events. unat (st_event_index (events ! i)) = k + i \<and> signed_by lib list_key (events ! i))"
proof (induction events arbitrary: k xs)
  case (Cons e events)
  show ?case
    by (auto simp: result_simps replay_event_iff Cons.IH All_less_Suc2)
qed auto

definition final_root_ok ::
  "('u, 'c, 'a) corpus_lib \<Rightarrow> 'c \<Rightarrow> stored_event list \<Rightarrow> bytes32 option \<Rightarrow> bool" where
  "final_root_ok lib cache events root \<longleftrightarrow>
     (if events = [] then root = None
      else root \<noteq> None \<and> root_at_global_index lib cache (st_event_index (List.last events)) = root)"

lemma check_final_root_iff: "check_final_root lib cache events root = Inr u \<longleftrightarrow> final_root_ok lib cache events root"
  by (auto simp: check_final_root_def final_root_ok_def Let_def result_simps split: list.splits option.splits)

text \<open>C38: the replay of a stored corpus accepts exactly what it should. It returns a corpus just when the stored events
  are numbered from zero without a gap, each is signed by the list, the cache takes them, and the expected final root is
  the root the cache computes at the last event - or absent, for an empty corpus; and the corpus holds these events,
  in this order, with that cache.\<close>

theorem replay_accepts_exactly:
  "replay lib sp events root = Inr c \<longleftrightarrow>
     (\<forall>i < length events. unat (st_event_index (events ! i)) = i \<and> signed_by lib (sp_list_key sp) (events ! i))
     \<and> (\<exists>cache. apply_verified_artifact_events lib (poi_cache_new lib (sp_chain_type sp) (sp_chain_id sp)
            (sp_txid_version sp) (sp_list_key sp)) events = Inr cache
          \<and> final_root_ok lib cache events root
          \<and> c = \<lparr>vc_scope = sp, vc_events = events, vc_cache = cache\<rparr>)"
  unfolding replay_def Let_def
  by (auto simp: result_simps replay_events_iff check_final_root_iff)


lemma retain_loop:
  "try_fold (retain_step published_at active now cid) kept bridges =
     (if list_ex (\<lambda>b. published_at (cid b) = None \<and> cid b \<in> set active) bridges then Inl ()
      else Inr (kept @ filter (\<lambda>b. case published_at (cid b) of None \<Rightarrow> True | Some t \<Rightarrow> t \<le> now \<and> now - t \<le> V4_BRIDGE_RETENTION_TARGET)
        bridges))"
  by (induction bridges arbitrary: kept) (auto simp: retain_step_def split: option.splits)

text \<open>C40: which bridges a publication keeps. Unless a bridge of the active graph has no recorded publication time - an
  error -, those published within the retention time are kept in their order, a bridge without a time counting as
  published now, and of these the latest \<open>max_bridges\<close>. A bridge dated in the future is dropped.\<close>

theorem bridges_kept:
  "retain_recent_bridges max_bridges published_at active now cid bridges =
     (if list_ex (\<lambda>b. published_at (cid b) = None \<and> cid b \<in> set active) bridges then Inl ()
      else
        let recent = filter (\<lambda>b. case published_at (cid b) of None \<Rightarrow> True | Some t \<Rightarrow> t \<le> now \<and> now - t \<le> V4_BRIDGE_RETENTION_TARGET) bridges
        in Inr (drop (length recent - max_bridges) recent))"
  by (simp add: retain_recent_bridges_def retain_loop Let_def)

text \<open>A library over a cache that is a height, and a corpus of three events.\<close>

definition example_corpus_lib :: "(unit, nat, snapshot_event list) corpus_lib" where
  "example_corpus_lib = scrape_lib.extend (example_lib []) (corpus_lib.fields
     (\<lambda>_ i. Some (ucast i)) (\<lambda>_ _ _ _ events. Inr events) (\<lambda>events. Inr [of_nat (length events)]) (\<lambda>bs. 0) 2)"

definition example_events :: "stored_event list" where
  "example_events = map (\<lambda>i. \<lparr>st_event_index = i, st_blinded_commitment = 9, st_signature = 8,
     st_event_type = PoiShield\<rparr>) [0, 1, 2]"

definition example_scope :: scope where
  "example_scope = \<lparr>sp_chain_type = 0, sp_chain_id = 1, sp_txid_version = ''V2'', sp_list_key = 7\<rparr>"

lemma example_corpus_lib_simps [simp]:
  "root_at_global_index example_corpus_lib k i = Some (ucast i)"
  "event_artifact_new example_corpus_lib sp kind r1 r2 events = Inr events"
  "event_artifact_bytes example_corpus_lib events = Inr [of_nat (length events)]"
  "checkpoint_event_span example_corpus_lib = 2" "verify_poi_event example_corpus_lib e key = Inr ()"
  "apply_verified_artifact_events example_corpus_lib k events =
    Inr (if events = [] then k else max k (Suc (unat (st_event_index (List.last events)))))"
  "poi_cache_new example_corpus_lib t i v key = 0"
  by (simp_all add: example_corpus_lib_def example_lib_def scrape_lib.defs corpus_lib.defs)

theorem replay_accepts_exactly_witness:
  "replay example_corpus_lib example_scope example_events (Some 2) =
     Inr \<lparr>vc_scope = example_scope, vc_events = example_events, vc_cache = 3\<rparr>"
  unfolding replay_accepts_exactly
  by (auto simp: example_events_def final_root_ok_def signed_by_def less_Suc_eq numeral_3_eq_3)


end
