(* ===== verification/Spec2Isabelle.thy ===== *)
theory Spec2Isabelle
  imports Scrape_Policy Hydrate_Facts Merkle_Checkpoint Commitment_Chunk Wallet_Scan_Chunk
    Public_Txid_Chunk Pin_Safety Scrape_Complete Chain_Round_Trip Config_Check Poi_Corpus
begin

text \<open>
  A verification development for the Railgun indexer. Paths below are relative to
  \<open>src/crates/railgun-indexer-core/src\<close>, and to \<open>src/bins/railgun-indexer/src\<close> where marked (bin).

  \<^bold>\<open>The program.\<close> The indexer keeps two datasets in Postgres and publishes them through IPFS and IPNS. One is the
  list of POI events (private proofs of innocence) of an upstream service: scrape workers fetch it page by page, check
  and store it. The other is what the Railgun contracts logged on several chains: an indexing loop per chain fetches
  logs, decodes them, completes them with calldata, traces and timestamps, and stores the rows; after a reorganisation
  of the chain it rewinds. From the store, chunks are encoded, pinned, listed in a manifest and announced; a retention
  sweep later unpins what no live publication needs.

  \<^bold>\<open>Foundations.\<close>
  \<^item> \<open>Indexer_Prelude\<close>: integers at their width with checked and saturating operations; results \<open>'e + 'a\<close>, where
    \<open>and_then\<close> is the operator \<open>?\<close> and \<open>try_fold\<close> a loop that may fail; the collections \<open>result_simps\<close> and
    \<open>checked_simps\<close>.
  \<^item> \<open>Action_Monad\<close>: code that acts on the outside world and may fail part-way, with triples for it.
  \<^item> \<open>Sql_Table\<close>: a table is an association list with unique keys; inserts with a conflict clause, updates, deletes,
    queries; the locale \<open>row_writer\<close> is the contract of a loop that writes one row per item.
  \<^item> \<open>Byte_Codec\<close>, \<open>Chunk_Format\<close>: writers and the readers that undo them; \<open>Chain_Types\<close>, \<open>Store_Types\<close>: records.

  \<^bold>\<open>From logs to rows\<close> (\<open>chain_logs.rs\<close>). \<open>Tree_Position\<close> (positions of leaves across trees), \<open>Log_Filters\<close> (the filters of
  a range of blocks), \<open>Log_Ingest\<close> (\<open>ingest_chain_logs\<close>), \<open>Calldata\<close>, \<open>Action_Logs\<close> with \<open>Action_Calls\<close> (the stack machine
  over action logs), \<open>Output_Match\<close>, \<open>Traces\<close>, \<open>Hydrate\<close> with \<open>Hydrate_Facts\<close>. Shown: every log of a range is requested
  once and a range can be cut anywhere but at the upgrade block; ingestion yields the rows of its logs and can be cut
  anywhere; the machine recovers nested calls and loses no record; outputs are matched in order; both trace formats
  give the same transactions; hydration fills timestamps and unshield commitments.

  \<^bold>\<open>The chain-indexed store\<close> (\<open>store.rs\<close>, \<open>chain_indexer.rs\<close>, \<open>chain_indexed.rs\<close> (bin)). \<open>Chain_Store\<close> has the tables and
  the transactions on them, \<open>Chain_Readers\<close> the queries, \<open>Chain_Store_Facts\<close> what both do, \<open>Chain_Indexer\<close> the range
  transaction, the resumption after a reorganisation, the round of the loop and its span. \<open>Chain_Indexer_Facts\<close>: the
  transactions implement an abstract index; its datasets agree and no row lies above the progress; resuming returns
  under conditions that are written out, and does not where the progress lies below the start block; the span stays
  within its bounds. \<open>Chain_Round_Trip\<close>: columns keep their types, so that reading does not fail, and a wallet scan
  returns what a committed batch wrote.

  \<^bold>\<open>Scraping\<close> (\<open>scrape/\<close>, \<open>store.rs\<close>). \<open>Scrape_Policy\<close> (page size, retries), \<open>Poi_Store\<close> (tables of events, tips and blocked
  shields), \<open>Scrape_Worker\<close> (a page with all its checks, retries, catching up, blocked shields), \<open>Scrape_Facts\<close> (the
  stored corpus stays contiguous and signed; catching up returns), \<open>Scrape_Complete\<close> (with an honest upstream it ends
  with the whole corpus). \<open>Config_Check\<close> (\<open>config.rs\<close>, \<open>scrape/orchestrator.rs\<close>): an accepted configuration has what the
  workers and the indexing loop need.

  \<^bold>\<open>Publication\<close>. \<open>Merkle_Checkpoint\<close>, \<open>Commitment_Chunk\<close>, \<open>Wallet_Scan_Chunk\<close>, \<open>Public_Txid_Chunk\<close>: published bytes decode
  to the rows. \<open>Poi_Corpus\<close> (\<open>poi_v4.rs\<close>): replay accepts exactly the valid corpora, and a checkpoint is its events cut into
  pieces. \<open>Ipfs_Pin\<close> (\<open>publish/ipfs.rs\<close>): quorum over several services. \<open>Store_State\<close>: sequence numbers increase.
  \<open>Publication_Audit\<close>, \<open>Retention\<close>, \<open>Pin_Lifecycle\<close>, \<open>Pin_Safety\<close> (\<open>audit.rs\<close>): the content of a live publication stays
  pinned whatever steps are interleaved, and a sweep is complete.

  \<^bold>\<open>Loops.\<close> No result rests on fuel. Loops over lists are structural; \<open>checkpoint_loop\<close>, retries, paging and the walks through
  calls and traces have a measure. The two loops that may run forever, catching up (\<open>catch_up_loop\<close>) and resuming
  (\<open>resume_block_after_reorg\<close>), are partial functions into \<open>option\<close>; that they return is a theorem of its own.
  \<open>indexing_rounds\<close> counts the rounds of a loop that is meant to run forever.

  \<^bold>\<open>Parameters.\<close> Code of other crates and services is an argument: ABI decoding and hash functions (\<open>event_abi\<close>,
  \<open>railgun_lib\<close>), nodes (\<open>chain_env\<close>, \<open>chain_node\<close>), compression and hashing of chunks, pinning services, the POI RPC
  client, cache, signatures and artifact format (\<open>scrape_lib\<close>, \<open>corpus_lib\<close>). What a theorem relies on of them is a
  hypothesis of it, with a witness on a concrete instance.

  \<^bold>\<open>Not modelled.\<close> The IPNS node (\<open>publish/ipns.rs\<close>) and \<open>indexed_manifest.rs\<close>, which calls it, are a network protocol;
  start-up, signals, timers, task supervision, the websocket wake-up and the order of calls in a publication cycle
  (\<open>main.rs\<close>, \<open>chain_indexed.rs\<close> (bin)); the HTTP client of one pinning service; the report for operators (\<open>status.rs\<close>),
  which nothing reads back; the schema migrations, which Postgres executes; \<open>snapshot/lifecycle.rs\<close>, one modelled query
  and an encoder of another crate; and the maintenance programs under \<open>bin/\<close> (bin). Transactions are atomic steps:
  isolation between concurrent transactions is Postgres's. The reads of one indexed range see one state of the node.
\<close>

end
